(* ===== verification/Prelude.thy ===== *)
theory Prelude
  imports Main "HOL-Library.Word" "HOL-Library.List_Lexorder" "HOL-Library.Char_ord"
begin

text \<open>
  What the components share: the widths of the C++ integers, the outcome of an operation
  that may throw, decimal printing, and the one induction that every component uses, "an
  invariant that each operation keeps holds after every sequence of operations".
\<close>

section \<open>Types\<close>

type_synonym u16 = "16 word"
type_synonym u32 = "32 word"
type_synonym u64 = "64 word"
type_synonym byte = "8 word"

text \<open>
  What can leave a function other than its return value: a C++ exception (an
  \<^verbatim>\<open>std::overflow_error\<close> of the serializer, a \<^verbatim>\<open>std::length_error\<close> of a
  vector, a thrown string literal, a boost \<^verbatim>\<open>validation_error\<close> or \<^verbatim>\<open>bad_lexical_cast\<close>), a failed assertion, an exception
  that leaves a background thread and so terminates the process, or undefined behaviour.
\<close>

datatype exn =
    OverflowError
  | LengthError
  | CharPtrException string
  | ValidationError
  | BadLexicalCast
  | FilesystemError
  | AssertFailure
  | Terminate
  | UndefinedBehaviour

type_synonym 'a result = "exn + 'a"

section \<open>Decimal numbers\<close>

fun digits_of :: "nat \<Rightarrow> string" where
  "digits_of n =
     (if n < 10 then [char_of (48 + n)]
      else digits_of (n div 10) @ [char_of (48 + n mod 10)])"

declare digits_of.simps [simp del]

text \<open>\<^verbatim>\<open>std::to_string\<close> of a signed integer.\<close>

definition to_string :: "int \<Rightarrow> string" where
  "to_string i = (if i < 0 then CHR ''-'' # digits_of (nat (- i)) else digits_of (nat i))"

definition digit_val :: "char \<Rightarrow> nat" where
  "digit_val c = of_char c - 48"

definition is_digit :: "char \<Rightarrow> bool" where
  "is_digit c \<longleftrightarrow> 48 \<le> (of_char c :: nat) \<and> (of_char c :: nat) \<le> 57"

definition parse_digits :: "string \<Rightarrow> nat" where
  "parse_digits = foldl (\<lambda>a c. 10 * a + digit_val c) 0"

lemma of_char_digit:
  fixes d :: nat
  assumes "d < 10"
  shows "of_char (char_of (48 + d) :: char) = 48 + d"
  using assms by simp

lemma digit_val_char: "(d::nat) < 10 \<Longrightarrow> digit_val (char_of (48 + d)) = d"
  by (simp add: digit_val_def of_char_digit)

lemma is_digit_char: "(d::nat) < 10 \<Longrightarrow> is_digit (char_of (48 + d))"
  by (simp add: is_digit_def of_char_digit)

lemma digits_of_nonempty: "digits_of n \<noteq> []"
  by (subst digits_of.simps) simp

lemma digits_of_digits: "c \<in> set (digits_of n) \<Longrightarrow> is_digit c"
proof (induction n rule: digits_of.induct)
  case (1 n)
  show ?case
  proof (cases "n < 10")
    case True
    with "1.prems" show ?thesis
      by (subst (asm) digits_of.simps) (simp add: is_digit_char)
  next
    case False
    with "1.prems" have "c \<in> set (digits_of (n div 10)) \<or> c = char_of (48 + n mod 10)"
      by (subst (asm) digits_of.simps) auto
    with False "1.IH" show ?thesis by (auto simp: is_digit_char)
  qed
qed

lemma parse_digits_snoc: "parse_digits (xs @ [c]) = 10 * parse_digits xs + digit_val c"
  by (simp add: parse_digits_def)

lemma parse_digits_of: "parse_digits (digits_of n) = n"
proof (induction n rule: digits_of.induct)
  case (1 n)
  show ?case
  proof (cases "n < 10")
    case True
    then show ?thesis
      by (subst digits_of.simps) (simp add: parse_digits_def digit_val_char)
  next
    case False
    then have "parse_digits (digits_of n) = 10 * parse_digits (digits_of (n div 10)) + n mod 10"
      by (subst digits_of.simps) (simp add: parse_digits_snoc digit_val_char)
    with "1.IH" False show ?thesis by simp
  qed
qed

lemma digits_of_inject: "digits_of m = digits_of n \<longleftrightarrow> m = n"
  by (metis parse_digits_of)

section \<open>Sequences of operations\<close>

text \<open>
  \<open>foldl step s es\<close> is the state after the operations \<open>es\<close>. A guard restricts which
  operations may be called in which state; \<open>all_guarded\<close> says every call of a sequence
  met it.
\<close>

fun all_guarded :: "('s \<Rightarrow> 'e \<Rightarrow> 's) \<Rightarrow> ('s \<Rightarrow> 'e \<Rightarrow> bool) \<Rightarrow> 's \<Rightarrow> 'e list \<Rightarrow> bool" where
  "all_guarded step guard s [] = True"
| "all_guarded step guard s (e # es) = (guard s e \<and> all_guarded step guard (step s e) es)"

lemma all_guarded_True: "(\<And>s e. guard s e) \<Longrightarrow> all_guarded step guard s es"
  by (induction es arbitrary: s) auto

locale invariant_machine =
  fixes step :: "'s \<Rightarrow> 'e \<Rightarrow> 's"
    and guard :: "'s \<Rightarrow> 'e \<Rightarrow> bool"
    and inv :: "'s \<Rightarrow> bool"
  assumes keep: "inv s \<Longrightarrow> guard s e \<Longrightarrow> inv (step s e)"
begin

lemma run_keeps: "inv s \<Longrightarrow> all_guarded step guard s es \<Longrightarrow> inv (foldl step s es)"
  by (induction es arbitrary: s) (auto intro: keep)

lemma run_implies:
  assumes "\<And>t. inv t \<Longrightarrow> P t" and "inv s" and "all_guarded step guard s es"
  shows "P (foldl step s es)"
  using assms run_keeps by blast

end

end
