(* ===== verification/StdMap.thy ===== *)
theory StdMap
  imports Prelude
begin

text \<open>
  \<^verbatim>\<open>std::map\<close> as an association list in increasing key order: iteration order,
  \<^verbatim>\<open>begin\<close>, \<^verbatim>\<open>rbegin\<close>, \<^verbatim>\<open>upper_bound\<close> and \<^verbatim>\<open>size\<close> are those of the list, and
  every operation computes. \<^verbatim>\<open>insert\<close> keeps an entry that is already there, as the C++
  operation does, while \<^verbatim>\<open>m[k] = v\<close> (\<open>om_assign\<close>) replaces it: several functions of the
  program depend on the difference.
\<close>

section \<open>Operations\<close>

type_synonym ('k, 'v) omap = "('k \<times> 'v) list"

abbreviation om_find :: "('k, 'v) omap \<Rightarrow> 'k \<Rightarrow> 'v option" where
  "om_find \<equiv> map_of"

fun om_assign :: "'k::linorder \<Rightarrow> 'v \<Rightarrow> ('k, 'v) omap \<Rightarrow> ('k, 'v) omap" where
  "om_assign k v [] = [(k, v)]"
| "om_assign k v (e # m) =
     (if fst e < k then e # om_assign k v m
      else if fst e = k then (k, v) # m
      else (k, v) # e # m)"

definition om_insert :: "'k::linorder \<Rightarrow> 'v \<Rightarrow> ('k, 'v) omap \<Rightarrow> ('k, 'v) omap" where
  "om_insert k v m = (if om_find m k = None then om_assign k v m else m)"

definition om_erase :: "'k::linorder \<Rightarrow> ('k, 'v) omap \<Rightarrow> ('k, 'v) omap" where
  "om_erase k m = filter (\<lambda>e. fst e \<noteq> k) m"

text \<open>Erasing from \<^verbatim>\<open>lower_bound(k)\<close> to the end.\<close>

definition om_erase_from :: "'k::linorder \<Rightarrow> ('k, 'v) omap \<Rightarrow> ('k, 'v) omap" where
  "om_erase_from k m = takeWhile (\<lambda>e. fst e < k) m"

definition om_upper_bound :: "'k::linorder \<Rightarrow> ('k, 'v) omap \<Rightarrow> ('k \<times> 'v) option" where
  "om_upper_bound k m = (case dropWhile (\<lambda>e. fst e \<le> k) m of [] \<Rightarrow> None | e # _ \<Rightarrow> Some e)"

definition om_wf :: "('k::linorder, 'v) omap \<Rightarrow> bool" where
  "om_wf m \<longleftrightarrow> sorted_wrt (<) (map fst m)"

section \<open>Lookup after an update\<close>

lemma find_assign: "om_find (om_assign k v m) = (om_find m)(k \<mapsto> v)"
  by (induction m) (auto simp: fun_eq_iff)

lemma find_insert:
  "om_find (om_insert k v m) = (if om_find m k = None then (om_find m)(k \<mapsto> v) else om_find m)"
  by (simp add: om_insert_def find_assign)

lemma find_erase: "om_find (om_erase k m) = (om_find m)(k := None)"
  unfolding om_erase_def by (induction m) (auto simp: fun_eq_iff)

lemma set_assign: "fst ` set (om_assign k v m) = insert k (fst ` set m)"
  by (induction m) auto

lemma om_wf_Nil [simp]: "om_wf []"
  by (simp add: om_wf_def)

lemma om_wf_Cons: "om_wf (e # m) \<longleftrightarrow> (\<forall>k \<in> fst ` set m. fst e < k) \<and> om_wf m"
  by (auto simp: om_wf_def)

lemma om_wf_assign: "om_wf m \<Longrightarrow> om_wf (om_assign k v m)"
proof (induction m)
  case Nil
  show ?case by (simp add: om_wf_def)
next
  case (Cons e m)
  then show ?case by (auto simp: om_wf_Cons set_assign)
qed

lemma om_wf_insert: "om_wf m \<Longrightarrow> om_wf (om_insert k v m)"
  by (simp add: om_insert_def om_wf_assign)

lemma om_wf_filter: "om_wf m \<Longrightarrow> om_wf (filter P m)"
  by (induction m) (auto simp: om_wf_Cons)

lemma om_wf_erase: "om_wf m \<Longrightarrow> om_wf (om_erase k m)"
  by (simp add: om_erase_def om_wf_filter)

lemma om_wf_distinct: "om_wf m \<Longrightarrow> distinct (map fst m)"
  by (auto simp: om_wf_def strict_sorted_iff)

section \<open>Sizes\<close>

lemma length_assign:
  "om_wf m \<Longrightarrow> length (om_assign k v m) = (if om_find m k = None then Suc (length m) else length m)"
proof (induction m)
  case Nil
  show ?case by simp
next
  case (Cons e m)
  have "k < fst e \<Longrightarrow> om_find m k = None"
    using Cons.prems by (force simp: om_wf_Cons map_of_eq_None_iff)
  with Cons show ?case by (auto simp: om_wf_Cons)
qed

lemma length_insert:
  "om_wf m \<Longrightarrow> length (om_insert k v m) = (if om_find m k = None then Suc (length m) else length m)"
  by (simp add: om_insert_def length_assign)

lemma length_erase_le: "length (om_erase k m) \<le> length m"
  by (simp add: om_erase_def)

lemma length_erase_less: "om_find m k = Some v \<Longrightarrow> length (om_erase k m) < length m"
  by (induction m) (auto simp: om_erase_def le_imp_less_Suc split: if_splits)

lemma erase_absent: "om_find m k = None \<Longrightarrow> om_erase k m = m"
  by (auto simp: om_erase_def map_of_eq_None_iff filter_id_conv)

text \<open>Two maps in key order with the same entries are the same list.\<close>

lemma om_ext:
  assumes "om_wf m" and "om_wf m'" and "om_find m = om_find m'"
  shows "m = m'"
proof -
  have "set m = set m'"
    using assms by (simp add: om_wf_distinct map_of_inject_set)
  moreover have "sorted (map fst m)" "sorted (map fst m')"
    using assms(1,2) by (auto simp: om_wf_def strict_sorted_iff)
  moreover have "inj_on fst (set m \<union> set m')"
    using assms(1) \<open>set m = set m'\<close> by (metis Un_absorb distinct_map om_wf_distinct)
  ultimately show ?thesis
    using map_sorted_distinct_set_unique om_wf_distinct assms(1,2) by blast
qed

section \<open>The interface the components use\<close>

text \<open>
  The program's components rely on these laws and on nothing else of the representation;
  \<open>insert\<close> and \<open>assign\<close> differ exactly on keys that are present.
\<close>

locale dictionary =
  fixes find :: "'m \<Rightarrow> 'k \<Rightarrow> 'v option"
    and insert' :: "'k \<Rightarrow> 'v \<Rightarrow> 'm \<Rightarrow> 'm"
    and assign :: "'k \<Rightarrow> 'v \<Rightarrow> 'm \<Rightarrow> 'm"
    and erase :: "'k \<Rightarrow> 'm \<Rightarrow> 'm"
    and wf :: "'m \<Rightarrow> bool"
  assumes insert_law:
      "find (insert' k v m) = (if find m k = None then (find m)(k \<mapsto> v) else find m)"
    and assign_law: "find (assign k v m) = (find m)(k \<mapsto> v)"
    and erase_law: "find (erase k m) = (find m)(k := None)"
    and wf_insert: "wf m \<Longrightarrow> wf (insert' k v m)"
    and wf_assign: "wf m \<Longrightarrow> wf (assign k v m)"
    and wf_erase: "wf m \<Longrightarrow> wf (erase k m)"
    and ext: "wf m \<Longrightarrow> wf m' \<Longrightarrow> find m = find m' \<Longrightarrow> m = m'"
begin

lemma insert_present: "wf m \<Longrightarrow> find m k \<noteq> None \<Longrightarrow> insert' k v m = m"
  by (rule ext) (auto simp: wf_insert insert_law)

lemma insert_fresh: "wf m \<Longrightarrow> find m k = None \<Longrightarrow> insert' k v m = assign k v m"
  by (rule ext) (simp_all add: wf_insert wf_assign insert_law assign_law)

lemma assign_same: "wf m \<Longrightarrow> find m k = Some v \<Longrightarrow> assign k v m = m"
  by (rule ext) (simp_all add: wf_assign assign_law map_upd_triv)

lemma erase_assign: "wf m \<Longrightarrow> find m k = None \<Longrightarrow> erase k (assign k v m) = m"
  by (rule ext) (simp_all add: wf_assign wf_erase erase_law assign_law fun_upd_idem)

lemmas dict_simps = insert_law assign_law erase_law
lemmas dict_wf = wf_insert wf_assign wf_erase

end

interpretation om: dictionary om_find om_insert om_assign om_erase om_wf
  by unfold_locales
    (simp_all add: find_insert find_assign find_erase om_wf_insert om_wf_assign om_wf_erase om_ext)

end
