(* ===== verification/Paths.thy ===== *)
theory Paths
  imports Prelude
begin

text \<open>
  The path arithmetic of \<^verbatim>\<open>src/utility.cc\<close>: \<^verbatim>\<open>concatenatePath\<close> and the parts of
  \<^verbatim>\<open>std::filesystem::path\<close> it and the state machine use, as the C++ standard fixes them on
  POSIX: \<^verbatim>\<open>operator/\<close>, \<^verbatim>\<open>absolute\<close>, \<^verbatim>\<open>generic_string\<close> (which writes one separator
  between elements) and \<^verbatim>\<open>parent_path\<close>. The working directory of the process is the
  argument \<open>cwd\<close>. Dots and symbolic links are not resolved, neither here nor in the code.
\<close>

section \<open>std::filesystem::path on POSIX\<close>

definition sep :: char where
  "sep = CHR ''/''"

definition is_absolute :: "string \<Rightarrow> bool" where
  "is_absolute p \<longleftrightarrow> p \<noteq> [] \<and> hd p = sep"

definition has_filename :: "string \<Rightarrow> bool" where
  "has_filename p \<longleftrightarrow> p \<noteq> [] \<and> last p \<noteq> sep"

definition path_append :: "string \<Rightarrow> string \<Rightarrow> string" where
  "path_append base p =
     (if is_absolute p then p
      else if has_filename base then base @ [sep] @ p
      else base @ p)"

definition fs_absolute :: "string \<Rightarrow> string \<Rightarrow> string" where
  "fs_absolute cwd p = (if is_absolute p then p else path_append cwd p)"

fun generic_string :: "string \<Rightarrow> string" where
  "generic_string [] = []"
| "generic_string [c] = [c]"
| "generic_string (c # d # cs) =
     (if c = sep \<and> d = sep then generic_string (d # cs) else c # generic_string (d # cs))"

text \<open>The path without its last element; \<open>p\<close> is absolute and in generic form.\<close>

definition parent_path :: "string \<Rightarrow> string" where
  "parent_path p =
     (let d = rev (dropWhile (\<lambda>c. c \<noteq> sep) (rev p))
      in if d = [sep] then [sep] else butlast d)"

definition concatenatePath :: "string \<Rightarrow> string \<Rightarrow> string \<Rightarrow> string" where
  "concatenatePath cwd base p = generic_string (fs_absolute cwd (path_append base p))"

section \<open>Generic form\<close>

text \<open>No two separators in a row.\<close>

fun single_seps :: "string \<Rightarrow> bool" where
  "single_seps [] = True"
| "single_seps [c] = True"
| "single_seps (c # d # cs) = (\<not> (c = sep \<and> d = sep) \<and> single_seps (d # cs))"

lemma generic_string_hd: "p \<noteq> [] \<Longrightarrow> generic_string p \<noteq> [] \<and> hd (generic_string p) = hd p"
  by (induction p rule: generic_string.induct) auto

lemma generic_string_single: "single_seps (generic_string p)"
proof (induction p rule: generic_string.induct)
  case (3 c d cs)
  then show ?case
    using generic_string_hd [of "d # cs"] by (cases "generic_string (d # cs)") auto
qed simp_all

lemma generic_string_idle: "single_seps p \<Longrightarrow> generic_string p = p"
  by (induction p rule: single_seps.induct) auto

lemma generic_string_append:
  assumes "ys \<noteq> []" and "hd ys \<noteq> sep"
  shows "generic_string (xs @ ys) = generic_string xs @ generic_string ys"
  using assms
proof (induction xs rule: generic_string.induct)
  case (2 c)
  then show ?case by (cases ys) auto
qed auto

lemma generic_string_last: "p \<noteq> [] \<Longrightarrow> last (generic_string p) = last p"
proof (induction p rule: generic_string.induct)
  case (3 c d cs)
  then show ?case using generic_string_hd [of "d # cs"] by auto
qed simp_all

section \<open>Concatenation\<close>

text \<open>A relative path name as a client writes it: not empty, no leading or doubled separator.\<close>

definition plain_name :: "string \<Rightarrow> bool" where
  "plain_name p \<longleftrightarrow> p \<noteq> [] \<and> hd p \<noteq> sep \<and> single_seps p"

lemma concatenatePath_absolute:
  "is_absolute p \<Longrightarrow> concatenatePath cwd base p = generic_string p"
  by (simp add: concatenatePath_def path_append_def fs_absolute_def)

lemma concatenatePath_is_absolute:
  "is_absolute cwd \<Longrightarrow> is_absolute (concatenatePath cwd base p)"
  using generic_string_hd [of "fs_absolute cwd (path_append base p)"]
  by (auto simp: concatenatePath_def fs_absolute_def path_append_def is_absolute_def)

text \<open>
  Below an absolute directory a plain name is appended with one separator, whether or not
  the directory is written with a trailing one.
\<close>

lemma concatenatePath_plain:
  assumes "is_absolute base" and "plain_name p"
  shows "concatenatePath cwd base p =
    generic_string (if last base = sep then base else base @ [sep]) @ p"
proof -
  have "fs_absolute cwd (path_append base p) =
      (if last base = sep then base else base @ [sep]) @ p"
    using assms
    by (auto simp: fs_absolute_def path_append_def plain_name_def is_absolute_def has_filename_def)
  moreover have "generic_string p = p"
    using assms(2) by (simp add: plain_name_def generic_string_idle)
  ultimately show ?thesis
    using assms(2) by (simp add: concatenatePath_def plain_name_def generic_string_append)
qed

lemma concatenatePath_inject:
  assumes "is_absolute base" and "plain_name p" and "plain_name q"
  shows "concatenatePath cwd base p = concatenatePath cwd base q \<longleftrightarrow> p = q"
  using assms by (auto simp: concatenatePath_plain)

end
