(* ===== verification/FileSystem.thy ===== *)
theory FileSystem
  imports StdMap Paths
begin

text \<open>
  The part of the file system the program touches through the standard library:
  \<^verbatim>\<open>fs::exists\<close>, \<^verbatim>\<open>fs::create_directories\<close>, \<^verbatim>\<open>fs::remove\<close>, \<^verbatim>\<open>std::ofstream\<close>,
  \<^verbatim>\<open>std::ifstream\<close> and \<^verbatim>\<open>std::rename\<close>. A file system maps absolute paths, as the
  strings the program builds, to directories and regular files; the root always exists.
  The failures that depend on the tree are modelled (a missing parent, a file where a
  directory is needed, a directory where a file is needed); those of the device (no space,
  no permission) are not.
\<close>

datatype fnode = Directory | Regular string

type_synonym fs = "(string, fnode) omap"

section \<open>Operations\<close>

text \<open>A path that ends in a separator names a directory.\<close>

definition lookup_path :: "fs \<Rightarrow> string \<Rightarrow> fnode option" where
  "lookup_path fs p =
     (if p = [sep] then Some Directory
      else if p \<noteq> [] \<and> last p = sep then
        (if om_find fs (butlast p) = Some Directory then Some Directory else None)
      else om_find fs p)"

definition fs_exists :: "fs \<Rightarrow> string \<Rightarrow> bool" where
  "fs_exists fs p \<longleftrightarrow> lookup_path fs p \<noteq> None"

text \<open>The directories on the way to \<open>p\<close>, \<open>p\<close> last, the root left out.\<close>

definition dir_chain :: "string \<Rightarrow> string list" where
  "dir_chain p =
     filter (\<lambda>q. last q \<noteq> sep)
       (map (\<lambda>n. take n p)
         (filter (\<lambda>n. n = length p \<or> p ! n = sep) [1..<Suc (length p)]))"

fun make_dirs :: "string list \<Rightarrow> fs \<Rightarrow> fs option" where
  "make_dirs [] fs = Some fs"
| "make_dirs (d # ds) fs =
     (case om_find fs d of
        None \<Rightarrow> make_dirs ds (om_assign d Directory fs)
      | Some Directory \<Rightarrow> make_dirs ds fs
      | Some (Regular _) \<Rightarrow> None)"

text \<open>\<open>None\<close>: a regular file is in the way, \<^verbatim>\<open>filesystem_error\<close> is thrown.\<close>

definition create_directories :: "string \<Rightarrow> fs \<Rightarrow> fs option" where
  "create_directories p fs = make_dirs (dir_chain p) fs"

text \<open>
  \<^verbatim>\<open>ofstream o; o.open(p); o << content; o.close()\<close>: when the file cannot be opened the
  stream is bad and nothing is written.
\<close>

definition write_file :: "string \<Rightarrow> string \<Rightarrow> fs \<Rightarrow> fs" where
  "write_file p content fs =
     (if lookup_path fs (parent_path p) = Some Directory \<and> last p \<noteq> sep
         \<and> om_find fs p \<noteq> Some Directory
      then om_assign p (Regular content) fs else fs)"

definition rename_file :: "string \<Rightarrow> string \<Rightarrow> fs \<Rightarrow> bool \<times> fs" where
  "rename_file source target fs =
     (case om_find fs source of
        Some (Regular c) \<Rightarrow>
          if lookup_path fs (parent_path target) = Some Directory \<and> last target \<noteq> sep
             \<and> om_find fs target \<noteq> Some Directory
          then (True, om_assign target (Regular c) (om_erase source fs))
          else (False, fs)
      | _ \<Rightarrow> (False, fs))"

text \<open>
  \<^verbatim>\<open>ifstream f(p)\<close>, then \<^verbatim>\<open>ss << f.rdbuf()\<close>: \<open>None\<close> when the stream did not open; a
  directory opens and yields nothing.
\<close>

definition read_file :: "fs \<Rightarrow> string \<Rightarrow> string option" where
  "read_file fs p =
     (case lookup_path fs p of
        None \<Rightarrow> None
      | Some Directory \<Rightarrow> Some []
      | Some (Regular c) \<Rightarrow> Some c)"

definition has_children :: "fs \<Rightarrow> string \<Rightarrow> bool" where
  "has_children fs p \<longleftrightarrow> (\<exists>e \<in> set fs. take (Suc (length p)) (fst e) = p @ [sep])"

definition remove_path :: "string \<Rightarrow> fs \<Rightarrow> fs result" where
  "remove_path p fs =
     (case om_find fs p of
        None \<Rightarrow> Inr fs
      | Some (Regular _) \<Rightarrow> Inr (om_erase p fs)
      | Some Directory \<Rightarrow> if has_children fs p then Inl FilesystemError else Inr (om_erase p fs))"

section \<open>Paths and their parents\<close>

lemma parent_path_suffix:
  assumes "sep \<notin> set r"
  shows "parent_path (p @ r) = parent_path p"
proof -
  have "dropWhile (\<lambda>c. c \<noteq> sep) (rev r @ rev p) = dropWhile (\<lambda>c. c \<noteq> sep) (rev p)"
    using assms by (auto simp: dropWhile_append)
  then show ?thesis by (simp add: parent_path_def)
qed

lemma parent_path_name:
  assumes "sep \<notin> set r" and "d \<noteq> []"
  shows "parent_path (d @ [sep] @ r) = d" and "parent_path ([sep] @ r) = [sep]"
proof -
  have "dropWhile (\<lambda>c. c \<noteq> sep) (rev r @ sep # rev d) = sep # rev d"
    using assms by (auto simp: dropWhile_append)
  then show "parent_path (d @ [sep] @ r) = d" using assms by (simp add: parent_path_def)
  have "dropWhile (\<lambda>c. c \<noteq> sep) (rev r @ [sep]) = [sep]"
    using assms by (auto simp: dropWhile_append)
  then show "parent_path ([sep] @ r) = [sep]" by (simp add: parent_path_def)
qed

lemma single_seps_append_sep:
  "single_seps (p @ [sep] @ r) \<Longrightarrow> p \<noteq> [] \<Longrightarrow> last p \<noteq> sep"
proof (induction p rule: single_seps.induct)
  case (3 c d cs)
  then show ?case by (cases cs) auto
qed simp_all

lemma path_split:
  assumes "is_absolute p"
  obtains d r where "p = d @ [sep] @ r" and "sep \<notin> set r"
proof -
  have "sep \<in> set p" using assms hd_in_set [of p] by (auto simp: is_absolute_def)
  then obtain d r where "p = d @ sep # r" "sep \<notin> set r"
    by (metis split_list_last)
  with that show ?thesis by simp
qed

lemma parent_path_shape:
  assumes "is_absolute p" and "single_seps p"
  shows "parent_path p = [sep] \<or> (parent_path p \<noteq> [] \<and> last (parent_path p) \<noteq> sep)"
    and "parent_path p = [sep] \<or> length (parent_path p) < length p"
proof -
  obtain d r where p: "p = d @ [sep] @ r" "sep \<notin> set r" using assms(1) by (rule path_split)
  have d: "d \<noteq> [] \<Longrightarrow> last d \<noteq> sep"
    using assms(2) p by (metis single_seps_append_sep)
  show "parent_path p = [sep] \<or> (parent_path p \<noteq> [] \<and> last (parent_path p) \<noteq> sep)"
    using p d parent_path_name by (cases "d = []") auto
  show "parent_path p = [sep] \<or> length (parent_path p) < length p"
    using p parent_path_name by (cases "d = []") auto
qed

lemma dir_chain_self: "p \<noteq> [] \<Longrightarrow> last p \<noteq> sep \<Longrightarrow> p \<in> set (dir_chain p)"
  by (auto simp: dir_chain_def intro!: image_eqI [of _ _ "length p"] simp: Suc_le_eq)

lemma dir_chain_length: "q \<in> set (dir_chain p) \<Longrightarrow> length q \<le> length p"
  by (auto simp: dir_chain_def)

section \<open>Creating directories\<close>

lemma make_dirs_keeps: "make_dirs ds fs = Some fs' \<Longrightarrow> om_find fs p = Some x \<Longrightarrow> om_find fs' p = Some x"
proof (induction ds arbitrary: fs)
  case (Cons d ds)
  show ?case
  proof (cases "om_find fs d")
    case None
    with Cons.prems(2) have "om_find (om_assign d Directory fs) p = Some x"
      by (auto simp: find_assign)
    with None Cons.prems(1) Cons.IH show ?thesis by simp
  next
    case (Some y)
    with Cons show ?thesis by (cases y) auto
  qed
qed simp

lemma make_dirs_others:
  "make_dirs ds fs = Some fs' \<Longrightarrow> p \<notin> set ds \<Longrightarrow> om_find fs' p = om_find fs p"
  by (induction ds arbitrary: fs) (auto simp: find_assign split: option.splits fnode.splits)

lemma make_dirs_made:
  "make_dirs ds fs = Some fs' \<Longrightarrow> p \<in> set ds \<Longrightarrow> om_find fs' p = Some Directory"
proof (induction ds arbitrary: fs)
  case (Cons d ds)
  show ?case
  proof (cases "p \<in> set ds")
    case True
    with Cons show ?thesis by (auto split: option.splits fnode.splits)
  next
    case False
    with Cons.prems have "p = d" by simp
    with Cons.prems show ?thesis
      by (auto simp: find_assign intro: make_dirs_keeps split: option.splits fnode.splits)
  qed
qed simp

lemma make_dirs_wf: "make_dirs ds fs = Some fs' \<Longrightarrow> om_wf fs \<Longrightarrow> om_wf fs'"
  by (induction ds arbitrary: fs) (auto simp: om_wf_assign split: option.splits fnode.splits)

lemma lookup_after_create:
  assumes "create_directories (parent_path p) fs = Some fs'"
    and "is_absolute p" and "single_seps p"
  shows "lookup_path fs' (parent_path p) = Some Directory"
proof (cases "parent_path p = [sep]")
  case True
  then show ?thesis by (simp add: lookup_path_def)
next
  case False
  then have "parent_path p \<noteq> []" "last (parent_path p) \<noteq> sep"
    using parent_path_shape [OF assms(2,3)] by auto
  moreover from this have "om_find fs' (parent_path p) = Some Directory"
    using assms(1) unfolding create_directories_def by (blast intro: make_dirs_made dir_chain_self)
  ultimately show ?thesis by (simp add: lookup_path_def)
qed

lemma create_directories_longer:
  assumes "create_directories (parent_path p) fs = Some fs'"
    and "is_absolute p" and "single_seps p" and "length p \<le> length q" and "q \<noteq> [sep]"
  shows "om_find fs' q = om_find fs q"
proof -
  have "q \<notin> set (dir_chain (parent_path p))"
  proof
    assume q: "q \<in> set (dir_chain (parent_path p))"
    show False
    proof (cases "parent_path p = [sep]")
      case True
      then have "dir_chain (parent_path p) = []" by (simp add: dir_chain_def)
      with q show False by simp
    next
      case False
      with q dir_chain_length [OF q] parent_path_shape(2) [OF assms(2,3)] assms(4)
      show False by simp
    qed
  qed
  with assms(1) show ?thesis by (simp add: create_directories_def make_dirs_others)
qed

end
