(* ===== verification/Serializer.thy ===== *)
theory Serializer
  imports Prelude
begin

text \<open>
  The interface of NuRaft's \<^verbatim>\<open>buffer\<close> and \<^verbatim>\<open>buffer_serializer\<close> as the program uses it. The
  library is not part of the repository, so its operations are a record of functions that
  every definition calling them takes as an argument, and what the library documents is
  the predicate \<open>ser_law\<close>: a buffer has room for a fixed number of bytes, a \<^verbatim>\<open>put\<close> that
  does not fit throws \<^verbatim>\<open>overflow_error\<close> (\<open>None\<close>), a string takes its length plus four
  bytes, and a serializer placed on a written buffer reads the values back in order.
\<close>

datatype ser_item = I32 u32 | U64 u64 | Str string

fun item_size :: "ser_item \<Rightarrow> nat" where
  "item_size (I32 _) = 4"
| "item_size (U64 _) = 8"
| "item_size (Str s) = 4 + length s"

text \<open>
  \<open>alloc\<close> is \<^verbatim>\<open>buffer::alloc\<close> with a serializer on it, \<open>rewind\<close> a new serializer on an
  existing buffer; \<open>put\<close> stands for \<^verbatim>\<open>put_i32\<close>, \<^verbatim>\<open>put_u64\<close> and \<^verbatim>\<open>put_str\<close>.
\<close>

record 'b ser =
  alloc :: "nat \<Rightarrow> 'b"
  rewind :: "'b \<Rightarrow> 'b"
  put :: "ser_item \<Rightarrow> 'b \<Rightarrow> 'b option"
  get_i32 :: "'b \<Rightarrow> (u32 \<times> 'b) option"
  get_str :: "'b \<Rightarrow> (string \<times> 'b) option"

definition ser_law ::
    "'b ser \<Rightarrow> ('b \<Rightarrow> nat) \<Rightarrow> ('b \<Rightarrow> ser_item list) \<Rightarrow> ('b \<Rightarrow> ser_item list) \<Rightarrow> bool" where
  "ser_law S room written pending \<longleftrightarrow>
     (\<forall>n. room (alloc S n) = n \<and> written (alloc S n) = []) \<and>
     (\<forall>b. pending (rewind S b) = written b) \<and>
     (\<forall>i b. put S i b = None \<longleftrightarrow> room b < item_size i) \<and>
     (\<forall>i b b'. put S i b = Some b' \<longrightarrow>
        written b' = written b @ [i] \<and> room b' = room b - item_size i) \<and>
     (\<forall>b x r. pending b = I32 x # r \<longrightarrow> (\<exists>b'. get_i32 S b = Some (x, b') \<and> pending b' = r)) \<and>
     (\<forall>b s r. pending b = Str s # r \<longrightarrow> (\<exists>b'. get_str S b = Some (s, b') \<and> pending b' = r))"

section \<open>Consequences\<close>

lemma ser_alloc:
  "ser_law S room written pending \<Longrightarrow> room (alloc S n) = n \<and> written (alloc S n) = []"
  by (simp add: ser_law_def)

lemma ser_rewind: "ser_law S room written pending \<Longrightarrow> pending (rewind S b) = written b"
  by (simp add: ser_law_def)

lemma ser_put_None: "ser_law S room written pending \<Longrightarrow> put S i b = None \<longleftrightarrow> room b < item_size i"
  by (simp add: ser_law_def)

lemma ser_put_Some:
  assumes "ser_law S room written pending" and "item_size i \<le> room b"
  obtains b' where "put S i b = Some b'" and "written b' = written b @ [i]"
    and "room b' = room b - item_size i"
  using assms by (cases "put S i b") (auto simp: ser_law_def)

lemma ser_get_i32:
  assumes "ser_law S room written pending" and "pending b = I32 x # r"
  obtains b' where "get_i32 S b = Some (x, b')" and "pending b' = r"
  using assms unfolding ser_law_def by blast

lemma ser_get_str:
  assumes "ser_law S room written pending" and "pending b = Str s # r"
  obtains b' where "get_str S b = Some (s, b')" and "pending b' = r"
  using assms unfolding ser_law_def by blast

section \<open>An instance\<close>

text \<open>
  A serializer over lists of items, for evaluating the model on concrete inputs: the room
  left, the items written, the items still to be read.
\<close>

type_synonym item_buffer = "nat \<times> ser_item list \<times> ser_item list"

definition item_ser :: "item_buffer ser" where
  "item_ser =
     \<lparr>alloc = (\<lambda>n. (n, [], [])),
      rewind = (\<lambda>(n, w, p). (n, w, w)),
      put = (\<lambda>i (n, w, p). if item_size i \<le> n then Some (n - item_size i, w @ [i], p) else None),
      get_i32 = (\<lambda>(n, w, p). case p of I32 x # r \<Rightarrow> Some (x, n, w, r) | _ \<Rightarrow> None),
      get_str = (\<lambda>(n, w, p). case p of Str s # r \<Rightarrow> Some (s, n, w, r) | _ \<Rightarrow> None)\<rparr>"

lemma item_ser_law: "ser_law item_ser fst (\<lambda>b. fst (snd b)) (\<lambda>b. snd (snd b))"
  by (auto simp: ser_law_def item_ser_def)

end
