(* ===== verification/StateMachine.thy ===== *)
theory StateMachine
  imports FileSystem Serializer
begin

text \<open>
  \<^verbatim>\<open>include/state_machine.hxx\<close>: the replicated state machine. Committing a log entry writes
  the payload's content to a file of the server's directory through a temporary file and a
  rename; the in-memory state is the last path written, the last committed index and at
  most three snapshots.
\<close>

section \<open>Payloads\<close>

text \<open>
  \<^verbatim>\<open>enum class op_type : int\<close>; the cast from an integer that names no enumerator is the
  last constructor.
\<close>

datatype op_type = CREATE | WRITE | DELETE | Other_op u32

fun op_code :: "op_type \<Rightarrow> u32" where
  "op_code CREATE = 2"
| "op_code WRITE = 0"
| "op_code DELETE = 1"
| "op_code (Other_op c) = c"

definition op_of_code :: "u32 \<Rightarrow> op_type" where
  "op_of_code c = (if c = 2 then CREATE else if c = 0 then WRITE else if c = 1 then DELETE
     else Other_op c)"

record op_payload =
  op_kind :: op_type
  op_path :: string
  op_content :: string

text \<open>
  \<^verbatim>\<open>sizeof(op_payload)\<close> on the platform the build targets: an int padded to 8 and two
  \<^verbatim>\<open>std::string\<close> objects of 32 bytes each. The strings' characters are not part of it.
\<close>

definition sizeof_op_payload :: nat where
  "sizeof_op_payload = 72"

definition overflow_result :: "'a option \<Rightarrow> 'a result" where
  "overflow_result r = (case r of None \<Rightarrow> Inl OverflowError | Some x \<Rightarrow> Inr x)"

definition enc_log :: "'b ser \<Rightarrow> op_payload \<Rightarrow> 'b result" where
  "enc_log S p = overflow_result
     (Option.bind (put S (I32 (op_code (op_kind p))) (alloc S sizeof_op_payload)) (\<lambda>b1.
      Option.bind (put S (Str (op_path p)) b1) (\<lambda>b2.
      put S (Str (op_content p)) b2)))"

definition dec_log :: "'b ser \<Rightarrow> 'b \<Rightarrow> op_payload result" where
  "dec_log S data = overflow_result
     (Option.bind (get_i32 S (rewind S data)) (\<lambda>(c, b1).
      Option.bind (get_str S b1) (\<lambda>(p, b2).
      Option.bind (get_str S b2) (\<lambda>(t, b3).
      Some \<lparr>op_kind = op_of_code c, op_path = p, op_content = t\<rparr>))))"

lemma op_of_code_code: "op_of_code (op_code t) = t \<or> (\<exists>c. t = Other_op c \<and> c \<in> {0, 1, 2})"
  by (cases t) (auto simp: op_of_code_def)

text \<open>What fits: four bytes for the type and four for the length of each string.\<close>

definition payload_fits :: "op_payload \<Rightarrow> bool" where
  "payload_fits p \<longleftrightarrow> 12 + length (op_path p) + length (op_content p) \<le> sizeof_op_payload"

lemma enc_log_written:
  assumes law: "ser_law S room written pending" and fits: "payload_fits p"
  obtains b where "enc_log S p = Inr b"
    and "written b = [I32 (op_code (op_kind p)), Str (op_path p), Str (op_content p)]"
proof -
  let ?i1 = "I32 (op_code (op_kind p))"
  have "item_size ?i1 \<le> room (alloc S sizeof_op_payload)"
    using law by (simp add: ser_alloc sizeof_op_payload_def)
  then obtain b1 where b1: "put S ?i1 (alloc S sizeof_op_payload) = Some b1"
      "written b1 = [?i1]" "room b1 = sizeof_op_payload - 4"
    using ser_put_Some [OF law] ser_alloc [OF law] by (metis append_Nil item_size.simps(1))
  have "item_size (Str (op_path p)) \<le> room b1"
    using fits b1 by (simp add: payload_fits_def sizeof_op_payload_def)
  then obtain b2 where b2: "put S (Str (op_path p)) b1 = Some b2"
      "written b2 = [?i1, Str (op_path p)]" "room b2 = sizeof_op_payload - 8 - length (op_path p)"
    using ser_put_Some [OF law, of "Str (op_path p)" b1] b1 by auto
  have "item_size (Str (op_content p)) \<le> room b2"
    using fits b2 by (simp add: payload_fits_def sizeof_op_payload_def)
  then obtain b3 where "put S (Str (op_content p)) b2 = Some b3"
      "written b3 = [?i1, Str (op_path p), Str (op_content p)]"
    using ser_put_Some [OF law, of "Str (op_content p)" b2] b2 by auto
  with b1 b2 show thesis
    by (intro that [of b3]) (simp_all add: enc_log_def overflow_result_def)
qed

lemma enc_log_overflow:
  assumes law: "ser_law S room written pending" and "\<not> payload_fits p"
  shows "enc_log S p = Inl OverflowError"
proof -
  let ?i1 = "I32 (op_code (op_kind p))"
  have "item_size ?i1 \<le> room (alloc S sizeof_op_payload)"
    using law by (simp add: ser_alloc sizeof_op_payload_def)
  then obtain b1 where b1: "put S ?i1 (alloc S sizeof_op_payload) = Some b1" "room b1 = 68"
    using ser_put_Some [OF law, of ?i1 "alloc S sizeof_op_payload"] ser_alloc [OF law]
    by (auto simp: sizeof_op_payload_def)
  show ?thesis
  proof (cases "put S (Str (op_path p)) b1")
    case None
    with b1 show ?thesis by (simp add: enc_log_def overflow_result_def)
  next
    case (Some b2)
    then have "\<not> room b1 < item_size (Str (op_path p))"
      using ser_put_None [OF law, of "Str (op_path p)" b1] by simp
    then have "room b2 = 68 - item_size (Str (op_path p))"
      using ser_put_Some [OF law, of "Str (op_path p)" b1] Some b1 by (metis not_less option.inject)
    then have "room b2 < item_size (Str (op_content p))"
      using assms(2) \<open>\<not> room b1 < _\<close> b1 by (simp add: payload_fits_def sizeof_op_payload_def)
    then have "put S (Str (op_content p)) b2 = None"
      using ser_put_None [OF law] by blast
    with b1 Some show ?thesis by (simp add: enc_log_def overflow_result_def)
  qed
qed

lemma dec_log_written:
  assumes law: "ser_law S room written pending"
    and w: "written b = [I32 c, Str p, Str t]"
  shows "dec_log S b = Inr \<lparr>op_kind = op_of_code c, op_path = p, op_content = t\<rparr>"
proof -
  have "pending (rewind S b) = I32 c # [Str p, Str t]" using w ser_rewind [OF law] by simp
  then obtain b1 where b1: "get_i32 S (rewind S b) = Some (c, b1)" "pending b1 = Str p # [Str t]"
    by (rule ser_get_i32 [OF law])
  then obtain b2 where b2: "get_str S b1 = Some (p, b2)" "pending b2 = Str t # []"
    using ser_get_str [OF law] by metis
  then obtain b3 where "get_str S b2 = Some (t, b3)"
    using ser_get_str [OF law] by metis
  with b1 b2 show ?thesis by (simp add: dec_log_def overflow_result_def)
qed

lemma dec_enc_log:
  assumes law: "ser_law S room written pending" and "payload_fits p"
    and "op_of_code (op_code (op_kind p)) = op_kind p"
  obtains b where "enc_log S p = Inr b" and "dec_log S b = Inr p"
  using enc_log_written [OF law assms(2)] dec_log_written [OF law] assms(3)
  by (metis op_payload.surjective old.unit.exhaust)

section \<open>Configuration and paths\<close>

text \<open>
  What the path of a lock's file depends on: \<^verbatim>\<open>State::config->directory\<close>,
  \<^verbatim>\<open>State::stuff.server_id_\<close> and the working directory of the process.
\<close>

record config =
  directory :: string
  server_id :: int
  cwd :: string

definition base_directory :: "config \<Rightarrow> string" where
  "base_directory conf =
     concatenatePath (cwd conf) (fs_absolute (cwd conf) (directory conf)) (to_string (server_id conf))"

definition mapped_path :: "config \<Rightarrow> string \<Rightarrow> string" where
  "mapped_path conf path = concatenatePath (cwd conf) (base_directory conf) path"

section \<open>Committing\<close>

record 's snapshot_ctx =
  ctx_snapshot :: 's
  ctx_value :: string

record 's sm_state =
  cur_value :: "string option"
  last_committed_idx :: u64
  snapshots :: "(u64, 's snapshot_ctx) omap"
  async_snapshot :: bool

definition sm_init :: "bool \<Rightarrow> 's sm_state" where
  "sm_init async = \<lparr>cur_value = None, last_committed_idx = 0, snapshots = [], async_snapshot = async\<rparr>"

definition pre_commit :: "u64 \<Rightarrow> 'b \<Rightarrow> 'b option" where
  "pre_commit log_idx data = None"

text \<open>The file a \<^verbatim>\<open>WRITE\<close> goes through; \<open>random\<close> is what \<^verbatim>\<open>rand()\<close> returned.\<close>

definition temp_path :: "string \<Rightarrow> nat \<Rightarrow> string" where
  "temp_path mapped random = mapped @ ''_'' @ to_string (int random) @ ''.tmp''"

definition commit_write :: "string \<Rightarrow> nat \<Rightarrow> string \<Rightarrow> fs \<Rightarrow> fs option" where
  "commit_write mapped random content fs =
     (case create_directories (parent_path mapped) fs of
        None \<Rightarrow> None
      | Some fs1 \<Rightarrow>
          (let temp = temp_path mapped random
           in Some (snd (rename_file temp mapped (write_file temp content fs1)))))"

definition commit ::
    "'b ser \<Rightarrow> config \<Rightarrow> nat \<Rightarrow> u64 \<Rightarrow> 'b \<Rightarrow> 's sm_state \<Rightarrow> fs \<Rightarrow> 'b result \<times> 's sm_state \<times> fs" where
  "commit S conf random log_idx data sm fs =
     (case dec_log S data of
        Inl e \<Rightarrow> (Inl e, sm, fs)
      | Inr payload \<Rightarrow>
          (let mapped = mapped_path conf (op_path payload);
               fs' = (case op_kind payload of
                        WRITE \<Rightarrow> commit_write mapped random (op_content payload) fs
                      | _ \<Rightarrow> Some fs)
           in case fs' of
                None \<Rightarrow> (Inl FilesystemError, sm, fs)
              | Some fs'' \<Rightarrow>
                  (overflow_result (put S (U64 log_idx) (alloc S 8)),
                   sm\<lparr>cur_value := Some (op_path payload), last_committed_idx := log_idx\<rparr>, fs'')))"

definition commit_config :: "u64 \<Rightarrow> 's sm_state \<Rightarrow> 's sm_state" where
  "commit_config log_idx sm = sm\<lparr>last_committed_idx := log_idx\<rparr>"

definition rollback :: "u64 \<Rightarrow> 'b \<Rightarrow> 's sm_state \<Rightarrow> 's sm_state" where
  "rollback log_idx data sm = sm"

definition last_commit_index :: "'s sm_state \<Rightarrow> u64" where
  "last_commit_index sm = last_committed_idx sm"

definition get_current_value :: "'s sm_state \<Rightarrow> string" where
  "get_current_value sm = (case cur_value sm of None \<Rightarrow> ''/'' | Some v \<Rightarrow> v)"

section \<open>Snapshots\<close>

text \<open>NuRaft's \<^verbatim>\<open>snapshot\<close> class, as far as the state machine uses it.\<close>

record ('s, 'b) snapshot_api =
  get_last_log_idx :: "'s \<Rightarrow> u64"
  snapshot_serialize :: "'s \<Rightarrow> 'b"
  snapshot_deserialize :: "'b \<Rightarrow> 's"

definition snapshot_law :: "('s, 'b) snapshot_api \<Rightarrow> bool" where
  "snapshot_law A \<longleftrightarrow> (\<forall>s. snapshot_deserialize A (snapshot_serialize A s) = s)"

definition snapshot_copy :: "('s, 'b) snapshot_api \<Rightarrow> 's \<Rightarrow> 's" where
  "snapshot_copy A s = snapshot_deserialize A (snapshot_serialize A s)"

definition MAX_SNAPSHOTS :: nat where
  "MAX_SNAPSHOTS = 3"

fun erase_front :: "nat \<Rightarrow> ('k, 'v) omap \<Rightarrow> ('k, 'v) omap" where
  "erase_front 0 m = m"
| "erase_front (Suc n) [] = []"
| "erase_front (Suc n) (e # m) = erase_front n m"

definition create_snapshot_internal ::
    "('s, 'b) snapshot_api \<Rightarrow> 's \<Rightarrow> 's sm_state \<Rightarrow> 's sm_state" where
  "create_snapshot_internal A ss sm =
     (let ctx = \<lparr>ctx_snapshot = ss, ctx_value = get_current_value sm\<rparr>;
          m = om_assign (get_last_log_idx A ss) ctx (snapshots sm)
      in sm\<lparr>snapshots := erase_front (length m - MAX_SNAPSHOTS) m\<rparr>)"

text \<open>
  \<open>create_snapshot\<close>: what was done at once and reported with \<open>True\<close>, or the snapshot a
  detached thread will pass to \<open>create_snapshot_internal\<close> and report later.
\<close>

definition create_snapshot ::
    "('s, 'b) snapshot_api \<Rightarrow> 's \<Rightarrow> 's sm_state \<Rightarrow> 's sm_state \<times> bool option \<times> 's option" where
  "create_snapshot A s sm =
     (if \<not> async_snapshot sm
      then (create_snapshot_internal A (snapshot_copy A s) sm, Some True, None)
      else (sm, None, Some (snapshot_copy A s)))"

text \<open>One object of a snapshot: the data (if any) and whether it is the last.\<close>

definition read_logical_snp_obj ::
    "'b ser \<Rightarrow> ('s, 'b) snapshot_api \<Rightarrow> 's \<Rightarrow> u64 \<Rightarrow> 's sm_state \<Rightarrow> ('b option \<times> bool) result" where
  "read_logical_snp_obj S A s obj_id sm =
     (case om_find (snapshots sm) (get_last_log_idx A s) of
        None \<Rightarrow> Inr (None, True)
      | Some ctx \<Rightarrow>
          if obj_id = 0
          then map_sum id (\<lambda>b. (Some b, False)) (overflow_result (put S (I32 0) (alloc S 4)))
          else map_sum id (\<lambda>b. (Some b, True))
                 (overflow_result (put S (Str (ctx_value ctx)) (alloc S 8))))"

definition save_logical_snp_obj ::
    "'b ser \<Rightarrow> ('s, 'b) snapshot_api \<Rightarrow> 's \<Rightarrow> u64 \<Rightarrow> 'b \<Rightarrow> 's sm_state \<Rightarrow> (u64 \<times> 's sm_state) result" where
  "save_logical_snp_obj S A s obj_id data sm =
     (if obj_id = 0
      then Inr (obj_id + 1, create_snapshot_internal A (snapshot_copy A s) sm)
      else case get_str S (rewind S data) of
             None \<Rightarrow> Inl OverflowError
           | Some (local_value, _) \<Rightarrow>
               (case om_find (snapshots sm) (get_last_log_idx A s) of
                  None \<Rightarrow> Inl AssertFailure
                | Some ctx \<Rightarrow>
                    Inr (obj_id + 1,
                      sm\<lparr>snapshots := om_assign (get_last_log_idx A s)
                           (ctx\<lparr>ctx_value := local_value\<rparr>) (snapshots sm)\<rparr>)))"

definition apply_snapshot :: "('s, 'b) snapshot_api \<Rightarrow> 's \<Rightarrow> 's sm_state \<Rightarrow> bool \<times> 's sm_state" where
  "apply_snapshot A s sm =
     (case om_find (snapshots sm) (get_last_log_idx A s) of
        None \<Rightarrow> (False, sm)
      | Some ctx \<Rightarrow> (True, sm\<lparr>cur_value := Some (ctx_value ctx)\<rparr>))"

definition last_snapshot :: "'s sm_state \<Rightarrow> 's option" where
  "last_snapshot sm =
     (case rev (snapshots sm) of [] \<Rightarrow> None | e # _ \<Rightarrow> Some (ctx_snapshot (snd e)))"

section \<open>What a committed write does to the file system\<close>

lemma temp_path_suffix: "temp_path mapped r = mapped @ (''_'' @ to_string (int r) @ ''.tmp'')"
  by (simp add: temp_path_def)

lemma temp_suffix_no_sep: "sep \<notin> set (''_'' @ to_string (int r) @ ''.tmp'')"
proof -
  have "sep \<notin> set (digits_of r)"
    using digits_of_digits [of sep r] by (auto simp: is_digit_def sep_def)
  then show ?thesis by (simp add: to_string_def sep_def)
qed

lemma temp_path_props:
  "parent_path (temp_path mapped r) = parent_path mapped"
  "last (temp_path mapped r) \<noteq> sep"
  "length mapped < length (temp_path mapped r)"
  "temp_path mapped r \<noteq> mapped"
  using parent_path_suffix [OF temp_suffix_no_sep] by (auto simp: temp_path_suffix sep_def)

lemma mapped_path_absolute: "is_absolute (cwd conf) \<Longrightarrow> is_absolute (mapped_path conf p)"
  by (simp add: mapped_path_def concatenatePath_is_absolute)

lemma mapped_path_single: "single_seps (mapped_path conf p)"
  by (simp add: mapped_path_def concatenatePath_def generic_string_single)

lemma mapped_path_last: "p \<noteq> [] \<Longrightarrow> last (mapped_path conf p) = last p"
  by (auto simp: mapped_path_def concatenatePath_def fs_absolute_def path_append_def
      generic_string_last)

text \<open>Directories stay directories, and nothing but the temporary file can disappear.\<close>

lemma write_file_other: "q \<noteq> p \<Longrightarrow> om_find (write_file p c fs) q = om_find fs q"
  by (simp add: write_file_def find_assign)

lemma rename_file_other:
  "q \<noteq> source \<Longrightarrow> q \<noteq> target \<Longrightarrow> om_find (snd (rename_file source target fs)) q = om_find fs q"
  by (simp add: rename_file_def find_assign find_erase split: option.split fnode.split)

lemma rename_file_target:
  assumes "target \<noteq> source"
  shows "om_find (snd (rename_file source target fs)) target = om_find fs target \<or>
    (om_find fs target \<noteq> Some Directory \<and>
     (\<exists>c. om_find (snd (rename_file source target fs)) target = Some (Regular c)))"
  using assms by (auto simp: rename_file_def find_assign find_erase split: option.split fnode.split)

lemma commit_write_keeps:
  assumes "commit_write mapped r c fs = Some fs'" and "om_find fs q = Some x"
    and "q \<noteq> temp_path mapped r"
  shows "if q = mapped \<and> x \<noteq> Directory then \<exists>c'. om_find fs' q = Some (Regular c')
    else om_find fs' q = Some x"
proof -
  let ?t = "temp_path mapped r"
  obtain fs1 where fs1: "create_directories (parent_path mapped) fs = Some fs1"
    and fs': "fs' = snd (rename_file ?t mapped (write_file ?t c fs1))"
    using assms(1) by (auto simp: commit_write_def Let_def split: option.splits)
  have q1: "om_find (write_file ?t c fs1) q = Some x"
    using make_dirs_keeps fs1 assms(2,3) by (simp add: create_directories_def write_file_other)
  show ?thesis
  proof (cases "q = mapped")
    case True
    with q1 rename_file_target [of mapped ?t "write_file ?t c fs1"] temp_path_props(4) [of mapped r]
    show ?thesis by (cases x) (auto simp: fs')
  next
    case False
    with q1 assms(3) show ?thesis by (simp add: fs' rename_file_other)
  qed
qed

lemma commit_write_exists:
  assumes "commit_write mapped r c fs = Some fs'" and "fs_exists fs q"
    and "q \<noteq> temp_path mapped r"
  shows "fs_exists fs' q"
proof (cases "q = [sep]")
  case True
  then show ?thesis by (simp add: fs_exists_def lookup_path_def)
next
  case False
  show ?thesis
  proof (cases "q \<noteq> [] \<and> last q = sep")
    case True
    with False assms(2) have "om_find fs (butlast q) = Some Directory"
      by (auto simp: fs_exists_def lookup_path_def split: if_splits)
    moreover have "om_find fs' (butlast q) = Some Directory"
    proof (cases "butlast q = temp_path mapped r")
      case True
      then show ?thesis
      proof -
        let ?t = "temp_path mapped r"
        obtain fs1 where fs1: "create_directories (parent_path mapped) fs = Some fs1"
          and fs': "fs' = snd (rename_file ?t mapped (write_file ?t c fs1))"
          using assms(1) by (auto simp: commit_write_def Let_def split: option.splits)
        have "om_find fs1 ?t = Some Directory"
          using make_dirs_keeps fs1 True calculation by (simp add: create_directories_def)
        then have "write_file ?t c fs1 = fs1" by (simp add: write_file_def)
        with \<open>om_find fs1 ?t = Some Directory\<close> fs' True show ?thesis
          by (simp add: rename_file_def)
      qed
    next
      case False
      with commit_write_keeps [OF assms(1) \<open>om_find fs (butlast q) = _\<close>] show ?thesis by auto
    qed
    ultimately show ?thesis using True False by (simp add: fs_exists_def lookup_path_def)
  next
    case noslash: False
    with False assms(2) obtain x where "om_find fs q = Some x"
      by (auto simp: fs_exists_def lookup_path_def split: if_splits)
    with commit_write_keeps [OF assms(1) this assms(3)] noslash False show ?thesis
      by (auto simp: fs_exists_def lookup_path_def split: if_splits)
  qed
qed

text \<open>When nothing is in the way, the write succeeds and changes one file.\<close>

definition write_ready :: "fs \<Rightarrow> string \<Rightarrow> nat \<Rightarrow> bool" where
  "write_ready fs mapped r \<longleftrightarrow>
     is_absolute mapped \<and> single_seps mapped \<and> last mapped \<noteq> sep \<and>
     create_directories (parent_path mapped) fs \<noteq> None \<and>
     om_find fs mapped \<noteq> Some Directory \<and> om_find fs (temp_path mapped r) \<noteq> Some Directory"

lemma commit_write_ready:
  assumes "write_ready fs mapped r"
  obtains fs1 fs' where "create_directories (parent_path mapped) fs = Some fs1"
    and "commit_write mapped r c fs = Some fs'"
    and "om_find fs' = (om_find fs1)(temp_path mapped r := None, mapped \<mapsto> Regular c)"
proof -
  let ?t = "temp_path mapped r"
  obtain fs1 where fs1: "create_directories (parent_path mapped) fs = Some fs1"
    using assms by (auto simp: write_ready_def)
  have m: "is_absolute mapped" "single_seps mapped" "last mapped \<noteq> sep" "mapped \<noteq> [sep]"
    using assms by (auto simp: write_ready_def)
  have long: "?t \<noteq> [sep]" using temp_path_props(2) [of mapped r] by auto
  have parent: "lookup_path fs1 (parent_path mapped) = Some Directory"
    using lookup_after_create [OF fs1 m(1,2)] .
  have t1: "om_find fs1 ?t \<noteq> Some Directory"
    using create_directories_longer [OF fs1 m(1,2) _ long] assms temp_path_props(3) [of mapped r]
    by (simp add: write_ready_def)
  have m1: "om_find fs1 mapped \<noteq> Some Directory"
    using create_directories_longer [OF fs1 m(1,2) _ m(4)] assms by (simp add: write_ready_def)
  define fs2 where "fs2 = om_assign ?t (Regular c) fs1"
  have w: "write_file ?t c fs1 = fs2"
    using parent t1 temp_path_props by (simp add: write_file_def fs2_def)
  have "lookup_path fs2 (parent_path mapped) = Some Directory"
  proof (cases "parent_path mapped = [sep]")
    case False
    then have "length (parent_path mapped) < length ?t"
      using parent_path_shape(2) [OF m(1,2)] temp_path_props(3) [of mapped r] by simp
    with parent parent_path_shape(1) [OF m(1,2)] False show ?thesis
      by (auto simp: lookup_path_def fs2_def find_assign)
  qed (simp add: lookup_path_def)
  moreover have "om_find fs2 mapped \<noteq> Some Directory"
    using m1 temp_path_props(4) [of mapped r] by (auto simp: fs2_def find_assign)
  ultimately have "rename_file ?t mapped fs2 = (True, om_assign mapped (Regular c) (om_erase ?t fs2))"
    using m(3) by (simp add: rename_file_def) (simp add: fs2_def find_assign)
  then have "commit_write mapped r c fs = Some (om_assign mapped (Regular c) (om_erase ?t fs2))"
    by (simp add: commit_write_def fs1 w)
  moreover have "om_find (om_assign mapped (Regular c) (om_erase ?t fs2)) =
      (om_find fs1)(?t := None, mapped \<mapsto> Regular c)"
    by (simp add: find_assign find_erase fs2_def)
  ultimately show thesis using fs1 that by blast
qed

end
