(* ===== verification/Utility.thy ===== *)
theory Utility
  imports StdMap Paths
begin

text \<open>
  \<^verbatim>\<open>src/utility.cc\<close> and the configuration part of \<^verbatim>\<open>include/utility.h\<close>: socket addresses,
  the interactive prompt's tokenizer, the execution modes, and the checks on the consensus
  options. \<^verbatim>\<open>boost::split\<close> and \<^verbatim>\<open>boost::lexical_cast\<close> are arguments of the definitions
  that call them.
\<close>

section \<open>Leases\<close>

text \<open>Milliseconds.\<close>

definition DEFAULT_LEASE_DURATION :: int where "DEFAULT_LEASE_DURATION = 12000"
definition DEFAULT_LEASE_EXTENSION :: int where "DEFAULT_LEASE_EXTENSION = 15000"
definition JEAPARDY_DURATION :: int where "JEAPARDY_DURATION = 45000"

section \<open>Splitting strings\<close>

text \<open>\<open>tokenize\<close> walks a NUL-terminated string; the end of the list stands for the NUL.\<close>

function tokenize :: "string \<Rightarrow> char \<Rightarrow> string list" where
  "tokenize str c =
     (let tok = takeWhile (\<lambda>x. x \<noteq> c) str;
          rest = dropWhile (\<lambda>x. x \<noteq> c) str
      in (if tok \<noteq> [] then [tok] else []) @
         (case rest of [] \<Rightarrow> [] | x # rest' \<Rightarrow> tokenize rest' c))"
  by pat_completeness auto
termination
proof (relation "measure (\<lambda>(str, c). length str)", simp, goal_cases)
  case (1 str c tok rest x rest')
  then have "length (dropWhile (\<lambda>x. x \<noteq> c) str) = Suc (length rest')" by (metis length_Cons)
  then show ?case using length_dropWhile_le [of "\<lambda>x. x \<noteq> c" str] by simp
qed

declare tokenize.simps [simp del]

text \<open>All the pieces between separators, empty ones included: the reference for both splitters.\<close>

fun split_on :: "char \<Rightarrow> string \<Rightarrow> string list" where
  "split_on c [] = [[]]"
| "split_on c (x # xs) =
     (if x = c then [] # split_on c xs
      else (x # hd (split_on c xs)) # tl (split_on c xs))"

fun join_with :: "char \<Rightarrow> string list \<Rightarrow> string" where
  "join_with c [] = []"
| "join_with c [t] = t"
| "join_with c (t # ts) = t @ c # join_with c ts"

lemma split_on_nonempty: "split_on c s \<noteq> []"
  by (induction s) auto

lemma split_on_decomp:
  "split_on c s =
     takeWhile (\<lambda>x. x \<noteq> c) s #
       (case dropWhile (\<lambda>x. x \<noteq> c) s of [] \<Rightarrow> [] | x # r \<Rightarrow> split_on c r)"
  by (induction s) (auto split: list.splits)

lemma tokenize_split: "tokenize s c = filter (\<lambda>t. t \<noteq> []) (split_on c s)"
proof (induction s c rule: tokenize.induct)
  case (1 s c)
  show ?case
  proof (cases "dropWhile (\<lambda>x. x \<noteq> c) s")
    case Nil
    then show ?thesis
      by (subst tokenize.simps, subst split_on_decomp) (simp del: dropWhile_eq_Nil_conv)
  next
    case (Cons x r)
    with 1 have "tokenize r c = filter (\<lambda>t. t \<noteq> []) (split_on c r)" by simp
    with Cons show ?thesis by (subst tokenize.simps, subst split_on_decomp) simp
  qed
qed

lemma join_split: "join_with c (split_on c s) = s"
proof (induction s)
  case Nil
  show ?case by simp
next
  case (Cons x s)
  obtain t ts where "split_on c s = t # ts" using split_on_nonempty by (cases "split_on c s") auto
  with Cons show ?case by (cases ts) auto
qed

lemma split_on_sep_free: "t \<in> set (split_on c s) \<Longrightarrow> c \<notin> set t"
proof (induction s arbitrary: t)
  case (Cons x s)
  obtain u us where "split_on c s = u # us" using split_on_nonempty by (cases "split_on c s") auto
  with Cons show ?case by (auto split: if_splits)
qed simp

lemma split_on_plain: "c \<notin> set s \<Longrightarrow> split_on c s = [s]"
  by (induction s) auto

lemma split_on_append:
  "c \<notin> set s \<Longrightarrow> split_on c (s @ c # r) = s # split_on c r"
  by (induction s) auto

section \<open>Addresses\<close>

record Address =
  address :: string
  port :: u16

definition toString :: "Address \<Rightarrow> string" where
  "toString a = address a @ '':'' @ to_string (uint (port a))"

definition make_address ::
    "(string \<Rightarrow> string list) \<Rightarrow> (string \<Rightarrow> u16 option) \<Rightarrow> string \<Rightarrow> Address result" where
  "make_address split lexical_cast address_and_port =
     (let tokens = split address_and_port
      in if length tokens \<noteq> 2 then Inl ValidationError
         else case lexical_cast (tokens ! 1) of
                None \<Rightarrow> Inl BadLexicalCast
              | Some p \<Rightarrow> Inr \<lparr>address = tokens ! 0, port = p\<rparr>)"

text \<open>
  What the two boost calls are documented to do on the strings the program gives them:
  \<^verbatim>\<open>split(..., is_any_of(":"))\<close> returns the pieces between colons, and
  \<^verbatim>\<open>lexical_cast<unsigned short>\<close> reads a decimal numeral in range.
\<close>

definition boost_split_law :: "(string \<Rightarrow> string list) \<Rightarrow> bool" where
  "boost_split_law split \<longleftrightarrow> (\<forall>s. split s = split_on (CHR '':'') s)"

definition boost_cast_law :: "(string \<Rightarrow> u16 option) \<Rightarrow> bool" where
  "boost_cast_law lexical_cast \<longleftrightarrow> (\<forall>n < 65536. lexical_cast (digits_of n) = Some (of_nat n))"

lemma colon_not_in_digits: "CHR '':'' \<notin> set (digits_of n)"
  using digits_of_digits [of "CHR '':''" n] by (auto simp: is_digit_def)

lemma make_address_toString:
  assumes "boost_split_law split" and "boost_cast_law lexical_cast"
    and "CHR '':'' \<notin> set (address a)"
  shows "make_address split lexical_cast (toString a) = Inr a"
proof -
  have str: "toString a = address a @ CHR '':'' # digits_of (unat (port a))"
    by (simp add: toString_def to_string_def)
  have "unat (port a) < 65536" using unsigned_less [of "port a"] by simp
  then have "lexical_cast (digits_of (unat (port a))) = Some (port a)"
    using assms(2) by (simp add: boost_cast_law_def)
  moreover have "split (toString a) = [address a, digits_of (unat (port a))]"
    using assms(1,3)
    by (simp add: boost_split_law_def str split_on_append split_on_plain colon_not_in_digits)
  ultimately show ?thesis by (simp add: make_address_def)
qed

section \<open>Modes and options\<close>

datatype Mode = EMPTY | APP | TEST | BENCHMARK | CONSENSUS | INTERACTIVE

definition mode_value :: "Mode \<Rightarrow> int" where
  "mode_value m = (case m of EMPTY \<Rightarrow> 0 | APP \<Rightarrow> 5 | TEST \<Rightarrow> 1 | BENCHMARK \<Rightarrow> 2 | CONSENSUS \<Rightarrow> 3
     | INTERACTIVE \<Rightarrow> 4)"

text \<open>\<^verbatim>\<open>operator>>\<close>: \<open>None\<close> is the stream's fail bit.\<close>

definition read_mode :: "string \<Rightarrow> Mode option" where
  "read_mode token =
     (if token = ''0'' then Some EMPTY
      else if token = ''5'' then Some APP
      else if token = ''1'' then Some TEST
      else if token = ''2'' then Some BENCHMARK
      else if token = ''3'' then Some CONSENSUS
      else if token = ''4'' then Some INTERACTIVE
      else None)"

lemma read_mode_value: "read_mode (to_string (mode_value m)) = Some m"
  by (cases m; hypsubst; code_simp)

text \<open>
  \<^verbatim>\<open>remove_command_argument\<close>: erases the first \<^verbatim>\<open>-m\<close>/\<^verbatim>\<open>--mode\<close> and the word after it;
  erasing past the end of the vector, when the flag is the last word, is undefined.
  \<open>args\<close> includes the program name, which the scan skips.
\<close>

fun erase_mode :: "string list \<Rightarrow> (bool \<times> string list) result" where
  "erase_mode [] = Inr (False, [])"
| "erase_mode (a # as) =
     (if a = ''-m'' \<or> a = ''--mode'' then
        (case as of [] \<Rightarrow> Inl UndefinedBehaviour | _ # as' \<Rightarrow> Inr (True, as'))
      else case erase_mode as of Inl e \<Rightarrow> Inl e | Inr (b, as') \<Rightarrow> Inr (b, a # as'))"

definition remove_command_argument ::
    "bool \<Rightarrow> int \<Rightarrow> string list \<Rightarrow> string list \<Rightarrow> (int \<times> string list) result" where
  "remove_command_argument has_mode argc argv args =
     (if \<not> has_mode then Inr (argc, argv)
      else case args of
             [] \<Rightarrow> Inr (argc, [])
           | prog # rest \<Rightarrow>
               (case erase_mode rest of
                  Inl e \<Rightarrow> Inl e
                | Inr (erased, rest') \<Rightarrow>
                    Inr (if erased then argc - 2 else argc, prog # rest')))"

text \<open>\<^verbatim>\<open>atoi\<close>: white space, a sign, then as many digits as there are (0 for none).\<close>

definition is_space :: "char \<Rightarrow> bool" where
  "is_space c \<longleftrightarrow> c = CHR '' '' \<or> (9 \<le> (of_char c :: nat) \<and> (of_char c :: nat) \<le> 13)"

definition atoi :: "string \<Rightarrow> int" where
  "atoi s =
     (case dropWhile is_space s of
        [] \<Rightarrow> 0
      | c # cs \<Rightarrow>
          if c = CHR ''-'' then - int (parse_digits (takeWhile is_digit cs))
          else if c = CHR ''+'' then int (parse_digits (takeWhile is_digit cs))
          else int (parse_digits (takeWhile is_digit (c # cs))))"

lemma atoi_digits_of: "atoi (digits_of n) = int n"
proof -
  obtain c cs where c: "digits_of n = c # cs" using digits_of_nonempty by (cases "digits_of n") auto
  have "is_digit c" using digits_of_digits [of c n] c by simp
  then have "\<not> is_space c" "c \<noteq> CHR ''-''" "c \<noteq> CHR ''+''"
    by (auto simp: is_digit_def is_space_def)
  moreover have "takeWhile is_digit (c # cs) = c # cs"
    using digits_of_digits [of _ n] c by (simp add: takeWhile_eq_all_conv)
  ultimately show ?thesis using parse_digits_of [of n] c by (simp add: atoi_def)
qed

text \<open>
  The consensus options after parsing: the server id, and the endpoint cut at its last
  colon. \<open>None\<close> is the process ending with \<^verbatim>\<open>exit(1)\<close>.
\<close>

record consensus_config =
  serverId :: int
  consensus_address :: string
  consensus_port :: int

definition rfind :: "char \<Rightarrow> string \<Rightarrow> (string \<times> string) option" where
  "rfind c s =
     (if c \<in> set s
      then Some (rev (tl (dropWhile (\<lambda>x. x \<noteq> c) (rev s))), rev (takeWhile (\<lambda>x. x \<noteq> c) (rev s)))
      else None)"

definition parse_consensus :: "int \<Rightarrow> string \<Rightarrow> consensus_config option" where
  "parse_consensus sid endpoint =
     (if sid < 1 then None
      else case rfind (CHR '':'') endpoint of
             None \<Rightarrow> None
           | Some (addr, rest) \<Rightarrow>
               (let p = atoi rest
                in if p < 1000 then None
                   else Some \<lparr>serverId = sid, consensus_address = addr, consensus_port = p\<rparr>))"

lemma rfind_append: "c \<notin> set r \<Longrightarrow> rfind c (a @ c # r) = Some (a, r)"
  by (auto simp: rfind_def takeWhile_append dropWhile_append)

lemma parse_consensus_port: "parse_consensus sid e = Some c \<Longrightarrow> 1 \<le> serverId c \<and> 1000 \<le> consensus_port c"
  by (auto simp: parse_consensus_def Let_def split: if_splits option.splits prod.splits)

end
