(* ===== verification/Consensus.thy ===== *)
theory Consensus
  imports StateMachine Utility
begin

text \<open>
  \<^verbatim>\<open>src/consensus/consensus.cc\<close>: handing a command to Raft, waiting for the Raft server to
  come up, and the two administrative calls. NuRaft itself is not in the repository: what
  \<^verbatim>\<open>append_entries\<close> answered is an argument, and a committed entry is passed to the state
  machine's \<^verbatim>\<open>commit\<close>, as NuRaft documents for the blocking return method.
\<close>

section \<open>Parameters of the Raft server\<close>

datatype call_type = blocking | async_handler

record raft_params =
  thread_pool_size :: nat
  heart_beat_interval :: nat
  election_timeout_lower_bound :: nat
  election_timeout_upper_bound :: nat
  reserved_log_items :: nat
  snapshot_distance :: nat
  client_req_timeout :: nat
  return_method :: call_type

definition init_raft_params :: "call_type \<Rightarrow> raft_params" where
  "init_raft_params CALL_TYPE =
     \<lparr>thread_pool_size = 4, heart_beat_interval = 100,
      election_timeout_lower_bound = 200, election_timeout_upper_bound = 400,
      reserved_log_items = 5, snapshot_distance = 5, client_req_timeout = 3000,
      return_method = CALL_TYPE\<rparr>"

definition MAX_TRY :: nat where
  "MAX_TRY = 100"

text \<open>
  The wait of \<^verbatim>\<open>init_raft\<close>: poll up to \<open>tries\<close> times, 250 ms apart. \<open>polls\<close> is what
  \<^verbatim>\<open>is_initialized\<close> answers at each poll; the result is whether the server came up and
  the milliseconds slept; without success the process exits.
\<close>

fun wait_initialized :: "nat \<Rightarrow> (nat \<Rightarrow> bool) \<Rightarrow> nat \<Rightarrow> bool \<times> nat" where
  "wait_initialized 0 polls slept = (False, slept)"
| "wait_initialized (Suc tries) polls slept =
     (if polls 0 then (True, slept)
      else wait_initialized tries (\<lambda>i. polls (Suc i)) (slept + 250))"

lemma wait_initialized_never:
  "(\<And>i. i < tries \<Longrightarrow> \<not> polls i) \<Longrightarrow> wait_initialized tries polls slept = (False, slept + 250 * tries)"
proof (induction tries arbitrary: polls slept)
  case (Suc tries)
  from Suc.prems [of 0] Suc.IH [of "\<lambda>i. polls (Suc i)" "slept + 250"] Suc.prems
  show ?case by simp
qed simp

lemma wait_initialized_first:
  "i < tries \<Longrightarrow> polls i \<Longrightarrow> (\<And>j. j < i \<Longrightarrow> \<not> polls j) \<Longrightarrow>
    wait_initialized tries polls slept = (True, slept + 250 * i)"
proof (induction tries arbitrary: i polls slept)
  case (Suc tries)
  show ?case
  proof (cases i)
    case 0
    with Suc.prems show ?thesis by simp
  next
    case (Suc j)
    with Suc.prems(1,2) Suc.prems(3) [of 0]
      Suc.IH [of j "\<lambda>i. polls (Suc i)" "slept + 250"] Suc.prems(3) [of "Suc _"]
    show ?thesis by auto
  qed
qed simp

section \<open>Appending a command\<close>

text \<open>
  What became of an appended entry: not accepted (this node is not the leader), accepted
  but not committed in time, committed with its log index, or, with the asynchronous return
  method, not known yet.
\<close>

datatype raft_outcome = Rejected | Not_committed | Committed u64 | Pending

text \<open>
  \<^verbatim>\<open>append_log\<close> returns nothing: its caller cannot tell the outcomes apart. An exception
  in \<^verbatim>\<open>commit\<close> leaves NuRaft's commit thread and ends the process.
\<close>

definition append_log ::
    "'b ser \<Rightarrow> config \<Rightarrow> raft_outcome \<Rightarrow> nat \<Rightarrow> op_type \<Rightarrow> string \<Rightarrow> string \<Rightarrow>
     's sm_state \<Rightarrow> fs \<Rightarrow> unit result \<times> 's sm_state \<times> fs" where
  "append_log S conf outcome random OP path contents sm fs =
     (case enc_log S \<lparr>op_kind = OP, op_path = path, op_content = contents\<rparr> of
        Inl e \<Rightarrow> (Inl e, sm, fs)
      | Inr new_log \<Rightarrow>
          (case outcome of
             Committed log_idx \<Rightarrow>
               (case commit S conf random log_idx new_log sm fs of
                  (Inl _, sm', fs') \<Rightarrow> (Inl Terminate, sm', fs')
                | (Inr _, sm', fs') \<Rightarrow> (Inr (), sm', fs'))
           | _ \<Rightarrow> (Inr (), sm, fs)))"

section \<open>Administration\<close>

datatype add_server_outcome =
    Too_few_arguments
  | Wrong_server_id int
  | Add_srv int string

definition add_server :: "int \<Rightarrow> string list \<Rightarrow> add_server_outcome" where
  "add_server own_id tokens =
     (case tokens of
        id_str # endpoint # _ \<Rightarrow>
          (let i = atoi id_str
           in if i = 0 \<or> i = own_id then Wrong_server_id i else Add_srv i endpoint)
      | _ \<Rightarrow> Too_few_arguments)"

text \<open>The log range \<^verbatim>\<open>print_status\<close> shows; \<open>None\<close> is \<^verbatim>\<open>(empty)\<close>.\<close>

definition log_range :: "u64 \<Rightarrow> u64 \<Rightarrow> (u64 \<times> u64) option" where
  "log_range start_index next_slot =
     (if start_index \<ge> next_slot then None else Some (start_index, next_slot - 1))"

section \<open>What an appended write does\<close>

lemma append_log_overflow:
  assumes "ser_law S room written pending"
    and "\<not> payload_fits \<lparr>op_kind = OP, op_path = path, op_content = contents\<rparr>"
  shows "append_log S conf outcome random OP path contents sm fs = (Inl OverflowError, sm, fs)"
  using enc_log_overflow [OF assms] by (simp add: append_log_def)

lemma append_log_uncommitted:
  assumes "ser_law S room written pending"
    and "payload_fits \<lparr>op_kind = OP, op_path = path, op_content = contents\<rparr>"
    and "\<And>i. outcome \<noteq> Committed i"
  shows "append_log S conf outcome random OP path contents sm fs = (Inr (), sm, fs)"
proof -
  obtain b where "enc_log S \<lparr>op_kind = OP, op_path = path, op_content = contents\<rparr> = Inr b"
    using enc_log_written [OF assms(1,2)] by metis
  with assms(3) show ?thesis by (cases outcome) (auto simp: append_log_def)
qed

lemma commit_written:
  assumes law: "ser_law S room written pending"
    and "written data = [I32 (op_code WRITE), Str p, Str c]"
    and "commit_write (mapped_path conf p) random c fs = Some fs'"
  obtains b where "commit S conf random log_idx data sm fs =
    (Inr b, sm\<lparr>cur_value := Some p, last_committed_idx := log_idx\<rparr>, fs')"
proof -
  have "dec_log S data = Inr \<lparr>op_kind = WRITE, op_path = p, op_content = c\<rparr>"
    using dec_log_written [OF law assms(2)] by (simp add: op_of_code_def)
  moreover obtain b where "put S (U64 log_idx) (alloc S 8) = Some b"
    using ser_put_Some [OF law, of "U64 log_idx" "alloc S 8"] ser_alloc [OF law] by auto
  ultimately show thesis
    using that assms(3) by (simp add: commit_def overflow_result_def)
qed

lemma append_log_committed:
  assumes law: "ser_law S room written pending"
    and fits: "payload_fits \<lparr>op_kind = WRITE, op_path = p, op_content = c\<rparr>"
    and w: "commit_write (mapped_path conf p) random c fs = Some fs'"
  shows "append_log S conf (Committed log_idx) random WRITE p c sm fs =
    (Inr (), sm\<lparr>cur_value := Some p, last_committed_idx := log_idx\<rparr>, fs')"
proof -
  let ?p = "\<lparr>op_kind = WRITE, op_path = p, op_content = c\<rparr>"
  obtain b where b: "enc_log S ?p = Inr b" "written b = [I32 (op_code WRITE), Str p, Str c]"
    using enc_log_written [OF law fits] by auto
  from commit_written [OF law b(2) w] obtain r where
    "commit S conf random log_idx b sm fs =
      (Inr r, sm\<lparr>cur_value := Some p, last_committed_idx := log_idx\<rparr>, fs')" .
  with b(1) show ?thesis by (simp add: append_log_def)
qed

end
