(* ===== verification/LockServer.thy ===== *)
theory LockServer
  imports Consensus
begin

text \<open>
  The lock service of \<^verbatim>\<open>src/app.cc\<close>, namespace \<^verbatim>\<open>app::server\<close>, with the structures of
  \<^verbatim>\<open>include/struct.h\<close>. A lock is shared between the server's table and the sessions that
  opened or acquired it (\<^verbatim>\<open>std::shared_ptr<Lock>\<close>), and the handlers change it through
  either, so locks live in an explicit store \<open>lock_heap\<close>, addressed by position, and the
  tables hold addresses. No code stores a null pointer in them. A session is reached
  through \<^verbatim>\<open>info::sessions\<close> only, whose entries are never replaced or erased, so it is
  kept there by value.
\<close>

section \<open>State\<close>

datatype LockStatus = EXCLUSIVE | SHARED | FREE

datatype StatusCode = OK | CANCELLED | UNKNOWN | ABORTED | DEADLINE_EXCEEDED | UNAVAILABLE

type_synonym Status = "StatusCode \<times> string"

definition status_OK :: Status where "status_OK = (OK, [])"
definition status_CANCELLED :: Status where "status_CANCELLED = (CANCELLED, [])"

abbreviation ok :: "Status \<Rightarrow> bool" where
  "ok st \<equiv> fst st = OK"

record Lock =
  lock_path :: string
  status :: LockStatus
  owners :: "(string, bool) omap"
  content :: string

text \<open>
  The channel \<^verbatim>\<open>block_reply\<close> is a third-party queue (\<^verbatim>\<open>msd::channel<int>\<close>): \<open>ch_push\<close> is
  \<^verbatim>\<open>in >> channel\<close>, \<open>ch_pop\<close> is \<^verbatim>\<open>out << channel\<close>, which blocks (\<open>None\<close>) when the
  channel is empty. \<open>chan_law\<close> is what it documents, by the number of queued values.
\<close>

record 'ch chan_api =
  ch_new :: "'ch"
  ch_push :: "int \<Rightarrow> 'ch \<Rightarrow> 'ch"
  ch_pop :: "'ch \<Rightarrow> (int \<times> 'ch) option"

definition chan_law :: "'ch chan_api \<Rightarrow> ('ch \<Rightarrow> int list) \<Rightarrow> bool" where
  "chan_law C queued \<longleftrightarrow>
     queued (ch_new C) = [] \<and>
     (\<forall>x c. queued (ch_push C x c) = queued c @ [x]) \<and>
     (\<forall>c. queued c = [] \<longrightarrow> ch_pop C c = None) \<and>
     (\<forall>c x r. queued c = x # r \<longrightarrow> (\<exists>c'. ch_pop C c = Some (x, c') \<and> queued c' = r))"

definition list_chan :: "int list chan_api" where
  "list_chan = \<lparr>ch_new = [], ch_push = (\<lambda>x c. c @ [x]),
     ch_pop = (\<lambda>c. case c of [] \<Rightarrow> None | x # r \<Rightarrow> Some (x, r))\<rparr>"

lemma list_chan_law: "chan_law list_chan id"
  by (simp add: chan_law_def list_chan_def)

text \<open>Times are nanoseconds of the system clock, lease lengths milliseconds.\<close>

record 'ch Session =
  client_id :: string
  start_time :: int
  lease_length :: int
  block_reply :: 'ch
  session_locks :: "(string, nat) omap"
  terminated :: bool

text \<open>
  A node: configuration, file system, state machine, \<^verbatim>\<open>info::locks\<close>, \<^verbatim>\<open>info::sessions\<close>,
  the store, and the running \<^verbatim>\<open>maintain_session\<close> threads, each with its session's client
  and whether it has entered its loop.
\<close>

record ('ch, 's) node =
  n_conf :: config
  n_fs :: fs
  n_sm :: "'s sm_state"
  locks :: "(string, nat) omap"
  sessions :: "(string, 'ch Session) omap"
  lock_heap :: "Lock list"
  threads :: "(string \<times> bool) list"

definition init_server_info :: "config \<Rightarrow> fs \<Rightarrow> 's sm_state \<Rightarrow> ('ch, 's) node" where
  "init_server_info conf fs sm =
     \<lparr>n_conf = conf, n_fs = fs, n_sm = sm, locks = [], sessions = [], lock_heap = [], threads = []\<rparr>"

definition upd_session ::
    "string \<Rightarrow> ('ch Session \<Rightarrow> 'ch Session) \<Rightarrow> (string, 'ch Session) omap \<Rightarrow> (string, 'ch Session) omap" where
  "upd_session c f m = (case om_find m c of None \<Rightarrow> m | Some s \<Rightarrow> om_assign c (f s) m)"

section \<open>Files\<close>

definition is_exists :: "string \<Rightarrow> ('ch, 's) node \<Rightarrow> bool" where
  "is_exists path n = fs_exists (n_fs n) (mapped_path (n_conf n) path)"

text \<open>A file that does not open throws a string literal.\<close>

definition read_content :: "string \<Rightarrow> ('ch, 's) node \<Rightarrow> string result" where
  "read_content path n =
     (case read_file (n_fs n) (mapped_path (n_conf n) path) of
        None \<Rightarrow> Inl (CharPtrException ''Failed to open file.'')
      | Some str \<Rightarrow> Inr str)"

section \<open>Locks\<close>

text \<open>
  A new free lock, inserted into \<^verbatim>\<open>info::locks\<close> and the session's locks with
  \<^verbatim>\<open>map::insert\<close>, which leaves an entry that is already there.
\<close>

definition new_lock :: "string \<Rightarrow> string \<Rightarrow> ('ch, 's) node \<Rightarrow> ('ch, 's) node" where
  "new_lock cid file_path n =
     (let a = length (lock_heap n);
          lock = \<lparr>lock_path = file_path, status = FREE, owners = [], content = []\<rparr>
      in n\<lparr>lock_heap := lock_heap n @ [lock],
           locks := om_insert file_path a (locks n),
           sessions := upd_session cid
             (\<lambda>s. s\<lparr>session_locks := om_insert file_path a (session_locks s)\<rparr>) (sessions n)\<rparr>)"

definition no_session :: Status where
  "no_session = (ABORTED, ''Client does not have an existing session.'')"

definition open_lock ::
    "'b ser \<Rightarrow> raft_outcome \<Rightarrow> nat \<Rightarrow> string \<Rightarrow> string \<Rightarrow> ('ch, 's) node \<Rightarrow> Status result \<times> ('ch, 's) node" where
  "open_lock S outcome random cid file_path n =
     (case om_find (sessions n) cid of
        None \<Rightarrow> (Inr no_session, n)
      | Some session \<Rightarrow>
          if is_exists file_path n then (Inr (ABORTED, ''Lock already exists.''), n)
          else (case append_log S (n_conf n) outcome random WRITE file_path [] (n_sm n) (n_fs n) of
                  (Inl e, sm, fs) \<Rightarrow> (Inl e, n\<lparr>n_sm := sm, n_fs := fs\<rparr>)
                | (Inr _, sm, fs) \<Rightarrow>
                    (Inr status_OK, new_lock cid file_path (n\<lparr>n_sm := sm, n_fs := fs\<rparr>))))"

text \<open>
  \<^verbatim>\<open>delete_lock\<close> removes the path as the client wrote it, relative to the process's
  working directory, not the mapped one.
\<close>

definition delete_lock ::
    "string \<Rightarrow> string \<Rightarrow> ('ch, 's) node \<Rightarrow> Status result \<times> ('ch, 's) node" where
  "delete_lock cid file_path n =
     (case om_find (sessions n) cid of
        None \<Rightarrow> (Inr no_session, n)
      | Some session \<Rightarrow>
          (case om_find (session_locks session) file_path of
             None \<Rightarrow> (Inr (ABORTED, ''Client does not hold this lock.''), n)
           | Some a \<Rightarrow>
               if status (lock_heap n ! a) \<noteq> EXCLUSIVE
               then (Inr (ABORTED, ''Client does not hold this lock in exclusive mode.''), n)
               else if is_exists file_path n
               then (Inr (ABORTED, ''file doesn't exists.''), n)
               else (case remove_path (generic_string (fs_absolute (cwd (n_conf n)) file_path)) (n_fs n) of
                       Inl e \<Rightarrow> (Inl e, n)
                     | Inr fs \<Rightarrow>
                         (Inr status_OK,
                          n\<lparr>n_fs := fs,
                            sessions := upd_session cid
                              (\<lambda>s. s\<lparr>session_locks := om_erase file_path (session_locks s)\<rparr>) (sessions n),
                            locks := om_erase file_path (locks n)\<rparr>))))"

text \<open>The lock under a path, created when it is not in memory.\<close>

definition load_lock :: "string \<Rightarrow> string \<Rightarrow> ('ch, 's) node \<Rightarrow> nat \<times> ('ch, 's) node" where
  "load_lock cid file_path n =
     (case om_find (locks n) file_path of
        Some a \<Rightarrow> (a, n)
      | None \<Rightarrow> (length (lock_heap n), new_lock cid file_path n))"

text \<open>
  Recording a grant: the client among the owners, the lock in the session's locks, and, when
  the lock was free, its new mode and the entry of \<^verbatim>\<open>info::locks\<close>.
\<close>

definition grant_lock ::
    "string \<Rightarrow> string \<Rightarrow> nat \<Rightarrow> LockStatus \<Rightarrow> ('ch, 's) node \<Rightarrow> ('ch, 's) node" where
  "grant_lock cid file_path a st n =
     n\<lparr>lock_heap := (lock_heap n)
          [a := (lock_heap n ! a)\<lparr>owners := om_assign cid True (owners (lock_heap n ! a)), status := st\<rparr>],
       sessions := upd_session cid
          (\<lambda>s. s\<lparr>session_locks := om_assign file_path a (session_locks s)\<rparr>) (sessions n)\<rparr>"

definition claim_lock ::
    "string \<Rightarrow> string \<Rightarrow> LockStatus \<Rightarrow> nat \<Rightarrow> ('ch, 's) node \<Rightarrow> Status \<times> ('ch, 's) node" where
  "claim_lock cid file_path mode a n =
     (case status (lock_heap n ! a) of
        EXCLUSIVE \<Rightarrow> ((ABORTED, ''Someone already holds the lock in exclusive mode''), n)
      | SHARED \<Rightarrow>
          if mode = SHARED then (status_OK, grant_lock cid file_path a SHARED n)
          else ((ABORTED, ''Someone already holds the lock, can't claim exclusively.''), n)
      | FREE \<Rightarrow>
          (let n' = grant_lock cid file_path a mode n
           in (status_OK, n'\<lparr>locks := om_assign file_path a (locks n')\<rparr>)))"

definition acquire_lock ::
    "string \<Rightarrow> string \<Rightarrow> LockStatus \<Rightarrow> ('ch, 's) node \<Rightarrow> Status \<times> ('ch, 's) node" where
  "acquire_lock cid file_path mode n =
     (case om_find (sessions n) cid of
        None \<Rightarrow> (no_session, n)
      | Some session \<Rightarrow>
          if mode \<noteq> EXCLUSIVE \<and> mode \<noteq> SHARED
          then ((ABORTED, ''Can't request a lock in free mode.''), n)
          else if \<not> is_exists file_path n then ((ABORTED, ''file doesn't exists.''), n)
          else (let (a, n') = load_lock cid file_path n in claim_lock cid file_path mode a n'))"

text \<open>
  Releasing: the last line writes through \<^verbatim>\<open>info::locks->find(file_path)\<close>, which is
  undefined when the path is not in the table.
\<close>

definition drop_owner :: "string \<Rightarrow> Lock \<Rightarrow> Lock" where
  "drop_owner cid l =
     (let owners' = om_erase cid (owners l)
      in if status l = EXCLUSIVE then l\<lparr>owners := owners', status := FREE\<rparr>
         else l\<lparr>owners := owners', status := (if length owners' = 0 then FREE else status l)\<rparr>)"

definition release_lock ::
    "string \<Rightarrow> string \<Rightarrow> ('ch, 's) node \<Rightarrow> Status result \<times> ('ch, 's) node" where
  "release_lock cid file_path n =
     (case om_find (sessions n) cid of
        None \<Rightarrow> (Inr no_session, n)
      | Some session \<Rightarrow>
          if \<not> is_exists file_path n then (Inr (ABORTED, ''Lock already exists.''), n)
          else (case om_find (session_locks session) file_path of
                  None \<Rightarrow> (Inr (ABORTED, ''Lock was not found among this session's locks.''), n)
                | Some a \<Rightarrow>
                    if om_find (owners (lock_heap n ! a)) cid \<noteq> Some True
                    then (Inr (ABORTED, ''You were not recorded as an owner of this lock.''), n)
                    else (let n' = n\<lparr>lock_heap := (lock_heap n)[a := drop_owner cid (lock_heap n ! a)],
                                     sessions := upd_session cid
                                       (\<lambda>s. s\<lparr>session_locks := om_erase file_path (session_locks s)\<rparr>)
                                       (sessions n)\<rparr>
                          in if om_find (locks n') file_path = None then (Inl UndefinedBehaviour, n')
                             else (Inr status_OK,
                                   n'\<lparr>locks := om_assign file_path a (locks n')\<rparr>))))"

section \<open>Reading and writing\<close>

text \<open>
  \<^verbatim>\<open>read\<close> fills the reply before it checks the lock; its handler catches
  \<^verbatim>\<open>std::exception\<close> only, so the string thrown by \<^verbatim>\<open>read_content\<close> leaves it.
\<close>

definition server_read :: "string \<Rightarrow> string \<Rightarrow> ('ch, 's) node \<Rightarrow> (Status \<times> string) result" where
  "server_read cid file_path n =
     (case om_find (sessions n) cid of
        None \<Rightarrow> Inr (no_session, [])
      | Some session \<Rightarrow>
          (case read_content file_path n of
             Inl e \<Rightarrow> Inl e
           | Inr str \<Rightarrow>
               (case om_find (session_locks session) file_path of
                  None \<Rightarrow> Inr ((ABORTED, ''Lock was not found among this session's locks.''), str)
                | Some a \<Rightarrow>
                    if om_find (owners (lock_heap n ! a)) cid \<noteq> Some True
                    then Inr ((ABORTED, ''You were not recorded as an owner of this lock.''), str)
                    else Inr (status_OK, str))))"

definition server_write ::
    "'b ser \<Rightarrow> raft_outcome \<Rightarrow> nat \<Rightarrow> string \<Rightarrow> string \<Rightarrow> string \<Rightarrow> ('ch, 's) node \<Rightarrow>
     Status result \<times> ('ch, 's) node" where
  "server_write S outcome random cid file_path contents n =
     (case om_find (sessions n) cid of
        None \<Rightarrow> (Inr no_session, n)
      | Some session \<Rightarrow>
          if \<not> is_exists file_path n then (Inr (ABORTED, ''Lock already exists.''), n)
          else (case om_find (session_locks session) file_path of
                  None \<Rightarrow> (Inr (ABORTED, ''Lock was not found among this session's locks.''), n)
                | Some a \<Rightarrow>
                    if om_find (owners (lock_heap n ! a)) cid \<noteq> Some True
                    then (Inr (ABORTED, ''You were not recorded as an owner of this lock.''), n)
                    else (case append_log S (n_conf n) outcome random WRITE file_path contents
                                 (n_sm n) (n_fs n) of
                            (Inl e, sm, fs) \<Rightarrow> (Inl e, n\<lparr>n_sm := sm, n_fs := fs\<rparr>)
                          | (Inr _, sm, fs) \<Rightarrow> (Inr status_OK, n\<lparr>n_sm := sm, n_fs := fs\<rparr>))))"

end
