(* ===== verification/Sessions.thy ===== *)
theory Sessions
  imports LockServer
begin

text \<open>
  Session handling of \<^verbatim>\<open>src/app.cc\<close>: opening and closing sessions, the thread that watches
  a session's lease, keep-alive replies and the re-establishment of a session after a
  master change. A handler or an iteration of a thread is one step; \<^verbatim>\<open>now()\<close> is an
  argument, twice where the code calls it twice.
\<close>

section \<open>Opening a session\<close>

text \<open>
  \<^verbatim>\<open>info::sessions->insert\<close> keeps the entry of a client that already had a session; the
  new thread watches whatever entry is there.
\<close>

definition create_session ::
    "'ch chan_api \<Rightarrow> int \<Rightarrow> string \<Rightarrow> ('ch, 's) node \<Rightarrow> Status \<times> ('ch, 's) node" where
  "create_session C now cid n =
     (let session = \<lparr>client_id = cid, start_time = now, lease_length = DEFAULT_LEASE_EXTENSION,
                     block_reply = ch_new C, session_locks = [], terminated = False\<rparr>;
          start = n\<lparr>sessions := om_insert cid session (sessions n), threads := threads n @ [(cid, False)]\<rparr>
      in case om_find (sessions n) cid of
           Some s \<Rightarrow>
             if \<not> terminated s then ((ABORTED, ''Client has an existing session.''), n)
             else (status_OK, start)
         | None \<Rightarrow> (status_OK, start))"

section \<open>Ending a session\<close>

definition lock_count :: "string \<Rightarrow> ('ch, 's) node \<Rightarrow> nat" where
  "lock_count cid n =
     (case om_find (sessions n) cid of None \<Rightarrow> 0 | Some s \<Rightarrow> length (session_locks s))"

lemma find_upd_session:
  "om_find (upd_session c f m) = (om_find m)(c := map_option f (om_find m c))"
  by (auto simp: upd_session_def find_assign fun_eq_iff split: option.split)

lemma release_lock_shrinks:
  assumes "release_lock cid file_path n = (Inr st, n')" and "ok st"
  shows "lock_count cid n' < lock_count cid n"
proof -
  obtain session a where "om_find (sessions n) cid = Some session"
    and a: "om_find (session_locks session) file_path = Some a"
    and n': "sessions n' = upd_session cid
      (\<lambda>s. s\<lparr>session_locks := om_erase file_path (session_locks s)\<rparr>) (sessions n)"
    using assms by (auto simp: release_lock_def no_session_def Let_def split: option.splits if_splits)
  with length_erase_less [OF a] show ?thesis
    by (simp add: lock_count_def find_upd_session)
qed

text \<open>
  The loop over the session's locks: release the first until none is left, and give up at
  the first that cannot be released.
\<close>

function end_loop :: "string \<Rightarrow> ('ch, 's) node \<Rightarrow> unit result \<times> ('ch, 's) node" where
  "end_loop cid n =
     (case om_find (sessions n) cid of
        None \<Rightarrow> (Inr (), n)
      | Some session \<Rightarrow>
          (case session_locks session of
             [] \<Rightarrow> (Inr (), n)
           | e # _ \<Rightarrow>
               (case release_lock cid (fst e) n of
                  (Inl err, n') \<Rightarrow> (Inl err, n')
                | (Inr st, n') \<Rightarrow> if \<not> ok st then (Inr (), n') else end_loop cid n')))"
  by pat_completeness auto
termination
  by (relation "measure (\<lambda>(cid, n). lock_count cid n)") (auto dest!: release_lock_shrinks [OF sym])

declare end_loop.simps [simp del]

definition end_session :: "string \<Rightarrow> ('ch, 's) node \<Rightarrow> unit result \<times> ('ch, 's) node" where
  "end_session cid n =
     end_loop cid (n\<lparr>sessions := upd_session cid (\<lambda>s. s\<lparr>terminated := True\<rparr>) (sessions n)\<rparr>)"

definition close_session :: "string \<Rightarrow> ('ch, 's) node \<Rightarrow> Status result \<times> ('ch, 's) node" where
  "close_session cid n =
     (case om_find (sessions n) cid of
        None \<Rightarrow> (Inr (ABORTED, ''Client has an existing session.''), n)
      | Some session \<Rightarrow>
          if terminated session then (Inr (ABORTED, ''Client has an existing session.''), n)
          else (case end_session cid n of
                  (Inl e, n') \<Rightarrow> (Inl e, n')
                | (Inr _, n') \<Rightarrow> (Inr status_OK, n')))"

section \<open>The thread of a session\<close>

definition ns_of_ms :: "int \<Rightarrow> int" where
  "ns_of_ms ms = ms * 1000000"

definition lease_expires :: "'ch Session \<Rightarrow> int" where
  "lease_expires s = start_time s + ns_of_ms (lease_length s)"

definition time_until_expire :: "int \<Rightarrow> int \<Rightarrow> 'ch Session \<Rightarrow> int" where
  "time_until_expire now1 now2 s = (if lease_expires s > now1 then lease_expires s - now2 else 0)"

definition push_reply :: "'ch chan_api \<Rightarrow> string \<Rightarrow> ('ch, 's) node \<Rightarrow> ('ch, 's) node" where
  "push_reply C cid n =
     n\<lparr>sessions := upd_session cid (\<lambda>s. s\<lparr>block_reply := ch_push C 1 (block_reply s)\<rparr>) (sessions n)\<rparr>"

text \<open>One iteration of the loop; the result says whether the thread returned.\<close>

definition maintain_iteration ::
    "'ch chan_api \<Rightarrow> int \<Rightarrow> int \<Rightarrow> string \<Rightarrow> ('ch, 's) node \<Rightarrow> bool result \<times> ('ch, 's) node" where
  "maintain_iteration C now1 now2 cid n =
     (case om_find (sessions n) cid of
        None \<Rightarrow> (Inr True, n)
      | Some session \<Rightarrow>
          (let t = time_until_expire now1 now2 session
           in if t = 0 then
                (case end_session cid n of
                   (Inl e, n') \<Rightarrow> (Inl e, n')
                 | (Inr _, n') \<Rightarrow> (Inr True, push_reply C cid n'))
              else if t \<le> ns_of_ms 1000 then (Inr False, push_reply C cid n)
              else (Inr False, n)))"

text \<open>
  A step of the \<open>i\<close>-th thread: its first push, so that the first keep-alive is not
  blocked, or an iteration.
\<close>

definition maintain_session ::
    "'ch chan_api \<Rightarrow> nat \<Rightarrow> int \<Rightarrow> int \<Rightarrow> ('ch, 's) node \<Rightarrow> unit result \<times> ('ch, 's) node" where
  "maintain_session C i now1 now2 n =
     (if i < length (threads n) then
        (let (cid, started) = threads n ! i
         in if \<not> started
            then (Inr (), (push_reply C cid n)\<lparr>threads := (threads n)[i := (cid, True)]\<rparr>)
            else (case maintain_iteration C now1 now2 cid n of
                    (Inl e, n') \<Rightarrow> (Inl e, n')
                  | (Inr True, n') \<Rightarrow>
                      (Inr (), n'\<lparr>threads := take i (threads n') @ drop (Suc i) (threads n')\<rparr>)
                  | (Inr False, n') \<Rightarrow> (Inr (), n')))
      else (Inr (), n))"

section \<open>Keep-alives\<close>

text \<open>\<open>None\<close>: the call is blocked on the channel.\<close>

definition attempt_extend_session ::
    "'ch chan_api \<Rightarrow> string \<Rightarrow> ('ch, 's) node \<Rightarrow> int option \<times> ('ch, 's) node" where
  "attempt_extend_session C cid n =
     (case om_find (sessions n) cid of
        None \<Rightarrow> (Some (- 1), n)
      | Some session \<Rightarrow>
          (case ch_pop C (block_reply session) of
             None \<Rightarrow> (None, n)
           | Some (_, ch) \<Rightarrow>
               (let s = session\<lparr>block_reply := ch\<rparr>;
                    s' = (if \<not> terminated s
                          then s\<lparr>lease_length := lease_length s + DEFAULT_LEASE_EXTENSION\<rparr> else s)
                in (Some (lease_length s'), n\<lparr>sessions := upd_session cid (\<lambda>_. s') (sessions n)\<rparr>))))"

text \<open>
  The locks a client claims to own, in the order the request lists them. After a failed
  acquisition the session is ended but the loop goes on.
\<close>

fun reacquire_locks ::
    "string \<Rightarrow> (string \<times> LockStatus) list \<Rightarrow> ('ch, 's) node \<Rightarrow> unit result \<times> ('ch, 's) node" where
  "reacquire_locks cid [] n = (Inr (), n)"
| "reacquire_locks cid ((file_path, mode) # rest) n =
     (case acquire_lock cid file_path mode n of
        (st, n') \<Rightarrow>
          if \<not> ok st then
            (case end_session cid n' of
               (Inl e, n'') \<Rightarrow> (Inl e, n'')
             | (Inr _, n'') \<Rightarrow> reacquire_locks cid rest n'')
          else reacquire_locks cid rest n')"

definition handle_jeopardy ::
    "'ch chan_api \<Rightarrow> int \<Rightarrow> string \<Rightarrow> (string \<times> LockStatus) list \<Rightarrow> ('ch, 's) node \<Rightarrow>
     int option result \<times> ('ch, 's) node" where
  "handle_jeopardy C now cid claimed n =
     (case create_session C now cid n of
        (st, n') \<Rightarrow>
          if \<not> ok st then (Inr (Some (- 1)), n')
          else (case reacquire_locks cid claimed n' of
                  (Inl e, n'') \<Rightarrow> (Inl e, n'')
                | (Inr _, n'') \<Rightarrow>
                    (case attempt_extend_session C cid n'' of (r, n3) \<Rightarrow> (Inr r, n3))))"

end
