(* ===== verification/LockInvariant.thy ===== *)
theory LockInvariant
  imports Sessions
begin

text \<open>
  The invariant of the lock tables and its preservation. \<open>node_inv\<close> says that the tables
  point to locks of the right path and that a lock's mode agrees with its owners; every
  operation keeps it. \<open>recorded\<close> says that an owned lock is the one \<^verbatim>\<open>info::locks\<close> has
  under its path and that its owners' sessions point to it; every operation keeps that too,
  except a \<^verbatim>\<open>delete_lock\<close> that goes through.
\<close>

section \<open>Views of a node\<close>

text \<open>The lock a client's session has under a path.\<close>

definition slocks :: "string \<Rightarrow> string \<Rightarrow> ('ch, 's) node \<Rightarrow> nat option" where
  "slocks c p n = (case om_find (sessions n) c of None \<Rightarrow> None | Some s \<Rightarrow> om_find (session_locks s) p)"

text \<open>What \<^verbatim>\<open>read\<close>, \<^verbatim>\<open>write\<close> and \<^verbatim>\<open>release_lock\<close> check.\<close>

definition holds :: "string \<Rightarrow> string \<Rightarrow> ('ch, 's) node \<Rightarrow> bool" where
  "holds c p n \<longleftrightarrow>
     (case slocks c p n of None \<Rightarrow> False | Some a \<Rightarrow> om_find (owners (lock_heap n ! a)) c = Some True)"

definition holds_exclusively :: "string \<Rightarrow> string \<Rightarrow> ('ch, 's) node \<Rightarrow> bool" where
  "holds_exclusively c p n \<longleftrightarrow>
     (case slocks c p n of None \<Rightarrow> False
      | Some a \<Rightarrow> om_find (owners (lock_heap n ! a)) c = Some True
                  \<and> status (lock_heap n ! a) = EXCLUSIVE)"

section \<open>The invariant\<close>

definition lock_ok :: "Lock \<Rightarrow> bool" where
  "lock_ok l \<longleftrightarrow> om_wf (owners l) \<and> (\<forall>e \<in> set (owners l). snd e) \<and>
     (case status l of FREE \<Rightarrow> owners l = [] | EXCLUSIVE \<Rightarrow> length (owners l) = 1
      | SHARED \<Rightarrow> owners l \<noteq> [])"

definition points :: "('ch, 's) node \<Rightarrow> string \<Rightarrow> nat \<Rightarrow> bool" where
  "points n p a \<longleftrightarrow> a < length (lock_heap n) \<and> lock_path (lock_heap n ! a) = p"

definition node_inv :: "('ch, 's) node \<Rightarrow> bool" where
  "node_inv n \<longleftrightarrow>
     om_wf (locks n) \<and> om_wf (sessions n) \<and>
     (\<forall>c s. om_find (sessions n) c = Some s \<longrightarrow> client_id s = c \<and> om_wf (session_locks s)) \<and>
     (\<forall>p a. om_find (locks n) p = Some a \<longrightarrow> points n p a) \<and>
     (\<forall>c p a. slocks c p n = Some a \<longrightarrow> points n p a) \<and>
     (\<forall>a < length (lock_heap n). lock_ok (lock_heap n ! a))"

definition recorded :: "('ch, 's) node \<Rightarrow> bool" where
  "recorded n \<longleftrightarrow>
     (\<forall>a < length (lock_heap n). \<forall>c. om_find (owners (lock_heap n ! a)) c \<noteq> None \<longrightarrow>
        om_find (locks n) (lock_path (lock_heap n ! a)) = Some a \<and>
        slocks c (lock_path (lock_heap n ! a)) n = Some a)"

definition strong_inv :: "('ch, 's) node \<Rightarrow> bool" where
  "strong_inv n \<longleftrightarrow> node_inv n \<and> recorded n"

text \<open>What it says of the tables entry by entry.\<close>

lemma find_entry: "om_wf m \<Longrightarrow> (k, v) \<in> set m \<Longrightarrow> om_find m k = Some v"
  by (simp add: om_wf_distinct)

lemma node_inv_typed:
  assumes "node_inv n"
  shows "case n of n \<Rightarrow>
     om_wf (locks n) \<and> om_wf (sessions n) \<and> list_all (\<lambda>(p, a). points n p a) (locks n) \<and>
     list_all (\<lambda>(c, s). client_id s = c \<and> om_wf (session_locks s) \<and>
       list_all (\<lambda>(p, a). points n p a) (session_locks s)) (sessions n) \<and>
     list_all (\<lambda>l. om_wf (owners l)) (lock_heap n)"
proof -
  have wf: "om_wf (locks n)" "om_wf (sessions n)" using assms by (simp_all add: node_inv_def)
  have session: "client_id s = c \<and> om_wf (session_locks s) \<and> list_all (\<lambda>(p, a). points n p a) (session_locks s)"
    if "(c, s) \<in> set (sessions n)" for c s
  proof -
    have s: "om_find (sessions n) c = Some s" using find_entry [OF wf(2) that] .
    then have k: "client_id s = c" "om_wf (session_locks s)" using assms by (simp_all add: node_inv_def)
    have "points n p a" if "(p, a) \<in> set (session_locks s)" for p a
    proof -
      have "slocks c p n = Some a" using s find_entry [OF k(2) that] by (simp add: slocks_def)
      then show ?thesis using assms by (simp add: node_inv_def)
    qed
    with k show ?thesis by (auto simp: list_all_iff)
  qed
  have "points n p a" if "(p, a) \<in> set (locks n)" for p a
    using find_entry [OF wf(1) that] assms by (simp add: node_inv_def)
  moreover have "om_wf (owners l)" if "l \<in> set (lock_heap n)" for l
    using that assms unfolding node_inv_def lock_ok_def in_set_conv_nth by blast
  ultimately show ?thesis using wf session by (fastforce simp: list_all_iff)
qed

lemma lock_ok_owner: "lock_ok l \<Longrightarrow> om_find (owners l) c \<noteq> None \<longleftrightarrow> om_find (owners l) c = Some True"
  unfolding lock_ok_def by (force dest: map_of_SomeD)

lemma lock_ok_exclusive:
  "lock_ok l \<Longrightarrow> status l = EXCLUSIVE \<Longrightarrow> om_find (owners l) c \<noteq> None \<Longrightarrow> om_find (owners l) d \<noteq> None \<Longrightarrow> c = d"
  by (cases "owners l") (auto simp: lock_ok_def split: if_splits)

lemma lock_ok_free: "lock_ok l \<Longrightarrow> status l = FREE \<longleftrightarrow> owners l = []"
  by (auto simp: lock_ok_def split: LockStatus.splits)

section \<open>Views after an update\<close>

lemma slocks_upd_session:
  "slocks c p (n\<lparr>sessions := upd_session d f (sessions n)\<rparr>) =
     (if c = d then case om_find (sessions n) d of None \<Rightarrow> None | Some s \<Rightarrow> om_find (session_locks (f s)) p
      else slocks c p n)"
  by (simp add: slocks_def find_upd_session split: option.split)

lemma slocks_frame [simp]:
  "slocks c p (n\<lparr>n_fs := fs\<rparr>) = slocks c p n"
  "slocks c p (n\<lparr>n_sm := sm\<rparr>) = slocks c p n"
  "slocks c p (n\<lparr>threads := ts\<rparr>) = slocks c p n"
  "slocks c p (n\<lparr>locks := ls\<rparr>) = slocks c p n"
  "slocks c p (n\<lparr>lock_heap := h\<rparr>) = slocks c p n"
  by (simp_all add: slocks_def)

lemma points_frame [simp]:
  "points (n\<lparr>n_fs := fs\<rparr>) = points n"
  "points (n\<lparr>n_sm := sm\<rparr>) = points n"
  "points (n\<lparr>threads := ts\<rparr>) = points n"
  "points (n\<lparr>locks := ls\<rparr>) = points n"
  "points (n\<lparr>sessions := ss\<rparr>) = points n"
  by (simp_all add: points_def fun_eq_iff)

lemma inv_frame [simp]:
  "node_inv (n\<lparr>n_fs := fs\<rparr>) = node_inv n" "recorded (n\<lparr>n_fs := fs\<rparr>) = recorded n"
  "node_inv (n\<lparr>n_sm := sm\<rparr>) = node_inv n" "recorded (n\<lparr>n_sm := sm\<rparr>) = recorded n"
  "node_inv (n\<lparr>threads := ts\<rparr>) = node_inv n" "recorded (n\<lparr>threads := ts\<rparr>) = recorded n"
  by (simp_all add: node_inv_def recorded_def)

lemma upd_session_wf: "om_wf m \<Longrightarrow> om_wf (upd_session c f m)"
  by (simp add: upd_session_def om_wf_assign split: option.split)

text \<open>Changing a session elsewhere than in its locks.\<close>

lemma session_update_inv:
  assumes "\<And>s. om_find (sessions n) c = Some s \<Longrightarrow>
      session_locks (f s) = session_locks s \<and> client_id (f s) = client_id s"
  shows "node_inv n \<Longrightarrow> node_inv (n\<lparr>sessions := upd_session c f (sessions n)\<rparr>)"
    and "recorded n \<Longrightarrow> recorded (n\<lparr>sessions := upd_session c f (sessions n)\<rparr>)"
proof -
  have s: "slocks d p (n\<lparr>sessions := upd_session c f (sessions n)\<rparr>) = slocks d p n" for d p
    using assms by (auto simp: slocks_def find_upd_session map_option_case split: option.splits)
  show "node_inv n \<Longrightarrow> node_inv (n\<lparr>sessions := upd_session c f (sessions n)\<rparr>)"
    using assms
    by (simp add: node_inv_def s upd_session_wf find_upd_session) (auto simp: map_option_case split: option.splits)
  show "recorded n \<Longrightarrow> recorded (n\<lparr>sessions := upd_session c f (sessions n)\<rparr>)"
    by (simp add: recorded_def s)
qed

section \<open>Creating a lock\<close>

lemma new_lock_simps:
  "lock_heap (new_lock c p n) = lock_heap n @ [\<lparr>lock_path = p, status = FREE, owners = [], content = []\<rparr>]"
  "locks (new_lock c p n) = om_insert p (length (lock_heap n)) (locks n)"
  "n_fs (new_lock c p n) = n_fs n" "n_sm (new_lock c p n) = n_sm n"
  "n_conf (new_lock c p n) = n_conf n" "threads (new_lock c p n) = threads n"
  by (simp_all add: new_lock_def Let_def)

lemma find_sessions_new_lock:
  "om_find (sessions (new_lock c p n)) d =
     (if d = c then map_option (\<lambda>s. s\<lparr>session_locks := om_insert p (length (lock_heap n)) (session_locks s)\<rparr>)
        (om_find (sessions n) c) else om_find (sessions n) d)"
  by (simp add: new_lock_def Let_def find_upd_session)

lemma slocks_new_lock:
  "slocks d q (new_lock c p n) =
     (if d = c \<and> q = p \<and> slocks c p n = None \<and> om_find (sessions n) c \<noteq> None
      then Some (length (lock_heap n)) else slocks d q n)"
  by (auto simp: slocks_def find_sessions_new_lock find_insert split: option.split)

lemma new_lock_points:
  "points n q a \<Longrightarrow> points (new_lock c p n) q a"
  "points (new_lock c p n) p (length (lock_heap n))"
  by (auto simp: points_def new_lock_simps nth_append)

lemma new_lock_node_inv: "node_inv n \<Longrightarrow> node_inv (new_lock c p n)"
proof -
  assume inv: "node_inv n"
  have ok: "lock_ok (lock_heap (new_lock c p n) ! a)" if "a < length (lock_heap (new_lock c p n))" for a
    using that inv by (auto simp: node_inv_def new_lock_simps nth_append lock_ok_def)
  have wf: "om_wf (sessions (new_lock c p n))"
    using inv by (simp add: node_inv_def new_lock_def Let_def upd_session_wf)
  show ?thesis
    using inv ok wf
    unfolding node_inv_def
    by (auto simp: slocks_new_lock find_sessions_new_lock find_insert om_wf_insert new_lock_simps
        intro: new_lock_points split: if_splits)
qed

lemma new_lock_recorded:
  assumes "recorded n"
  shows "recorded (new_lock c p n)"
  unfolding recorded_def
proof (intro allI impI)
  fix a d
  assume "a < length (lock_heap (new_lock c p n))"
    and "om_find (owners (lock_heap (new_lock c p n) ! a)) d \<noteq> None"
  then have a: "a < length (lock_heap n)" "lock_heap (new_lock c p n) ! a = lock_heap n ! a"
    "om_find (owners (lock_heap n ! a)) d \<noteq> None"
    by (auto simp: new_lock_simps nth_append less_Suc_eq split: if_splits)
  with assms have "om_find (locks n) (lock_path (lock_heap n ! a)) = Some a"
    "slocks d (lock_path (lock_heap n ! a)) n = Some a"
    by (simp_all add: recorded_def)
  then show "om_find (locks (new_lock c p n)) (lock_path (lock_heap (new_lock c p n) ! a)) = Some a \<and>
    slocks d (lock_path (lock_heap (new_lock c p n) ! a)) (new_lock c p n) = Some a"
    unfolding a(2) by (auto simp: new_lock_simps(2) find_insert slocks_new_lock)
qed

section \<open>Granting a lock\<close>

lemma grant_lock_simps:
  "locks (grant_lock c p a st n) = locks n" "n_fs (grant_lock c p a st n) = n_fs n"
  "n_sm (grant_lock c p a st n) = n_sm n" "n_conf (grant_lock c p a st n) = n_conf n"
  "threads (grant_lock c p a st n) = threads n"
  "length (lock_heap (grant_lock c p a st n)) = length (lock_heap n)"
  by (simp_all add: grant_lock_def)

lemma grant_lock_heap:
  "a < length (lock_heap n) \<Longrightarrow> lock_heap (grant_lock c p a st n) ! b =
     (if b = a then (lock_heap n ! a)\<lparr>owners := om_assign c True (owners (lock_heap n ! a)), status := st\<rparr>
      else lock_heap n ! b)"
  by (simp add: grant_lock_def nth_list_update)

lemma find_sessions_grant_lock:
  "om_find (sessions (grant_lock c p a st n)) d =
     (if d = c then map_option (\<lambda>s. s\<lparr>session_locks := om_assign p a (session_locks s)\<rparr>)
        (om_find (sessions n) c) else om_find (sessions n) d)"
  by (simp add: grant_lock_def find_upd_session)

lemma slocks_grant_lock:
  "om_find (sessions n) c \<noteq> None \<Longrightarrow>
    slocks d q (grant_lock c p a st n) = (if d = c \<and> q = p then Some a else slocks d q n)"
  by (auto simp: slocks_def find_sessions_grant_lock find_assign split: option.split)

lemma grant_lock_points:
  "a < length (lock_heap n) \<Longrightarrow> points (grant_lock c p a st n) q b = points n q b"
  by (simp add: points_def grant_lock_simps grant_lock_heap)

text \<open>A lock may be granted when it is free, or shared and asked for in shared mode.\<close>

definition grantable :: "LockStatus \<Rightarrow> Lock \<Rightarrow> bool" where
  "grantable mode l \<longleftrightarrow> mode \<noteq> FREE \<and> (status l = FREE \<or> status l = SHARED \<and> mode = SHARED)"

lemma lock_ok_grant:
  assumes "lock_ok l" and "grantable mode l"
  shows "lock_ok (l\<lparr>owners := om_assign c True (owners l), status := mode\<rparr>)"
proof -
  have vals: "snd e" if "e \<in> set (om_assign c True (owners l))" for e
  proof -
    have "set (om_assign c True m) \<subseteq> insert (c, True) (set m)" for m :: "(string, bool) omap"
      by (induction m) auto
    then have "e = (c, True) \<or> e \<in> set (owners l)" using that by blast
    with assms(1) show ?thesis by (auto simp: lock_ok_def)
  qed
  moreover have "om_assign c True (owners l) \<noteq> []" by (cases "owners l") auto
  moreover have "mode = EXCLUSIVE \<Longrightarrow> om_assign c True (owners l) = [(c, True)]"
    using assms by (auto simp: grantable_def lock_ok_free)
  ultimately show ?thesis
    using assms by (cases mode) (auto simp: lock_ok_def grantable_def om_wf_assign om_wf_def [of "[_]"])
qed

lemma grant_lock_node_inv:
  assumes inv: "node_inv n" and s: "om_find (sessions n) c \<noteq> None"
    and a: "points n p a" and g: "grantable mode (lock_heap n ! a)"
  shows "node_inv (grant_lock c p a mode n)"
proof -
  have len: "a < length (lock_heap n)" using a by (simp add: points_def)
  have ok: "lock_ok (lock_heap (grant_lock c p a mode n) ! b)" if "b < length (lock_heap n)" for b
    using that inv lock_ok_grant [OF _ g] len by (auto simp: grant_lock_heap node_inv_def)
  have wf: "om_wf (sessions (grant_lock c p a mode n))"
    using inv by (simp add: node_inv_def grant_lock_def upd_session_wf)
  show ?thesis
    using inv ok wf a
    unfolding node_inv_def
    by (auto simp: slocks_grant_lock [OF s] grant_lock_points [OF len] find_sessions_grant_lock
        grant_lock_simps om_wf_assign split: if_splits)
qed

lemma grant_lock_recorded:
  assumes inv: "node_inv n" "recorded n" and s: "om_find (sessions n) c \<noteq> None"
    and a: "om_find (locks n) p = Some a"
  shows "recorded (grant_lock c p a mode n)"
  unfolding recorded_def
proof (intro allI impI)
  fix b d
  assume b: "b < length (lock_heap (grant_lock c p a mode n))"
    and d: "om_find (owners (lock_heap (grant_lock c p a mode n) ! b)) d \<noteq> None"
  have pts: "points n p a" using inv(1) a by (auto simp: node_inv_def)
  then have len: "a < length (lock_heap n)" by (simp add: points_def)
  have path: "lock_path (lock_heap (grant_lock c p a mode n) ! b) = lock_path (lock_heap n ! b)"
    by (simp add: grant_lock_heap [OF len])
  show "om_find (locks (grant_lock c p a mode n)) (lock_path (lock_heap (grant_lock c p a mode n) ! b)) = Some b \<and>
    slocks d (lock_path (lock_heap (grant_lock c p a mode n) ! b)) (grant_lock c p a mode n) = Some b"
  proof (cases "b = a \<and> d = c")
    case True
    with path pts a show ?thesis
      by (simp add: slocks_grant_lock [OF s] grant_lock_simps points_def)
  next
    case False
    with d b have "om_find (owners (lock_heap n ! b)) d \<noteq> None" "b < length (lock_heap n)"
      by (auto simp: grant_lock_heap [OF len] grant_lock_simps find_assign split: if_splits)
    with inv(2) have old: "om_find (locks n) (lock_path (lock_heap n ! b)) = Some b"
      "slocks d (lock_path (lock_heap n ! b)) n = Some b"
      by (auto simp: recorded_def)
    with a show ?thesis by (auto simp: path slocks_grant_lock [OF s] grant_lock_simps)
  qed
qed

lemma locks_assign_same:
  "node_inv n \<Longrightarrow> om_find (locks n) p = Some a \<Longrightarrow> n\<lparr>locks := om_assign p a (locks n)\<rparr> = n"
  by (simp add: node_inv_def om.assign_same)

end
