(* ===== verification/LockOps.thy ===== *)
theory LockOps
  imports LockInvariant
begin

text \<open>
  What each handler does to a node that satisfies the invariant, and that it keeps the
  invariant. The lemmas \<open>*_cases\<close> reduce a handler to the state change it makes, so that the
  later proofs never unfold the handlers.
\<close>

named_theorems keeps_node_inv
named_theorems keeps_recorded

section \<open>Acquiring\<close>

lemma load_lock_props:
  assumes inv: "node_inv n" and l: "load_lock c p n = (a, n1)"
  shows "node_inv n1" and "recorded n \<Longrightarrow> recorded n1"
    and "om_find (locks n1) p = Some a" and "points n1 p a"
    and "om_find (sessions n) d \<noteq> None \<Longrightarrow> om_find (sessions n1) d \<noteq> None"
    and "n_fs n1 = n_fs n" and "n_sm n1 = n_sm n" and "n_conf n1 = n_conf n"
    and "threads n1 = threads n"
proof -
  have n1: "(om_find (locks n) p = Some a \<and> n1 = n) \<or>
      (om_find (locks n) p = None \<and> a = length (lock_heap n) \<and> n1 = new_lock c p n)"
    using l by (auto simp: load_lock_def split: option.splits)
  have pts: "om_find (locks n) p = Some a \<Longrightarrow> points n p a"
    using inv by (simp add: node_inv_def)
  show "node_inv n1" "recorded n \<Longrightarrow> recorded n1"
    using n1 inv by (auto simp: new_lock_node_inv new_lock_recorded)
  show "om_find (locks n1) p = Some a" "points n1 p a"
    using n1 pts by (auto simp: new_lock_points(2) new_lock_simps find_insert)
  show "n_fs n1 = n_fs n" "n_sm n1 = n_sm n" "n_conf n1 = n_conf n" "threads n1 = threads n"
    using n1 by (auto simp: new_lock_simps)
  show "om_find (sessions n) d \<noteq> None \<Longrightarrow> om_find (sessions n1) d \<noteq> None"
    using n1 by (auto simp: find_sessions_new_lock)
qed

lemma acquire_lock_cases:
  assumes inv: "node_inv n" and acq: "acquire_lock c p mode n = (st, n')"
  obtains (refused) "\<not> ok st" "n' = n"
  | (granted) a n1 where "st = status_OK" "om_find (sessions n) c \<noteq> None" "is_exists p n"
      "load_lock c p n = (a, n1)" "grantable mode (lock_heap n1 ! a)"
      "n' = grant_lock c p a mode n1"
proof (cases "om_find (sessions n) c = None \<or> mode = FREE \<or> \<not> is_exists p n")
  case True
  with acq have "\<not> ok st" "n' = n"
    by (cases mode; auto simp: acquire_lock_def no_session_def split: option.splits if_splits)+
  then show ?thesis by (rule refused)
next
  case False
  obtain a n1 where l: "load_lock c p n = (a, n1)" by fastforce
  note props = load_lock_props [OF inv l]
  have s1: "om_find (sessions n1) c \<noteq> None" using False props(5) by simp
  have claim: "claim_lock c p mode a n1 = (st, n')"
    using acq False l by (cases mode; auto simp: acquire_lock_def split: option.splits)
  show ?thesis
  proof (cases "grantable mode (lock_heap n1 ! a)")
    case g: True
    have "node_inv (grant_lock c p a mode n1)"
      using grant_lock_node_inv [OF props(1) s1 props(4) g] .
    then have "(grant_lock c p a mode n1)\<lparr>locks := om_assign p a (locks (grant_lock c p a mode n1))\<rparr>
        = grant_lock c p a mode n1"
      using props(3) by (intro locks_assign_same) (simp_all add: grant_lock_simps)
    with claim g have "st = status_OK" "n' = grant_lock c p a mode n1"
      by (auto simp: claim_lock_def grantable_def Let_def split: LockStatus.splits if_splits)
    with False l g show ?thesis by (intro granted) auto
  next
    case g: False
    then have no: "\<not> ok st" "n' = n1" "status (lock_heap n1 ! a) \<noteq> FREE"
      using claim False
      by (cases mode; auto simp: claim_lock_def grantable_def Let_def split: LockStatus.splits if_splits)+
    have "n1 = n"
      using l no(3) by (auto simp: load_lock_def new_lock_simps split: option.splits)
    with no show ?thesis by (intro refused) simp_all
  qed
qed

lemma acquire_lock_node_inv [keeps_node_inv]:
  assumes inv: "node_inv n" and acq: "acquire_lock c p mode n = (st, n')"
  shows "node_inv n'"
  using inv acq
proof (cases rule: acquire_lock_cases)
  case (granted a n1)
  with load_lock_props [OF inv granted(4)] show ?thesis by (simp add: grant_lock_node_inv)
qed (use inv in simp)

lemma acquire_lock_recorded [keeps_recorded]:
  assumes inv: "node_inv n" "recorded n" and acq: "acquire_lock c p mode n = (st, n')"
  shows "recorded n'"
  using inv(1) acq
proof (cases rule: acquire_lock_cases)
  case (granted a n1)
  with load_lock_props [OF inv(1) granted(4)] inv(2) show ?thesis
    by (simp add: grant_lock_recorded)
qed (use inv in simp)

section \<open>Releasing\<close>

definition released :: "string \<Rightarrow> string \<Rightarrow> nat \<Rightarrow> ('ch, 's) node \<Rightarrow> ('ch, 's) node" where
  "released c p a n =
     n\<lparr>lock_heap := (lock_heap n)[a := drop_owner c (lock_heap n ! a)],
       sessions := upd_session c (\<lambda>s. s\<lparr>session_locks := om_erase p (session_locks s)\<rparr>) (sessions n)\<rparr>"

lemma released_simps:
  "locks (released c p a n) = locks n" "n_fs (released c p a n) = n_fs n"
  "n_sm (released c p a n) = n_sm n" "n_conf (released c p a n) = n_conf n"
  "threads (released c p a n) = threads n"
  "length (lock_heap (released c p a n)) = length (lock_heap n)"
  by (simp_all add: released_def)

lemma released_heap:
  "a < length (lock_heap n) \<Longrightarrow> lock_heap (released c p a n) ! b =
     (if b = a then drop_owner c (lock_heap n ! a) else lock_heap n ! b)"
  by (simp add: released_def nth_list_update)

lemma drop_owner_simps:
  "owners (drop_owner c l) = om_erase c (owners l)" "lock_path (drop_owner c l) = lock_path l"
  by (simp_all add: drop_owner_def Let_def)

lemma find_sessions_released:
  "om_find (sessions (released c p a n)) d =
     (if d = c then map_option (\<lambda>s. s\<lparr>session_locks := om_erase p (session_locks s)\<rparr>)
        (om_find (sessions n) c) else om_find (sessions n) d)"
  by (simp add: released_def find_upd_session)

lemma slocks_released:
  "slocks d q (released c p a n) = (if d = c \<and> q = p then None else slocks d q n)"
  by (auto simp: slocks_def find_sessions_released find_erase split: option.split)

lemma released_points: "points n p a \<Longrightarrow> points (released c p a n) q b = points n q b"
  by (simp add: points_def released_simps released_heap drop_owner_simps)

lemma lock_ok_drop_owner:
  assumes "lock_ok l" and "om_find (owners l) c = Some True"
  shows "lock_ok (drop_owner c l)"
proof -
  have e: "status l = EXCLUSIVE \<Longrightarrow> om_erase c (owners l) = []"
    using assms by (cases "owners l") (auto simp: lock_ok_def om_erase_def split: if_splits)
  have "owners l \<noteq> []" using assms(2) by auto
  with assms e show ?thesis
    by (cases "status l") (auto simp: lock_ok_def drop_owner_def Let_def om_wf_erase om_erase_def om_wf_filter)
qed

lemma release_lock_cases:
  assumes rel: "release_lock c p n = (r, n')"
  obtains (refused) st where "r = Inr st" "\<not> ok st" "n' = n"
  | (released) a where "slocks c p n = Some a" "om_find (owners (lock_heap n ! a)) c = Some True"
      "is_exists p n" "om_find (locks n) p \<noteq> None" "r = Inr status_OK"
      "n' = (released c p a n)\<lparr>locks := om_assign p a (locks n)\<rparr>"
  | (undefined) a where "slocks c p n = Some a" "om_find (owners (lock_heap n ! a)) c = Some True"
      "is_exists p n" "om_find (locks n) p = None" "r = Inl UndefinedBehaviour"
      "n' = released c p a n"
proof (cases "om_find (sessions n) c")
  case None
  with rel show ?thesis by (auto simp: release_lock_def no_session_def intro: refused)
next
  case (Some s)
  show ?thesis
  proof (cases "is_exists p n \<and> holds c p n")
    case False
    with rel Some show ?thesis
      by (auto simp: release_lock_def holds_def slocks_def split: option.splits if_splits intro: refused)
  next
    case True
    with Some obtain a where a: "slocks c p n = Some a" "om_find (session_locks s) p = Some a"
      "om_find (owners (lock_heap n ! a)) c = Some True"
      by (auto simp: holds_def slocks_def split: option.splits)
    with True rel Some show ?thesis
      by (cases "om_find (locks n) p")
        (auto simp: release_lock_def released_def Let_def intro: released undefined)
  qed
qed

lemma released_node_inv:
  assumes inv: "node_inv n" and a: "slocks c p n = Some a"
    and own: "om_find (owners (lock_heap n ! a)) c = Some True"
  shows "node_inv (released c p a n)"
proof -
  have pts: "points n p a" using inv a by (auto simp: node_inv_def)
  then have len: "a < length (lock_heap n)" by (simp add: points_def)
  have ok: "lock_ok (lock_heap (released c p a n) ! b)" if "b < length (lock_heap n)" for b
    using that inv own lock_ok_drop_owner len by (auto simp: released_heap node_inv_def)
  have wf: "om_wf (sessions (released c p a n))"
    using inv by (simp add: node_inv_def released_def upd_session_wf)
  show ?thesis
    using inv ok wf
    unfolding node_inv_def
    by (auto simp: slocks_released released_points [OF pts] find_sessions_released released_simps
        om_wf_erase split: if_splits)
qed

lemma node_inv_locks_assign:
  "node_inv n \<Longrightarrow> points n p a \<Longrightarrow> node_inv (n\<lparr>locks := om_assign p a (locks n)\<rparr>)"
  by (auto simp: node_inv_def om_wf_assign find_assign points_def split: if_splits)

lemma release_lock_node_inv [keeps_node_inv]:
  assumes inv: "node_inv n" and rel: "release_lock c p n = (r, n')"
  shows "node_inv n'"
  using rel
proof (cases rule: release_lock_cases)
  case (released a)
  have pts: "points n p a" using inv released(1) by (auto simp: node_inv_def)
  then have "points (LockOps.released c p a n) p a" by (simp add: released_points)
  moreover have "node_inv (LockOps.released c p a n)"
    using inv released(1,2) by (rule released_node_inv)
  ultimately show ?thesis
    using node_inv_locks_assign released(6) by (metis released_simps(1))
next
  case (undefined a)
  with inv show ?thesis by (simp add: released_node_inv)
qed (use inv in simp)

lemma released_recorded:
  assumes inv: "node_inv n" "recorded n" and a: "slocks c p n = Some a"
  shows "recorded (released c p a n)"
  unfolding recorded_def
proof (intro allI impI)
  fix b d
  assume b: "b < length (lock_heap (released c p a n))"
    and d: "om_find (owners (lock_heap (released c p a n) ! b)) d \<noteq> None"
  have pts: "points n p a" using inv(1) a by (auto simp: node_inv_def)
  then have len: "a < length (lock_heap n)" by (simp add: points_def)
  have path: "lock_path (lock_heap (released c p a n) ! b) = lock_path (lock_heap n ! b)"
    by (simp add: released_heap [OF len] drop_owner_simps)
  have own: "om_find (owners (lock_heap n ! b)) d \<noteq> None" "b = a \<Longrightarrow> d \<noteq> c"
    using d by (auto simp: released_heap [OF len] drop_owner_simps find_erase split: if_splits)
  with inv(2) b have old: "om_find (locks n) (lock_path (lock_heap n ! b)) = Some b"
    "slocks d (lock_path (lock_heap n ! b)) n = Some b"
    by (auto simp: recorded_def released_simps)
  then have "\<not> (d = c \<and> lock_path (lock_heap n ! b) = p)" using a own(2) by auto
  with old show "om_find (locks (released c p a n)) (lock_path (lock_heap (released c p a n) ! b)) = Some b \<and>
    slocks d (lock_path (lock_heap (released c p a n) ! b)) (released c p a n) = Some b"
    by (auto simp: path slocks_released released_simps)
qed

text \<open>With owned locks recorded, a release never meets the undefined case.\<close>

lemma release_lock_strong_cases:
  assumes inv: "node_inv n" "recorded n" and rel: "release_lock c p n = (r, n')"
  obtains (refused) st where "r = Inr st" "\<not> ok st" "n' = n"
  | (released) a where "slocks c p n = Some a" "om_find (owners (lock_heap n ! a)) c = Some True"
      "is_exists p n" "om_find (locks n) p = Some a" "r = Inr status_OK"
      "n' = released c p a n"
  using rel
proof (cases rule: release_lock_cases)
  case (refused st)
  then show ?thesis by (rule that(1))
next
  case (released a)
  have pts: "points n p a" using inv(1) released(1) by (auto simp: node_inv_def)
  then have la: "om_find (locks n) p = Some a"
    using inv(2) released(2) by (auto simp: recorded_def points_def)
  have "om_assign p a (locks n) = locks n"
    using inv(1) la by (simp add: node_inv_def om.assign_same)
  then have "n' = LockOps.released c p a n"
    using released(6) by (simp add: released_def)
  with released la show ?thesis by (intro that(2)) simp_all
next
  case (undefined a)
  then have "points n p a" using inv(1) by (auto simp: node_inv_def)
  with undefined inv(2) have False by (auto simp: recorded_def points_def)
  then show ?thesis ..
qed

lemma release_lock_recorded [keeps_recorded]:
  assumes inv: "node_inv n" "recorded n" and rel: "release_lock c p n = (r, n')"
  shows "recorded n'"
  using inv rel
proof (cases rule: release_lock_strong_cases)
  case (released a)
  with inv show ?thesis by (simp add: released_recorded)
qed (use inv in simp)

end
