(* ===== verification/NodeInvariant.thy ===== *)
theory NodeInvariant
  imports LockOps
begin

text \<open>
  The invariant for every remaining operation of the node, and for every sequence of
  operations. \<open>node_op\<close> names what can happen to a node: the handlers the RPC services
  call, a step of a session's thread, and an entry that NuRaft commits on this node.
\<close>

section \<open>Sessions\<close>

lemma create_session_cases:
  assumes "create_session C now c n = (st, n')"
  obtains (refused) s where "\<not> ok st" "n' = n" "om_find (sessions n) c = Some s" "\<not> terminated s"
  | (kept) s where "st = status_OK" "om_find (sessions n) c = Some s" "terminated s"
      "n' = n\<lparr>threads := threads n @ [(c, False)]\<rparr>"
  | (opened) "st = status_OK" "om_find (sessions n) c = None"
      "n' = n\<lparr>sessions := om_assign c \<lparr>client_id = c, start_time = now,
                 lease_length = DEFAULT_LEASE_EXTENSION, block_reply = ch_new C,
                 session_locks = [], terminated = False\<rparr> (sessions n),
              threads := threads n @ [(c, False)]\<rparr>"
  using assms
  by (cases "om_find (sessions n) c")
    (auto simp: create_session_def Let_def om_insert_def split: if_splits)

lemma new_session_slocks:
  "om_find (sessions n) c = None \<Longrightarrow> session_locks s = [] \<Longrightarrow>
    slocks d p (n\<lparr>sessions := om_assign c s (sessions n)\<rparr>) = slocks d p n"
  by (simp add: slocks_def find_assign)

lemma create_session_node_inv [keeps_node_inv]:
  assumes inv: "node_inv n" and "create_session C now c n = (st, n')"
  shows "node_inv n'"
  using assms(2)
proof (cases rule: create_session_cases)
  case opened
  with inv show ?thesis
    unfolding node_inv_def
    by (simp add: new_session_slocks om_wf_assign find_assign points_def)
qed (use inv in simp_all)

lemma create_session_recorded [keeps_recorded]:
  assumes inv: "recorded n" and "create_session C now c n = (st, n')"
  shows "recorded n'"
  using assms(2)
proof (cases rule: create_session_cases)
  case opened
  with inv show ?thesis unfolding recorded_def by (simp add: new_session_slocks)
qed (use inv in simp_all)

text \<open>Ending a session is a sequence of releases.\<close>

lemma end_loop_keeps:
  "(\<And>p n r n'. P n \<Longrightarrow> release_lock c p n = (r, n') \<Longrightarrow> P n') \<Longrightarrow>
    P n \<Longrightarrow> end_loop c n = (r, n') \<Longrightarrow> P n'"
proof (induction c n arbitrary: r n' rule: end_loop.induct)
  case (1 c n)
  note step = "1.prems"(1)
  show ?case
  proof (cases "om_find (sessions n) c")
    case None
    with "1.prems" show ?thesis by (simp add: end_loop.simps)
  next
    case (Some s)
    show ?thesis
    proof (cases "session_locks s")
      case Nil
      with Some "1.prems" show ?thesis by (simp add: end_loop.simps)
    next
      case (Cons e es)
      obtain q n1 where q: "release_lock c (fst e) n = (q, n1)" by fastforce
      then have P: "P n1" using step "1.prems"(2) by blast
      have "P n'" if "end_loop c n1 = (r, n')" "q = Inr st" "ok st" for st
        using "1.IH" [OF Some Cons q [symmetric] that(2)] that(1,3) P step by blast
      with P "1.prems"(3) Some Cons q show ?thesis
        by (subst (asm) end_loop.simps) (auto split: sum.splits if_splits)
    qed
  qed
qed

lemma mark_terminated_inv:
  "node_inv n \<Longrightarrow> node_inv (n\<lparr>sessions := upd_session c (\<lambda>s. s\<lparr>terminated := True\<rparr>) (sessions n)\<rparr>)"
  "recorded n \<Longrightarrow> recorded (n\<lparr>sessions := upd_session c (\<lambda>s. s\<lparr>terminated := True\<rparr>) (sessions n)\<rparr>)"
  by (simp_all add: session_update_inv)

lemma end_session_node_inv [keeps_node_inv]:
  assumes "node_inv n" and "end_session c n = (r, n')"
  shows "node_inv n'"
  using end_loop_keeps [of node_inv] release_lock_node_inv mark_terminated_inv(1) assms
  unfolding end_session_def by blast

lemma end_session_strong [keeps_recorded]:
  assumes "strong_inv n" and "end_session c n = (r, n')"
  shows "strong_inv n'"
  using end_loop_keeps [of strong_inv] mark_terminated_inv assms release_lock_node_inv
    release_lock_recorded
  unfolding end_session_def strong_inv_def by blast

lemma close_session_keeps:
  assumes "\<And>r n'. end_session c n = (r, n') \<Longrightarrow> P n'" and "P n"
  shows "close_session c n = (r, n') \<Longrightarrow> P n'"
  using assms
  by (auto simp: close_session_def split: option.splits if_splits prod.splits sum.splits)

lemma push_reply_inv:
  "node_inv n \<Longrightarrow> node_inv (push_reply C c n)" "recorded n \<Longrightarrow> recorded (push_reply C c n)"
  by (simp_all add: push_reply_def session_update_inv)

lemma maintain_iteration_keeps:
  assumes "\<And>r n'. end_session c n = (r, n') \<Longrightarrow> P n'" and "P n"
    and "\<And>n. P n \<Longrightarrow> P (push_reply C c n)"
  shows "maintain_iteration C now1 now2 c n = (r, n') \<Longrightarrow> P n'"
  using assms
  by (auto simp: maintain_iteration_def Let_def split: option.splits if_splits prod.splits sum.splits)

lemma maintain_session_keeps:
  assumes end_session: "\<And>c r n'. end_session c n = (r, n') \<Longrightarrow> P n'" and "P n"
    and push: "\<And>c n. P n \<Longrightarrow> P (push_reply C c n)"
    and threads: "\<And>n ts. P n \<Longrightarrow> P (n\<lparr>threads := ts\<rparr>)"
  shows "maintain_session C i now1 now2 n = (r, n') \<Longrightarrow> P n'"
proof -
  assume m: "maintain_session C i now1 now2 n = (r, n')"
  obtain c started where t: "i < length (threads n) \<Longrightarrow> threads n ! i = (c, started)" by fastforce
  obtain q n1 where q: "maintain_iteration C now1 now2 c n = (q, n1)" by fastforce
  have "P n1" using maintain_iteration_keeps [OF end_session assms(2) push q] .
  with m t q assms(2) push threads show ?thesis
    by (auto simp: maintain_session_def split: if_splits sum.splits bool.splits)
qed

lemma attempt_extend_inv:
  assumes "attempt_extend_session C c n = (r, n')"
  shows "node_inv n \<Longrightarrow> node_inv n'" and "recorded n \<Longrightarrow> recorded n'"
proof -
  consider "n' = n"
    | s s' where "om_find (sessions n) c = Some s" "session_locks s' = session_locks s"
      "client_id s' = client_id s" "n' = n\<lparr>sessions := upd_session c (\<lambda>_. s') (sessions n)\<rparr>"
  proof (cases "om_find (sessions n) c")
    case None
    with assms that(1) show ?thesis by (simp add: attempt_extend_session_def)
  next
    case (Some s)
    show ?thesis
    proof (cases "ch_pop C (block_reply s)")
      case None
      with Some assms that(1) show ?thesis by (simp add: attempt_extend_session_def)
    next
      case pop: (Some xb)
      let ?s = "s\<lparr>block_reply := snd xb\<rparr>"
      let ?s' = "if \<not> terminated ?s
        then ?s\<lparr>lease_length := lease_length ?s + DEFAULT_LEASE_EXTENSION\<rparr> else ?s"
      have "n' = n\<lparr>sessions := upd_session c (\<lambda>_. ?s') (sessions n)\<rparr>"
        using assms Some pop
        by (simp only: attempt_extend_session_def Let_def option.case split_beta prod.inject)
      then show ?thesis by (intro that(2) [OF Some]) simp_all
    qed
  qed
  then show "node_inv n \<Longrightarrow> node_inv n'" "recorded n \<Longrightarrow> recorded n'"
    by (cases; auto intro: session_update_inv)+
qed

lemma reacquire_locks_keeps:
  assumes acq: "\<And>c p m n st n'. P n \<Longrightarrow> acquire_lock c p m n = (st, n') \<Longrightarrow> P n'"
    and end_session: "\<And>c n r n'. P n \<Longrightarrow> end_session c n = (r, n') \<Longrightarrow> P n'"
  shows "P n \<Longrightarrow> reacquire_locks c ls n = (r, n') \<Longrightarrow> P n'"
proof (induction c ls n arbitrary: r n' rule: reacquire_locks.induct)
  case (2 c p m rest n)
  obtain st n1 where a: "acquire_lock c p m n = (st, n1)" by fastforce
  obtain q n2 where e: "end_session c n1 = (q, n2)" by fastforce
  have P: "P n1" "P n2" using acq [OF "2.prems"(1) a] end_session e by blast+
  show ?case
  proof (cases "ok st")
    case True
    with "2.prems"(2) a have "reacquire_locks c rest n1 = (r, n')" by simp
    with "2.IH"(2) [OF a [symmetric]] True P show ?thesis by blast
  next
    case False
    show ?thesis
    proof (cases q)
      case (Inl err)
      with "2.prems"(2) a e False P show ?thesis by simp
    next
      case (Inr u)
      with "2.prems"(2) a e False have "reacquire_locks c rest n2 = (r, n')" by simp
      with "2.IH"(1) [OF a [symmetric] False e [symmetric]] Inr P show ?thesis by blast
    qed
  qed
qed simp


section \<open>Files\<close>

lemma handle_jeopardy_keeps:
  assumes create: "\<And>st n'. create_session C now c n = (st, n') \<Longrightarrow> P n'"
    and acq: "\<And>c p m n st n'. P n \<Longrightarrow> acquire_lock c p m n = (st, n') \<Longrightarrow> P n'"
    and end_session: "\<And>c n r n'. P n \<Longrightarrow> end_session c n = (r, n') \<Longrightarrow> P n'"
    and extend: "\<And>n r n'. P n \<Longrightarrow> attempt_extend_session C c n = (r, n') \<Longrightarrow> P n'"
  shows "handle_jeopardy C now c ls n = (r, n') \<Longrightarrow> P n'"
proof -
  assume h: "handle_jeopardy C now c ls n = (r, n')"
  obtain st n1 where 1: "create_session C now c n = (st, n1)" by fastforce
  obtain q n2 where 2: "reacquire_locks c ls n1 = (q, n2)" by fastforce
  obtain t n3 where 3: "attempt_extend_session C c n2 = (t, n3)" by fastforce
  have P1: "P n1" using create 1 by blast
  have P2: "P n2" using reacquire_locks_keeps [of P, OF acq end_session P1 2] .
  have "P n3" using extend P2 3 by blast
  with h 1 2 3 P1 P2 show ?thesis
    by (auto simp: handle_jeopardy_def split: if_splits sum.splits)
qed

text \<open>\<^verbatim>\<open>open_lock\<close> and \<^verbatim>\<open>write\<close> replicate first; that touches the state machine and the files only.\<close>

lemma open_lock_cases:
  assumes "open_lock S oc random c p n = (r, n')"
  obtains (same) "n' = n" "\<And>st. r = Inr st \<Longrightarrow> \<not> ok st"
  | (failed) e sm fs where "r = Inl e" "n' = n\<lparr>n_sm := sm, n_fs := fs\<rparr>"
      "append_log S (n_conf n) oc random WRITE p [] (n_sm n) (n_fs n) = (Inl e, sm, fs)"
  | (opened) s sm fs where "r = Inr status_OK" "n' = new_lock c p (n\<lparr>n_sm := sm, n_fs := fs\<rparr>)"
      "append_log S (n_conf n) oc random WRITE p [] (n_sm n) (n_fs n) = (Inr (), sm, fs)"
      "om_find (sessions n) c = Some s" "\<not> is_exists p n"
proof -
  obtain q sm fs where a: "append_log S (n_conf n) oc random WRITE p [] (n_sm n) (n_fs n) = (q, sm, fs)"
    using prod_cases3 by blast
  show ?thesis
  proof (cases q)
    case (Inl e)
    with a assms show ?thesis
      by (auto simp: open_lock_def no_session_def split: option.splits if_splits
          intro: same failed)
  next
    case (Inr u)
    with a assms show ?thesis
      by (auto simp: open_lock_def no_session_def split: option.splits if_splits
          intro: same opened)
  qed
qed

lemma open_lock_inv:
  assumes "open_lock S oc random c p n = (r, n')"
  shows "node_inv n \<Longrightarrow> node_inv n'" and "recorded n \<Longrightarrow> recorded n'"
  using assms
  by (cases rule: open_lock_cases; simp add: new_lock_node_inv new_lock_recorded)+

lemma server_write_inv:
  assumes "server_write S oc random c p t n = (r, n')"
  shows "node_inv n \<Longrightarrow> node_inv n'" and "recorded n \<Longrightarrow> recorded n'"
  using assms
  by (auto simp: server_write_def split: option.splits if_splits prod.splits sum.splits)

lemma delete_lock_exists:
  "is_exists p n \<Longrightarrow> \<exists>st. delete_lock c p n = (Inr st, n) \<and> fst st = ABORTED"
  by (auto simp: delete_lock_def no_session_def split: option.splits)

lemma delete_lock_cases:
  assumes "delete_lock c p n = (r, n')"
  obtains (same) "n' = n" "\<And>st. r = Inr st \<Longrightarrow> \<not> ok st"
  | (deleted) a fs where "slocks c p n = Some a" "status (lock_heap n ! a) = EXCLUSIVE"
      "\<not> is_exists p n" "r = Inr status_OK"
      "n' = n\<lparr>n_fs := fs,
         sessions := upd_session c (\<lambda>s. s\<lparr>session_locks := om_erase p (session_locks s)\<rparr>) (sessions n),
         locks := om_erase p (locks n)\<rparr>"
proof -
  let ?del = "\<lambda>fs. n\<lparr>n_fs := fs,
     sessions := upd_session c (\<lambda>s. s\<lparr>session_locks := om_erase p (session_locks s)\<rparr>) (sessions n),
     locks := om_erase p (locks n)\<rparr>"
  have "(n' = n \<and> (\<forall>st. r = Inr st \<longrightarrow> \<not> ok st)) \<or>
    (\<exists>a fs. slocks c p n = Some a \<and> status (lock_heap n ! a) = EXCLUSIVE \<and> \<not> is_exists p n
       \<and> r = Inr status_OK \<and> n' = ?del fs)"
    using assms
    by (auto simp: delete_lock_def no_session_def slocks_def split: option.splits if_splits sum.splits)
  then show ?thesis using same deleted by blast
qed

lemma delete_lock_node_inv [keeps_node_inv]:
  assumes inv: "node_inv n" and "delete_lock c p n = (r, n')"
  shows "node_inv n'"
  using assms(2)
proof (cases rule: delete_lock_cases)
  case (deleted a fs)
  have sl: "slocks d q n' = (if d = c \<and> q = p then None else slocks d q n)" for d q
    by (auto simp: deleted(5) slocks_def find_upd_session find_erase split: option.split)
  have pt: "points n' = points n" by (simp add: deleted(5) points_def fun_eq_iff)
  have eq: "locks n' = om_erase p (locks n)" "lock_heap n' = lock_heap n"
    "sessions n' = upd_session c (\<lambda>s. s\<lparr>session_locks := om_erase p (session_locks s)\<rparr>) (sessions n)"
    by (simp_all add: deleted(5))
  have ss: "\<forall>d s. om_find (sessions n') d = Some s \<longrightarrow> client_id s = d \<and> om_wf (session_locks s)"
    using inv by (auto simp: eq find_upd_session om_wf_erase node_inv_def split: if_splits)
  have ls: "om_find (locks n') q = Some b \<Longrightarrow> om_find (locks n) q = Some b" for q b
    by (simp add: eq find_erase split: if_splits)
  have "om_wf (locks n')" "om_wf (sessions n')"
    using inv by (simp_all add: eq om_wf_erase upd_session_wf node_inv_def)
  with ss inv ls show ?thesis by (simp add: node_inv_def pt sl eq(2))
qed (use inv in simp)

end
