(* ===== verification/NodeRuns.thy ===== *)
theory NodeRuns
  imports NodeInvariant
begin

text \<open>
  Everything that can happen to a node, as one type of operations, and the states a run of
  them reaches. The operations are the handlers that the RPC services call, a step of a
  session's thread, an entry that NuRaft commits on this node on behalf of another one, a
  snapshot it installs, and a change of the file system made by something else.
\<close>

datatype ('b, 's) node_op =
    CreateSession int string
  | CloseSession string
  | OpenLock raft_outcome nat string string
  | DeleteLock string string
  | AcquireLock string string LockStatus
  | ReleaseLock string string
  | WriteFile raft_outcome nat string string string
  | KeepAlive string
  | Jeopardy int string "(string \<times> LockStatus) list"
  | ThreadStep nat int int
  | Replicate nat u64 'b
  | InstallSnapshot 's
  | Environment fs

fun apply_op ::
    "'b ser \<Rightarrow> ('s, 'b) snapshot_api \<Rightarrow> 'ch chan_api \<Rightarrow> ('ch, 's) node \<Rightarrow> ('b, 's) node_op \<Rightarrow> ('ch, 's) node" where
  "apply_op S A C n (CreateSession now c) = snd (create_session C now c n)"
| "apply_op S A C n (CloseSession c) = snd (close_session c n)"
| "apply_op S A C n (OpenLock oc r c p) = snd (open_lock S oc r c p n)"
| "apply_op S A C n (DeleteLock c p) = snd (delete_lock c p n)"
| "apply_op S A C n (AcquireLock c p m) = snd (acquire_lock c p m n)"
| "apply_op S A C n (ReleaseLock c p) = snd (release_lock c p n)"
| "apply_op S A C n (WriteFile oc r c p t) = snd (server_write S oc r c p t n)"
| "apply_op S A C n (KeepAlive c) = snd (attempt_extend_session C c n)"
| "apply_op S A C n (Jeopardy now c ls) = snd (handle_jeopardy C now c ls n)"
| "apply_op S A C n (ThreadStep i now1 now2) = snd (maintain_session C i now1 now2 n)"
| "apply_op S A C n (Replicate r idx data) =
     (case commit S (n_conf n) r idx data (n_sm n) (n_fs n) of
        (_, sm, fs) \<Rightarrow> n\<lparr>n_sm := sm, n_fs := fs\<rparr>)"
| "apply_op S A C n (InstallSnapshot s) = n\<lparr>n_sm := snd (apply_snapshot A s (n_sm n))\<rparr>"
| "apply_op S A C n (Environment fs) = n\<lparr>n_fs := fs\<rparr>"

text \<open>
  The one operation that breaks \<open>recorded\<close> is a \<^verbatim>\<open>delete_lock\<close> on a file that is gone.
\<close>

definition deletes_existing :: "('ch, 's) node \<Rightarrow> ('b, 's) node_op \<Rightarrow> bool" where
  "deletes_existing n e = (case e of DeleteLock c p \<Rightarrow> is_exists p n | _ \<Rightarrow> True)"

section \<open>Each operation\<close>

lemma init_strong_inv: "strong_inv (init_server_info conf fs sm)"
  by (simp add: strong_inv_def node_inv_def recorded_def init_server_info_def slocks_def)

lemma apply_op_node_inv:
  assumes inv: "node_inv n"
  shows "node_inv (apply_op S A C n e)"
proof (cases e)
  case (CloseSession c)
  have "node_inv n'" if "close_session c n = (r, n')" for r n'
    using close_session_keeps [where P = node_inv, OF _ inv that] end_session_node_inv [OF inv]
    by blast
  then show ?thesis by (simp add: CloseSession) (metis prod.collapse)
next
  case (Jeopardy now c ls)
  have "node_inv n'" if "handle_jeopardy C now c ls n = (r, n')" for r n'
    by (rule handle_jeopardy_keeps [where P = node_inv, OF _ _ _ _ that])
      (erule create_session_node_inv [OF inv] acquire_lock_node_inv end_session_node_inv
        attempt_extend_inv(1); assumption)+
  then show ?thesis by (simp add: Jeopardy) (metis prod.collapse)
next
  case (ThreadStep i now1 now2)
  have "node_inv n'" if "maintain_session C i now1 now2 n = (r, n')" for r n'
    using maintain_session_keeps [where P = node_inv, OF _ inv _ _ that] inv
      end_session_node_inv push_reply_inv(1) inv_frame(5) by blast
  then show ?thesis by (simp add: ThreadStep) (metis prod.collapse)
next
  case (Replicate r idx data)
  then show ?thesis using inv by (simp split: prod.split)
next
  case (CreateSession now c)
  then show ?thesis using create_session_node_inv [OF inv] by (metis apply_op.simps(1) prod.collapse)
next
  case (OpenLock oc r c p)
  then show ?thesis using open_lock_inv(1) inv by (metis apply_op.simps(3) prod.collapse)
next
  case (DeleteLock c p)
  then show ?thesis using delete_lock_node_inv [OF inv] by (metis apply_op.simps(4) prod.collapse)
next
  case (AcquireLock c p m)
  then show ?thesis using acquire_lock_node_inv [OF inv] by (metis apply_op.simps(5) prod.collapse)
next
  case (ReleaseLock c p)
  then show ?thesis using release_lock_node_inv [OF inv] by (metis apply_op.simps(6) prod.collapse)
next
  case (WriteFile oc r c p t)
  then show ?thesis using server_write_inv(1) inv by (metis apply_op.simps(7) prod.collapse)
next
  case (KeepAlive c)
  then show ?thesis using attempt_extend_inv(1) inv by (metis apply_op.simps(8) prod.collapse)
qed (use inv in simp_all)

lemma session_strong: "strong_inv n \<Longrightarrow> create_session C now c n = (st, n') \<Longrightarrow> strong_inv n'"
  using create_session_node_inv create_session_recorded unfolding strong_inv_def by blast

lemma lock_strong: "strong_inv n \<Longrightarrow> acquire_lock c p m n = (st, n') \<Longrightarrow> strong_inv n'"
  using acquire_lock_node_inv acquire_lock_recorded unfolding strong_inv_def by blast

lemma extend_strong: "strong_inv n \<Longrightarrow> attempt_extend_session C c n = (r, n') \<Longrightarrow> strong_inv n'"
  using attempt_extend_inv unfolding strong_inv_def by blast

lemma apply_op_strong_inv:
  assumes inv: "strong_inv n" and guard: "deletes_existing n e"
  shows "strong_inv (apply_op S A C n e)"
proof -
  have n: "node_inv n" "recorded n" using inv by (simp_all add: strong_inv_def)
  have "recorded (apply_op S A C n e)"
  proof (cases e)
    case (CloseSession c)
    have "strong_inv n'" if "close_session c n = (r, n')" for r n'
      using close_session_keeps [where P = strong_inv, OF _ inv that] end_session_strong [OF inv]
      by blast
    then show ?thesis by (simp add: CloseSession) (metis prod.collapse strong_inv_def)
  next
    case (Jeopardy now c ls)
    have "strong_inv n'" if "handle_jeopardy C now c ls n = (r, n')" for r n'
      by (rule handle_jeopardy_keeps [where P = strong_inv, OF _ _ _ _ that])
        (erule session_strong [OF inv] lock_strong end_session_strong extend_strong; assumption)+
    then show ?thesis by (simp add: Jeopardy) (metis prod.collapse strong_inv_def)
  next
    case (ThreadStep i now1 now2)
    have "strong_inv n'" if "maintain_session C i now1 now2 n = (r, n')" for r n'
      by (rule maintain_session_keeps [where P = strong_inv, OF _ inv _ _ that])
        (erule end_session_strong [OF inv] | simp add: strong_inv_def push_reply_inv)+
    then show ?thesis by (simp add: ThreadStep) (metis prod.collapse strong_inv_def)
  next
    case (Replicate r idx data)
    then show ?thesis using n by (simp split: prod.split)
  next
    case (CreateSession now c)
    then show ?thesis using create_session_recorded n(2) by (metis apply_op.simps(1) prod.collapse)
  next
    case (OpenLock oc r c p)
    then show ?thesis using open_lock_inv(2) n(2) by (metis apply_op.simps(3) prod.collapse)
  next
    case (DeleteLock c p)
    then have "snd (delete_lock c p n) = n"
      using guard delete_lock_exists [of p n c] by (auto simp: deletes_existing_def)
    with DeleteLock n show ?thesis by simp
  next
    case (AcquireLock c p m)
    then show ?thesis using acquire_lock_recorded n by (metis apply_op.simps(5) prod.collapse)
  next
    case (ReleaseLock c p)
    then show ?thesis using release_lock_recorded n by (metis apply_op.simps(6) prod.collapse)
  next
    case (WriteFile oc r c p t)
    then show ?thesis using server_write_inv(2) n(2) by (metis apply_op.simps(7) prod.collapse)
  next
    case (KeepAlive c)
    then show ?thesis using attempt_extend_inv(2) n(2) by (metis apply_op.simps(8) prod.collapse)
  qed (use n in simp_all)
  with apply_op_node_inv [OF n(1)] show ?thesis by (simp add: strong_inv_def)
qed

section \<open>Runs\<close>

interpretation any_run: invariant_machine "apply_op S A C" "\<lambda>_ _. True" node_inv for S A C
  by unfold_locales (rule apply_op_node_inv)

interpretation safe_run: invariant_machine "apply_op S A C" deletes_existing strong_inv for S A C
  by unfold_locales (rule apply_op_strong_inv)

lemma reachable_inv: "node_inv (foldl (apply_op S A C) (init_server_info conf fs sm) ops)"
  by (rule any_run.run_keeps [OF conjunct1 [OF init_strong_inv [unfolded strong_inv_def]]])
    (simp add: all_guarded_True)

lemma strong_inv_holder:
  assumes "strong_inv n" and "holds c p n"
  obtains a where "om_find (locks n) p = Some a" and "slocks c p n = Some a"
    and "om_find (owners (lock_heap n ! a)) c = Some True" and "a < length (lock_heap n)"
    and "lock_ok (lock_heap n ! a)"
proof -
  obtain a where a: "slocks c p n = Some a" "om_find (owners (lock_heap n ! a)) c = Some True"
    using assms(2) by (auto simp: holds_def split: option.splits)
  then have "points n p a" using assms(1) by (auto simp: strong_inv_def node_inv_def)
  then have len: "a < length (lock_heap n)" "lock_path (lock_heap n ! a) = p"
    by (simp_all add: points_def)
  moreover have "recorded n" using assms(1) by (simp add: strong_inv_def)
  ultimately have "om_find (locks n) p = Some a"
    using a(2) unfolding recorded_def by (metis option.distinct(1))
  moreover have "lock_ok (lock_heap n ! a)"
    using assms(1) len by (simp add: strong_inv_def node_inv_def)
  ultimately show thesis using a len by (intro that)
qed

end
