(* ===== verification/LockTable.thy ===== *)
theory LockTable
  imports NodeRuns
begin

text \<open>
  What the lock service promises, without sessions, addresses and maps: a table that gives
  every path a mode and a set of owners. \<open>spec_acquire\<close> and \<open>spec_release\<close> are the two
  operations of that table (\<open>None\<close>: refused), \<open>lock_table\<close> reads it off a node, and the
  handlers refine it.
\<close>

definition lock_entry :: "Lock \<Rightarrow> LockStatus \<times> string set" where
  "lock_entry l = (status l, fst ` set (owners l))"

definition lock_table :: "('ch, 's) node \<Rightarrow> string \<Rightarrow> LockStatus \<times> string set" where
  "lock_table n p = (case om_find (locks n) p of None \<Rightarrow> (FREE, {}) | Some a \<Rightarrow> lock_entry (lock_heap n ! a))"

definition spec_acquire ::
    "string \<Rightarrow> LockStatus \<Rightarrow> LockStatus \<times> string set \<Rightarrow> (LockStatus \<times> string set) option" where
  "spec_acquire c mode e =
     (if mode = FREE then None
      else if fst e = FREE then Some (mode, {c})
      else if fst e = SHARED \<and> mode = SHARED then Some (SHARED, insert c (snd e))
      else None)"

definition spec_release ::
    "string \<Rightarrow> LockStatus \<times> string set \<Rightarrow> (LockStatus \<times> string set) option" where
  "spec_release c e =
     (if c \<in> snd e then Some (if snd e = {c} then FREE else fst e, snd e - {c}) else None)"

section \<open>Entries\<close>

lemma lock_entry_owner: "c \<in> snd (lock_entry l) \<longleftrightarrow> om_find (owners l) c \<noteq> None"
  by (simp add: lock_entry_def map_of_eq_None_iff)

lemma om_keys_eq: "om_find m = om_find m' \<Longrightarrow> fst ` set m = fst ` set m'"
  by (metis dom_map_of_conv_image_fst)

lemma lock_entry_grant:
  "lock_ok l \<Longrightarrow> grantable mode l \<Longrightarrow>
    lock_entry (l\<lparr>owners := om_assign c True (owners l), status := mode\<rparr>)
      = the (spec_acquire c mode (lock_entry l))"
  by (auto simp: lock_entry_def set_assign spec_acquire_def grantable_def lock_ok_free)

lemma spec_acquire_grantable: "spec_acquire c mode (lock_entry l) \<noteq> None \<longleftrightarrow> grantable mode l"
  by (auto simp: spec_acquire_def lock_entry_def grantable_def)

lemma keys_erase: "fst ` set (om_erase c m) = fst ` set m - {c}"
  by (auto simp: om_erase_def)

lemma lock_entry_drop:
  assumes "lock_ok l" and "om_find (owners l) c = Some True"
  shows "lock_entry (drop_owner c l) = the (spec_release c (lock_entry l))"
proof -
  have c: "c \<in> fst ` set (owners l)" using assms(2) by (metis domI dom_map_of_conv_image_fst)
  have one: "status l = EXCLUSIVE \<Longrightarrow> fst ` set (owners l) = {c}"
    using assms c by (cases "owners l") (auto simp: lock_ok_def)
  have empty: "om_erase c (owners l) = [] \<longleftrightarrow> fst ` set (owners l) = {c}"
  proof -
    have "om_erase c (owners l) = [] \<longleftrightarrow> fst ` set (owners l) - {c} = {}"
      using keys_erase [of c "owners l"] by (metis image_is_empty set_empty)
    also have "\<dots> \<longleftrightarrow> fst ` set (owners l) = {c}" using c by blast
    finally show ?thesis .
  qed
  show ?thesis
    using c one empty
    by (auto simp: spec_release_def drop_owner_def Let_def lock_entry_def keys_erase)
qed

section \<open>The table after an update of the node\<close>

lemma lock_table_load:
  assumes "load_lock c p n = (a, n1)" and "node_inv n"
  shows "lock_table n1 = lock_table n" and "lock_entry (lock_heap n1 ! a) = lock_table n p"
proof -
  have old: "b < length (lock_heap n)" if "om_find (locks n) q = Some b" for q b
    using assms(2) that by (auto simp: node_inv_def points_def)
  have new: "lock_table (new_lock c p n) q = lock_table n q" if "om_find (locks n) p = None" for q
    using that old [of q]
    by (cases "q = p"; cases "om_find (locks n) q")
      (simp_all add: lock_table_def new_lock_simps(1,2) find_insert nth_append lock_entry_def)
  show "lock_table n1 = lock_table n"
    using assms(1) new by (auto simp: load_lock_def split: option.splits)
  show "lock_entry (lock_heap n1 ! a) = lock_table n p"
    using assms(1)
    by (auto simp: load_lock_def lock_table_def new_lock_simps lock_entry_def split: option.splits)
qed

lemma lock_table_grant:
  assumes "node_inv n" and "om_find (locks n) p = Some a"
  shows "lock_table (grant_lock c p a mode n) = (lock_table n)
    (p := lock_entry ((lock_heap n ! a)\<lparr>owners := om_assign c True (owners (lock_heap n ! a)), status := mode\<rparr>))"
proof
  fix q
  have pts: "points n p a" "\<And>b. om_find (locks n) q = Some b \<Longrightarrow> points n q b"
    using assms by (simp_all add: node_inv_def)
  have len: "a < length (lock_heap n)" using pts(1) by (simp add: points_def)
  have "b \<noteq> a" if "om_find (locks n) q = Some b" "q \<noteq> p" for b
    using pts(1) pts(2) [OF that(1)] that(2) by (auto simp: points_def)
  then show "lock_table (grant_lock c p a mode n) q = ((lock_table n)
    (p := lock_entry ((lock_heap n ! a)\<lparr>owners := om_assign c True (owners (lock_heap n ! a)), status := mode\<rparr>))) q"
    using assms(2)
    by (auto simp: lock_table_def grant_lock_simps grant_lock_heap [OF len] split: option.splits)
qed

lemma lock_table_released:
  assumes "node_inv n" and "om_find (locks n) p = Some a"
  shows "lock_table (released c p a n) = (lock_table n)(p := lock_entry (drop_owner c (lock_heap n ! a)))"
proof
  fix q
  have pts: "points n p a" "\<And>b. om_find (locks n) q = Some b \<Longrightarrow> points n q b"
    using assms by (simp_all add: node_inv_def)
  have len: "a < length (lock_heap n)" using pts(1) by (simp add: points_def)
  have "b \<noteq> a" if "om_find (locks n) q = Some b" "q \<noteq> p" for b
    using pts(1) pts(2) [OF that(1)] that(2) by (auto simp: points_def)
  then show "lock_table (released c p a n) q =
      ((lock_table n)(p := lock_entry (drop_owner c (lock_heap n ! a)))) q"
    using assms(2)
    by (auto simp: lock_table_def released_simps released_heap [OF len] split: option.splits)
qed

section \<open>The handlers refine the table\<close>

lemma acquire_refused_table:
  assumes inv: "node_inv n" and acq: "acquire_lock c p mode n = (st, n)" "\<not> ok st"
    and s: "om_find (sessions n) c \<noteq> None" "is_exists p n" "mode \<noteq> FREE"
  shows "spec_acquire c mode (lock_table n p) = None"
proof (rule ccontr)
  obtain a n1 where l: "load_lock c p n = (a, n1)" by fastforce
  assume "spec_acquire c mode (lock_table n p) \<noteq> None"
  then have "grantable mode (lock_heap n1 ! a)"
    using lock_table_load(2) [OF l inv] spec_acquire_grantable by metis
  then have "ok (fst (claim_lock c p mode a n1))"
    by (auto simp: claim_lock_def grantable_def status_OK_def Let_def)
  then show False using acq s l by (cases mode) (auto simp: acquire_lock_def split: option.splits)
qed

lemma acquire_table:
  assumes inv: "node_inv n" and acq: "acquire_lock c p mode n = (st, n')"
  shows "ok st \<longleftrightarrow> om_find (sessions n) c \<noteq> None \<and> is_exists p n
           \<and> spec_acquire c mode (lock_table n p) \<noteq> None"
    and "lock_table n' =
      (if ok st then (lock_table n)(p := the (spec_acquire c mode (lock_table n p))) else lock_table n)"
proof -
  have *: "(ok st \<longleftrightarrow> om_find (sessions n) c \<noteq> None \<and> is_exists p n
           \<and> spec_acquire c mode (lock_table n p) \<noteq> None) \<and> lock_table n' =
      (if ok st then (lock_table n)(p := the (spec_acquire c mode (lock_table n p))) else lock_table n)"
    using inv acq
  proof (cases rule: acquire_lock_cases)
    case refused
    have "mode = FREE \<Longrightarrow> spec_acquire c mode (lock_table n p) = None" by (simp add: spec_acquire_def)
    with refused acquire_refused_table [of n c p mode st] inv acq show ?thesis by fastforce
  next
    case (granted a n1)
    note props = load_lock_props [OF inv granted(4)]
    have ok: "lock_ok (lock_heap n1 ! a)" using props(1,4) by (simp add: node_inv_def points_def)
    show ?thesis
      using granted lock_table_load [OF granted(4) inv] lock_table_grant [OF props(1,3)]
        lock_entry_grant [OF ok granted(5)] spec_acquire_grantable [of c mode "lock_heap n1 ! a"]
      by (simp add: status_OK_def)
  qed
  show "ok st \<longleftrightarrow> om_find (sessions n) c \<noteq> None \<and> is_exists p n
           \<and> spec_acquire c mode (lock_table n p) \<noteq> None"
    using * by (rule conjunct1)
  show "lock_table n' =
      (if ok st then (lock_table n)(p := the (spec_acquire c mode (lock_table n p))) else lock_table n)"
    using * by (rule conjunct2)
qed

lemma acquire_holds:
  assumes inv: "node_inv n" and acq: "acquire_lock c p mode n = (st, n')" and "ok st"
  shows "holds c p n'"
  using inv acq
proof (cases rule: acquire_lock_cases)
  case (granted a n1)
  note props = load_lock_props [OF inv granted(4)]
  have len: "a < length (lock_heap n1)" using props(4) by (simp add: points_def)
  have "om_find (sessions n1) c \<noteq> None" using props(5) granted(2) by blast
  then show ?thesis
    by (simp add: granted(6) holds_def slocks_grant_lock grant_lock_heap [OF len] find_assign)
qed (use assms(3) in simp)

lemma acquire_refused_same:
  "node_inv n \<Longrightarrow> acquire_lock c p mode n = (st, n') \<Longrightarrow> \<not> ok st \<Longrightarrow> n' = n"
  by (erule (1) acquire_lock_cases) (simp_all add: status_OK_def)

text \<open>In a state of the strong invariant, holding a lock is being an owner in the table.\<close>

lemma holds_table:
  assumes "strong_inv n"
  shows "holds c p n \<longleftrightarrow> c \<in> snd (lock_table n p)"
    and "holds_exclusively c p n \<longleftrightarrow> lock_table n p = (EXCLUSIVE, {c})"
proof -
  have 1: "holds c p n" if c: "c \<in> snd (lock_table n p)" for c
  proof -
    obtain a where a: "om_find (locks n) p = Some a" "om_find (owners (lock_heap n ! a)) c \<noteq> None"
      using c lock_entry_owner by (auto simp: lock_table_def split: option.splits)
    have pts: "points n p a" using assms a(1) by (simp add: strong_inv_def node_inv_def)
    then have "lock_ok (lock_heap n ! a)"
      using assms by (simp add: strong_inv_def node_inv_def points_def)
    then have "om_find (owners (lock_heap n ! a)) c = Some True" using a(2) lock_ok_owner by blast
    moreover have "slocks c p n = Some a"
      using assms pts a(2) unfolding strong_inv_def recorded_def points_def by metis
    ultimately show ?thesis by (simp add: holds_def)
  qed
  have 2: "c \<in> snd (lock_table n p)" if h: "holds c p n" for c
    using assms h by (rule strong_inv_holder) (simp add: lock_table_def lock_entry_owner)
  show "holds c p n \<longleftrightarrow> c \<in> snd (lock_table n p)" using 1 2 by blast
  show "holds_exclusively c p n \<longleftrightarrow> lock_table n p = (EXCLUSIVE, {c})"
  proof
    assume he: "holds_exclusively c p n"
    then have "holds c p n" by (auto simp: holds_exclusively_def holds_def split: option.splits)
    with assms he show "lock_table n p = (EXCLUSIVE, {c})"
    proof (elim strong_inv_holder)
      fix a
      assume a: "om_find (locks n) p = Some a" "slocks c p n = Some a"
        "om_find (owners (lock_heap n ! a)) c = Some True" "lock_ok (lock_heap n ! a)"
      with he have ex: "status (lock_heap n ! a) = EXCLUSIVE" by (simp add: holds_exclusively_def)
      with a(3,4) have "fst ` set (owners (lock_heap n ! a)) = {c}"
        by (cases "owners (lock_heap n ! a)") (auto simp: lock_ok_def split: if_splits)
      with a(1) ex show ?thesis by (simp add: lock_table_def lock_entry_def)
    qed
  next
    assume t: "lock_table n p = (EXCLUSIVE, {c})"
    then have "holds c p n" using 1 [of c] by simp
    with assms t show "holds_exclusively c p n"
      by (elim strong_inv_holder) (auto simp: holds_exclusively_def lock_table_def lock_entry_def)
  qed
qed

lemma release_table:
  assumes inv: "strong_inv n" and rel: "release_lock c p n = (r, n')"
  obtains st where "r = Inr st"
    and "ok st \<longleftrightarrow> is_exists p n \<and> spec_release c (lock_table n p) \<noteq> None"
    and "lock_table n' =
      (if ok st then (lock_table n)(p := the (spec_release c (lock_table n p))) else lock_table n)"
proof -
  have n: "node_inv n" "recorded n" using inv by (simp_all add: strong_inv_def)
  show thesis using n rel
  proof (cases rule: release_lock_strong_cases)
    case (refused st)
    have "\<not> (is_exists p n \<and> holds c p n)"
    proof
      assume h: "is_exists p n \<and> holds c p n"
      then obtain a where "om_find (locks n) p = Some a" "slocks c p n = Some a"
        "om_find (owners (lock_heap n ! a)) c = Some True"
        using inv by (metis strong_inv_holder)
      with h rel refused show False
        by (auto simp: release_lock_def slocks_def status_OK_def Let_def split: option.splits)
    qed
    then have "\<not> (is_exists p n \<and> spec_release c (lock_table n p) \<noteq> None)"
      by (simp add: holds_table(1) [OF inv] spec_release_def)
    with refused show thesis by (intro that) auto
  next
    case (released a)
    have len: "lock_ok (lock_heap n ! a)"
      using n(1) released(4) by (auto simp: node_inv_def points_def)
    have t: "lock_table n p = lock_entry (lock_heap n ! a)" by (simp add: lock_table_def released(4))
    have "spec_release c (lock_table n p) \<noteq> None"
      using released(2) by (simp add: spec_release_def t lock_entry_owner)
    with released len lock_table_released [OF n(1) released(4)] lock_entry_drop [OF len released(2)] t
    show thesis by (intro that [of status_OK]) (simp_all add: status_OK_def)
  qed
qed

end
