(* ===== verification/SessionEnd.thy ===== *)
theory SessionEnd
  imports LockTable
begin

text \<open>
  What ending a session does to the lock table: the refinement of \<open>spec_drop\<close> when every
  lock of the session is owned, the frame for the other clients in every case, and that a
  terminated session stays terminated for good.
\<close>

section \<open>Releasing everything\<close>

definition spec_drop :: "string \<Rightarrow> LockStatus \<times> string set \<Rightarrow> LockStatus \<times> string set" where
  "spec_drop c e = (case spec_release c e of None \<Rightarrow> e | Some e' \<Rightarrow> e')"

lemma spec_drop_idle: "c \<notin> snd e \<Longrightarrow> spec_drop c e = e"
  by (simp add: spec_drop_def spec_release_def)

lemma spec_drop_idem: "spec_drop c (spec_drop c e) = spec_drop c e"
  by (simp add: spec_drop_def spec_release_def)

lemma spec_drop_owner: "d \<in> snd (spec_drop c e) \<longleftrightarrow> d \<in> snd e \<and> d \<noteq> c"
  by (auto simp: spec_drop_def spec_release_def)

lemma spec_release_drop: "spec_release c e \<noteq> None \<Longrightarrow> the (spec_release c e) = spec_drop c e"
  by (auto simp: spec_drop_def)

text \<open>A session all of whose locks are owned and exist as files.\<close>

definition all_owned :: "string \<Rightarrow> ('ch, 's) node \<Rightarrow> bool" where
  "all_owned c n \<longleftrightarrow>
     (case om_find (sessions n) c of None \<Rightarrow> True
      | Some s \<Rightarrow> \<forall>p \<in> fst ` set (session_locks s). holds c p n \<and> is_exists p n)"

lemma holds_slocks: "holds c p n \<Longrightarrow> slocks c p n \<noteq> None"
  by (auto simp: holds_def split: option.splits)

lemma holds_frame:
  "lock_heap n' = lock_heap n \<Longrightarrow> slocks c p n' = slocks c p n \<Longrightarrow> holds c p n' = holds c p n"
  by (simp add: holds_def cong: option.case_cong)

lemma release_owned:
  assumes inv: "strong_inv n" and h: "holds c p n" "is_exists p n"
    and own: "all_owned c n" and s: "om_find (sessions n) c = Some s"
  obtains n' where "release_lock c p n = (Inr status_OK, n')" and "strong_inv n'" and "all_owned c n'"
    and "lock_table n' = (lock_table n)(p := spec_drop c (lock_table n p))"
    and "om_find (sessions n') c = Some (s\<lparr>session_locks := om_erase p (session_locks s)\<rparr>)"
proof -
  have n: "node_inv n" "recorded n" using inv by (simp_all add: strong_inv_def)
  obtain r n' where rel: "release_lock c p n = (r, n')" by fastforce
  obtain st where st: "r = Inr st" "ok st \<longleftrightarrow> is_exists p n \<and> spec_release c (lock_table n p) \<noteq> None"
    "lock_table n' = (if ok st then (lock_table n)(p := the (spec_release c (lock_table n p))) else lock_table n)"
    using release_table [OF inv rel] .
  have so: "spec_release c (lock_table n p) \<noteq> None"
    using h(1) holds_table(1) [OF inv] by (simp add: spec_release_def)
  with st h have ok: "ok st" by simp
  have tab: "lock_table n' = (lock_table n)(p := spec_drop c (lock_table n p))"
    using st(3) ok so by (simp add: spec_release_drop)
  have inv': "strong_inv n'"
    using release_lock_node_inv release_lock_recorded n rel by (auto simp: strong_inv_def)
  show thesis using n rel
  proof (cases rule: release_lock_strong_cases)
    case (refused st')
    with st ok show thesis by simp
  next
    case (released a)
    have s': "om_find (sessions n') c = Some (s\<lparr>session_locks := om_erase p (session_locks s)\<rparr>)"
      by (simp add: released(6) find_sessions_released s)
    have ex: "is_exists q n' = is_exists q n" for q
      by (simp add: released(6) is_exists_def released_simps)
    have "holds c q n'" if "q \<in> fst ` set (om_erase p (session_locks s))" for q
    proof -
      have "q \<noteq> p" "q \<in> fst ` set (session_locks s)" using that by (auto simp: om_erase_def)
      moreover from this have "c \<in> snd (lock_table n q)"
        using own s holds_table(1) [OF inv] by (auto simp: all_owned_def)
      ultimately show ?thesis using holds_table(1) [OF inv'] tab by simp
    qed
    moreover have "is_exists q n'" if "q \<in> fst ` set (om_erase p (session_locks s))" for q
      using that own s by (auto simp: all_owned_def ex om_erase_def)
    ultimately have "all_owned c n'" by (simp add: all_owned_def s')
    with rel released(5) inv' tab s' show thesis by (intro that) simp_all
  qed
qed

lemma no_locks_no_owner:
  assumes "strong_inv n" and "om_find (sessions n) c = Some s" and "session_locks s = []"
  shows "c \<notin> snd (lock_table n p)"
  using holds_table(1) [OF assms(1)] holds_slocks [of c p n] assms(2,3) by (auto simp: slocks_def)

lemma end_loop_releases:
  "strong_inv n \<Longrightarrow> all_owned c n \<Longrightarrow> om_find (sessions n) c = Some s \<Longrightarrow> end_loop c n = (r, n') \<Longrightarrow>
    r = Inr () \<and> (\<forall>p. lock_table n' p = spec_drop c (lock_table n p)) \<and>
    om_find (sessions n') c = Some (s\<lparr>session_locks := []\<rparr>)"
proof (induction c n arbitrary: s r n' rule: end_loop.induct)
  case (1 c n)
  show ?case
  proof (cases "session_locks s")
    case Nil
    with "1.prems" no_locks_no_owner [OF "1.prems"(1,3) Nil] show ?thesis
      by (simp add: end_loop.simps spec_drop_idle)
  next
    case (Cons e es)
    have h: "holds c (fst e) n" "is_exists (fst e) n"
      using "1.prems"(2,3) Cons by (simp_all add: all_owned_def)
    obtain n1 where n1: "release_lock c (fst e) n = (Inr status_OK, n1)" "strong_inv n1" "all_owned c n1"
      "lock_table n1 = (lock_table n)(fst e := spec_drop c (lock_table n (fst e)))"
      "om_find (sessions n1) c = Some (s\<lparr>session_locks := om_erase (fst e) (session_locks s)\<rparr>)"
      using release_owned [OF "1.prems"(1) h "1.prems"(2,3)] .
    have "end_loop c n1 = (r, n')"
      using "1.prems"(3,4) Cons n1(1) by (subst (asm) end_loop.simps) (simp add: status_OK_def)
    with "1.IH" [OF "1.prems"(3) Cons n1(1) [symmetric] refl _ n1(2,3,5)]
    show ?thesis by (simp add: status_OK_def n1(4) spec_drop_idem)
  qed
qed

section \<open>The other clients\<close>

lemma release_frame:
  assumes inv: "strong_inv n" and rel: "release_lock c p n = (r, n')" and d: "d \<noteq> c"
  shows "holds d q n' = holds d q n"
proof -
  have inv': "strong_inv n'"
    using release_lock_node_inv release_lock_recorded inv rel by (auto simp: strong_inv_def)
  obtain st where "lock_table n' =
      (if ok st then (lock_table n)(p := the (spec_release c (lock_table n p))) else lock_table n)"
    "ok st \<longleftrightarrow> is_exists p n \<and> spec_release c (lock_table n p) \<noteq> None"
    using release_table [OF inv rel] by metis
  then show ?thesis
    using d by (auto simp: holds_table(1) [OF inv] holds_table(1) [OF inv'] spec_release_def split: if_splits)
qed

lemma end_session_frame_holds:
  assumes inv: "strong_inv n" and e: "end_session c n = (r, n')" and d: "d \<noteq> c"
  shows "holds d q n' = holds d q n"
proof -
  let ?n = "n\<lparr>sessions := upd_session c (\<lambda>s. s\<lparr>terminated := True\<rparr>) (sessions n)\<rparr>"
  have "strong_inv n' \<and> holds d q n' = holds d q n"
  proof (rule end_loop_keeps [where P = "\<lambda>m. strong_inv m \<and> holds d q m = holds d q n" and n = ?n and c = c and r = r])
    show "strong_inv m' \<and> holds d q m' = holds d q n"
      if "strong_inv m \<and> holds d q m = holds d q n" "release_lock c p m = (r, m')" for p m r m'
      using that release_frame [OF _ that(2) d] release_lock_node_inv release_lock_recorded
      by (auto simp: strong_inv_def)
    have "holds d q ?n = holds d q n"
      by (rule holds_frame) (use d in \<open>simp_all add: slocks_upd_session\<close>)
    then show "strong_inv ?n \<and> holds d q ?n = holds d q n"
      using inv by (simp add: strong_inv_def mark_terminated_inv)
    show "end_loop c ?n = (r, n')" using e by (simp add: end_session_def)
  qed
  then show ?thesis ..
qed

end
