(* ===== verification/DeadSession.thy ===== *)
theory DeadSession
  imports SessionEnd
begin

text \<open>
  A terminated session is terminated for good: no operation of the node clears its flag or
  extends its lease, \<^verbatim>\<open>create_session\<close> included, since \<^verbatim>\<open>map::insert\<close> leaves the entry it
  finds.
\<close>

definition dead_in :: "string \<Rightarrow> int \<Rightarrow> (string, 'ch Session) omap \<Rightarrow> bool" where
  "dead_in c L m \<longleftrightarrow>
     (case om_find m c of None \<Rightarrow> False | Some s \<Rightarrow> terminated s \<and> lease_length s = L)"

definition dead :: "string \<Rightarrow> int \<Rightarrow> ('ch, 's) node \<Rightarrow> bool" where
  "dead c L n \<longleftrightarrow> dead_in c L (sessions n)"

named_theorems keeps_dead

lemma dead_upd:
  "(\<And>s. terminated s \<Longrightarrow> terminated (f s) \<and> lease_length (f s) = lease_length s) \<Longrightarrow>
    dead_in c L m \<Longrightarrow> dead_in c L (upd_session d f m)"
  by (auto simp: dead_in_def find_upd_session split: option.splits)

lemma dead_insert: "dead_in c L m \<Longrightarrow> dead_in c L (om_insert d s m)"
  by (auto simp: dead_in_def find_insert split: option.splits)

lemma dead_frame [simp]:
  "dead c L (n\<lparr>n_fs := fs\<rparr>) = dead c L n" "dead c L (n\<lparr>n_sm := sm\<rparr>) = dead c L n"
  "dead c L (n\<lparr>threads := ts\<rparr>) = dead c L n" "dead c L (n\<lparr>locks := ls\<rparr>) = dead c L n"
  "dead c L (n\<lparr>lock_heap := h\<rparr>) = dead c L n"
  by (simp_all add: dead_def)

lemma dead_new_lock: "dead c L n \<Longrightarrow> dead c L (new_lock d p n)"
  by (simp add: dead_def new_lock_def Let_def dead_upd)

lemma dead_grant_lock: "dead c L n \<Longrightarrow> dead c L (grant_lock d p a st n)"
  by (simp add: dead_def grant_lock_def dead_upd)

lemma dead_released: "dead c L n \<Longrightarrow> dead c L (released d p a n)"
  by (simp add: dead_def released_def dead_upd)

lemma dead_push: "dead c L n \<Longrightarrow> dead c L (push_reply C d n)"
  by (simp add: dead_def push_reply_def dead_upd)

lemma dead_create [keeps_dead]: "create_session C now d n = (st, n') \<Longrightarrow> dead c L n \<Longrightarrow> dead c L n'"
  by (auto simp: create_session_def Let_def dead_def dead_insert split: option.splits if_splits)

lemma dead_load: "load_lock d p n = (a, n') \<Longrightarrow> dead c L n \<Longrightarrow> dead c L n'"
  by (auto simp: load_lock_def dead_new_lock split: option.splits)

lemma dead_claim: "claim_lock d p m a n = (st, n') \<Longrightarrow> dead c L n \<Longrightarrow> dead c L n'"
  by (auto simp: claim_lock_def Let_def dead_grant_lock split: LockStatus.splits if_splits)

lemma dead_acquire [keeps_dead]:
  assumes "acquire_lock d p m n = (st, n')" and "dead c L n"
  shows "dead c L n'"
proof -
  obtain a n1 where l: "load_lock d p n = (a, n1)" by fastforce
  then have "dead c L n1" using assms(2) by (rule dead_load)
  with assms l show ?thesis
    by (auto simp: acquire_lock_def dead_claim split: option.splits if_splits)
qed

lemma dead_release [keeps_dead]:
  assumes "release_lock d p n = (r, n')" and "dead c L n"
  shows "dead c L n'"
  using assms(1) by (cases rule: release_lock_cases) (use assms(2) in \<open>simp_all add: dead_released\<close>)

lemma dead_end [keeps_dead]: "dead c L n \<Longrightarrow> end_session d n = (r, n') \<Longrightarrow> dead c L n'"
  unfolding end_session_def
  by (rule end_loop_keeps [where P = "dead c L"], erule (1) dead_release [rotated])
    (simp_all add: dead_def dead_upd)

lemma dead_extend [keeps_dead]:
  assumes "attempt_extend_session C d n = (r, n')" and "dead c L n"
  shows "dead c L n'"
proof (cases "om_find (sessions n) d")
  case None
  with assms show ?thesis by (simp add: attempt_extend_session_def)
next
  case (Some s)
  with assms show ?thesis
    by (cases "ch_pop C (block_reply s)"; cases "terminated s")
      (auto simp: attempt_extend_session_def Let_def dead_def dead_in_def find_upd_session split: if_splits)
qed

lemma dead_open: "open_lock S oc rn d p n = (r, n') \<Longrightarrow> dead c L n \<Longrightarrow> dead c L n'"
  by (erule open_lock_cases) (simp_all add: dead_new_lock)

lemma dead_write: "server_write S oc rn d p t n = (r, n') \<Longrightarrow> dead c L n \<Longrightarrow> dead c L n'"
  by (auto simp: server_write_def split: option.splits if_splits prod.splits sum.splits)

lemma dead_delete: "delete_lock d p n = (r, n') \<Longrightarrow> dead c L n \<Longrightarrow> dead c L n'"
  by (erule delete_lock_cases) (simp_all add: dead_def dead_upd)

lemma dead_step:
  assumes d: "dead c L n"
  shows "dead c L (apply_op S A C n e)"
proof (cases e)
  case (CloseSession d)
  have "dead c L n'" if "close_session d n = (r, n')" for r n'
    using close_session_keeps [where P = "dead c L", OF _ d that] dead_end [OF d] by blast
  then show ?thesis by (simp add: CloseSession) (metis prod.collapse)
next
  case (Jeopardy now d ls)
  have "dead c L n'" if "handle_jeopardy C now d ls n = (r, n')" for r n'
    by (rule handle_jeopardy_keeps [where P = "dead c L", OF _ _ _ _ that])
      (use assms in \<open>auto intro: keeps_dead\<close>)
  then show ?thesis by (simp add: Jeopardy) (metis prod.collapse)
next
  case (ThreadStep i now1 now2)
  have "dead c L n'" if "maintain_session C i now1 now2 n = (r, n')" for r n'
    by (rule maintain_session_keeps [where P = "dead c L", OF _ d _ _ that])
      (use assms in \<open>auto intro: dead_end dead_push\<close>)
  then show ?thesis by (simp add: ThreadStep) (metis prod.collapse)
next
  case (Replicate r idx data)
  then show ?thesis using d by (simp split: prod.split)
next
  case (CreateSession now c)
  then show ?thesis using dead_create d by (metis apply_op.simps(1) prod.collapse)
next
  case (OpenLock oc r c p)
  then show ?thesis using dead_open d by (metis apply_op.simps(3) prod.collapse)
next
  case (DeleteLock c p)
  then show ?thesis using dead_delete d by (metis apply_op.simps(4) prod.collapse)
next
  case (AcquireLock c p m)
  then show ?thesis using dead_acquire d by (metis apply_op.simps(5) prod.collapse)
next
  case (ReleaseLock c p)
  then show ?thesis using dead_release d by (metis apply_op.simps(6) prod.collapse)
next
  case (WriteFile oc r c p t)
  then show ?thesis using dead_write d by (metis apply_op.simps(7) prod.collapse)
next
  case (KeepAlive c)
  then show ?thesis using dead_extend d by (metis apply_op.simps(8) prod.collapse)
qed (use d in simp_all)

interpretation dead_run: invariant_machine "apply_op S A C" "\<lambda>_ _. True" "dead c L" for S A C c L
  by unfold_locales (rule dead_step)

end
