(* ===== verification/Examples.thy ===== *)
theory Examples
  imports DeadSession
begin

text \<open>
  A concrete node on which the properties are instantiated: server 1 in the directory
  \<^verbatim>\<open>/d\<close>, an empty file system, the item serializer, the list channel and snapshots that are
  their own log index.
\<close>

definition demo_conf :: config where
  "demo_conf = \<lparr>directory = ''d'', server_id = 1, cwd = ''/''\<rparr>"

definition demo_snap :: "(u64, item_buffer) snapshot_api" where
  "demo_snap =
     \<lparr>get_last_log_idx = id,
      snapshot_serialize = (\<lambda>i. (0, [U64 i], [U64 i])),
      snapshot_deserialize = (\<lambda>b. case fst (snd b) of U64 i # _ \<Rightarrow> i | _ \<Rightarrow> 0)\<rparr>"

lemma demo_snap_law: "snapshot_law demo_snap"
  by (simp add: snapshot_law_def demo_snap_def)

definition demo_init :: "(int list, u64) node" where
  "demo_init = init_server_info demo_conf [] (sm_init False)"

definition demo_run :: "(item_buffer, u64) node_op list \<Rightarrow> (int list, u64) node" where
  "demo_run ops = foldl (apply_op item_ser demo_snap list_chan) demo_init ops"

text \<open>Client \<open>c\<close> opens and owns \<open>f\<close>; then \<open>d\<close> has a session too.\<close>

definition demo_ops :: "(item_buffer, u64) node_op list" where
  "demo_ops =
     [CreateSession 0 ''c'', OpenLock (Committed 1) 7 ''c'' ''f'', AcquireLock ''c'' ''f'' EXCLUSIVE,
      CreateSession 5 ''d'']"

definition demo_node :: "(int list, u64) node" where
  "demo_node = demo_run demo_ops"

lemma demo_guarded:
  "all_guarded (apply_op item_ser demo_snap list_chan) deletes_existing demo_init demo_ops"
  by code_simp

lemma demo_strong: "strong_inv demo_node"
  unfolding demo_node_def demo_run_def demo_init_def
  by (rule safe_run.run_keeps [OF init_strong_inv demo_guarded [unfolded demo_init_def]])

lemma demo_inv: "node_inv demo_node"
  using demo_strong by (simp add: strong_inv_def)

text \<open>The session of \<open>c\<close>, and the node after it was closed.\<close>

definition demo_session :: "int list Session" where
  "demo_session =
     \<lparr>client_id = ''c'', start_time = 0, lease_length = 15000, block_reply = [],
      session_locks = [(''f'', 0)], terminated = False\<rparr>"

definition demo_closed :: "(int list, u64) node" where
  "demo_closed = snd (close_session ''c'' demo_node)"

lemma demo_session: "om_find (sessions demo_node) ''c'' = Some demo_session"
  by code_simp

lemma demo_closed_session:
  "om_find (sessions demo_closed) ''c'' = Some (demo_session\<lparr>session_locks := [], terminated := True\<rparr>)"
  by code_simp

lemma demo_close: "close_session ''c'' demo_node = (Inr status_OK, demo_closed)"
proof -
  have "fst (close_session ''c'' demo_node) = Inr status_OK" by code_simp
  then show ?thesis by (simp add: demo_closed_def prod_eq_iff)
qed

end
