(* ===== verification/LockProperties.thy ===== *)
theory LockProperties
  imports Examples
begin

text \<open>
  The properties of the lock service: exclusion, the lock table, releasing, ending a session.
\<close>

section \<open>Exclusion\<close>

text \<open>C1: From an empty server, after any sequence of operations in which \<^verbatim>\<open>delete_lock\<close> is
  only called on files that exist (sessions opened, closed and expired, locks opened, acquired
  and released, writes, jeopardy recoveries, replicated entries, snapshots and arbitrary
  changes of the file system), a client that holds a path exclusively is the only client that
  holds it.\<close>

theorem mutual_exclusion:
  assumes "all_guarded (apply_op S A C) deletes_existing (init_server_info conf fs sm) ops"
    and "holds_exclusively c p (foldl (apply_op S A C) (init_server_info conf fs sm) ops)"
    and "holds d p (foldl (apply_op S A C) (init_server_info conf fs sm) ops)"
  shows "d = c"
proof -
  have inv: "strong_inv (foldl (apply_op S A C) (init_server_info conf fs sm) ops)"
    using safe_run.run_keeps [OF init_strong_inv assms(1)] .
  show ?thesis
    using assms(2,3) holds_table(1) [OF inv, of d p] holds_table(2) [OF inv, of c p] by simp
qed

theorem mutual_exclusion_witness:
  "holds_exclusively ''c'' ''f'' demo_node \<and> \<not> holds ''d'' ''f'' demo_node"
proof -
  have he: "holds_exclusively ''c'' ''f'' demo_node" by code_simp
  show ?thesis
    using mutual_exclusion [OF demo_guarded [unfolded demo_init_def], of "''c''" "''f''" "''d''"] he
    unfolding demo_node_def demo_run_def demo_init_def by auto
qed

text \<open>C11: After any sequence of operations whatever, every lock in memory has an owner list that
  agrees with its mode (none when free, one when exclusive, at least one when shared), all
  owner flags are set, and the tables map every path to a lock of that path.\<close>

theorem lock_modes_agree:
  assumes "a < length (lock_heap (foldl (apply_op S A C) (init_server_info conf fs sm) ops))"
  shows "case foldl (apply_op S A C) (init_server_info conf fs sm) ops of n \<Rightarrow>
      (case status (lock_heap n ! a) of FREE \<Rightarrow> owners (lock_heap n ! a) = []
       | EXCLUSIVE \<Rightarrow> \<exists>c. owners (lock_heap n ! a) = [(c, True)]
       | SHARED \<Rightarrow> owners (lock_heap n ! a) \<noteq> []) \<and>
      (\<forall>e \<in> set (owners (lock_heap n ! a)). snd e) \<and>
      (\<forall>p b. om_find (locks n) p = Some b \<longrightarrow> lock_path (lock_heap n ! b) = p)"
proof -
  define n where "n = foldl (apply_op S A C) (init_server_info conf fs sm) ops"
  have inv: "node_inv n"
    unfolding n_def by (rule reachable_inv)
  have ok: "lock_ok (lock_heap n ! a)" using inv assms by (simp add: node_inv_def n_def)
  have "case status (lock_heap n ! a) of FREE \<Rightarrow> owners (lock_heap n ! a) = []
       | EXCLUSIVE \<Rightarrow> \<exists>c. owners (lock_heap n ! a) = [(c, True)]
       | SHARED \<Rightarrow> owners (lock_heap n ! a) \<noteq> []"
    using ok by (auto simp: lock_ok_def length_Suc_conv split: LockStatus.splits)
  with ok inv show ?thesis
    unfolding n_def [symmetric] by (auto simp: lock_ok_def node_inv_def points_def)
qed

theorem lock_modes_agree_witness:
  "owners (lock_heap demo_node ! 0) = [(''c'', True)]"
proof -
  have n: "0 < length (lock_heap demo_node)" "status (lock_heap demo_node ! 0) = EXCLUSIVE"
    "map fst (owners (lock_heap demo_node ! 0)) = [''c'']"
    by code_simp+
  have "\<exists>c. owners (lock_heap demo_node ! 0) = [(c, True)]"
    using lock_modes_agree [of 0 item_ser demo_snap list_chan demo_conf "[]" "sm_init False" demo_ops] n
    unfolding demo_node_def demo_run_def demo_init_def by simp
  with n(3) show ?thesis by auto
qed

text \<open>C12: Every node that operations reach is well typed: its maps are sorted by distinct keys, a
  session is filed under its own client, a pointer in \<^verbatim>\<open>info::locks\<close> or in a session's locks is
  one to an existing lock of the path it is filed under, and the owners of every lock in memory
  are a well-formed map. So no handler follows a dangling pointer.\<close>

theorem node_well_typed:
  "case foldl (apply_op S A C) (init_server_info conf fs sm) ops of n \<Rightarrow>
     om_wf (locks n) \<and> om_wf (sessions n) \<and> list_all (\<lambda>(p, a). points n p a) (locks n) \<and>
     list_all (\<lambda>(c, s). client_id s = c \<and> om_wf (session_locks s) \<and>
       list_all (\<lambda>(p, a). points n p a) (session_locks s)) (sessions n) \<and>
     list_all (\<lambda>l. om_wf (owners l)) (lock_heap n)"
  by (rule node_inv_typed [OF reachable_inv])


text \<open>On a file that exists, which is when it should work, \<^verbatim>\<open>delete_lock\<close> refuses every
  request and changes nothing: its guard on the file's existence is inverted.\<close>

theorem delete_lock_refuses:
  assumes "is_exists p n"
  shows "\<exists>msg. delete_lock c p n = (Inr (ABORTED, msg), n)"
  using delete_lock_exists [OF assms, of c] by (metis prod.collapse)

theorem delete_lock_refuses_witness:
  "\<exists>msg. delete_lock ''c'' ''f'' demo_node = (Inr (ABORTED, msg), demo_node)"
proof (rule delete_lock_refuses)
  show "is_exists ''f'' demo_node" by code_simp
qed

section \<open>The lock table\<close>

text \<open>C2: \<^verbatim>\<open>acquire_lock\<close> refines the abstract lock table on every branch. It answers OK exactly
  when the client has a session, the file exists and the table grants the request (the lock is
  free, or shared and asked for in shared mode); then the table's entry is the granted one and
  the client holds the lock, and otherwise nothing at all has changed.\<close>

theorem acquire_refines:
  assumes "node_inv n" and "acquire_lock c p mode n = (st, n')"
  shows "(ok st \<longleftrightarrow> om_find (sessions n) c \<noteq> None \<and> is_exists p n
            \<and> spec_acquire c mode (lock_table n p) \<noteq> None)
    \<and> (if ok st
       then lock_table n' = (lock_table n)(p := the (spec_acquire c mode (lock_table n p))) \<and> holds c p n'
       else n' = n)"
proof (cases "ok st")
  case False
  then show ?thesis
    using acquire_refused_same [OF assms] by (intro conjI acquire_table(1) [OF assms]) simp
next
  case True
  with acquire_table [OF assms] acquire_holds [OF assms] show ?thesis by simp
qed

theorem acquire_refines_witness:
  "acquire_lock ''d'' ''f'' SHARED demo_node =
     ((ABORTED, ''Someone already holds the lock in exclusive mode''), demo_node) \<and>
   spec_acquire ''d'' SHARED (lock_table demo_node ''f'') = None"
proof -
  have a: "acquire_lock ''d'' ''f'' SHARED demo_node =
     ((ABORTED, ''Someone already holds the lock in exclusive mode''), snd (acquire_lock ''d'' ''f'' SHARED demo_node))"
    by code_simp
  have "om_find (sessions demo_node) ''d'' \<noteq> None" "is_exists ''f'' demo_node" by code_simp+
  with acquire_refines [OF demo_inv a] have "snd (acquire_lock ''d'' ''f'' SHARED demo_node) = demo_node"
    "spec_acquire ''d'' SHARED (lock_table demo_node ''f'') = None"
    by (simp, cases "spec_acquire ''d'' SHARED (lock_table demo_node ''f'')") auto
  with a show ?thesis by simp
qed



text \<open>Acquiring a free lock in any mode and releasing it again gives back the lock table.\<close>

theorem acquire_release_roundtrip:
  assumes "strong_inv n" and "om_find (sessions n) c \<noteq> None" and "is_exists p n"
    and "mode \<noteq> FREE" and "lock_table n p = (FREE, {})"
  shows "case acquire_lock c p mode n of (st, n1) \<Rightarrow> ok st \<and>
    (case release_lock c p n1 of (r, n2) \<Rightarrow> r = Inr status_OK \<and> lock_table n2 = lock_table n)"
proof -
  obtain st n1 where a: "acquire_lock c p mode n = (st, n1)" by fastforce
  obtain r n2 where r: "release_lock c p n1 = (r, n2)" by fastforce
  have inv1: "strong_inv n1" using lock_strong assms(1) a .
  have n: "node_inv n" using assms(1) by (simp add: strong_inv_def)
  have st: "ok st" "lock_table n1 = (lock_table n)(p := (mode, {c}))"
    using acquire_table [OF n a] assms by (simp_all add: spec_acquire_def)
  have ex: "is_exists p n1"
    using n a
    by (rule acquire_lock_cases)
      (use assms(3) load_lock_props [OF n] in \<open>auto simp: is_exists_def grant_lock_simps\<close>)
  have so: "spec_release c (lock_table n1 p) = Some (FREE, {})"
    by (simp add: st spec_release_def)
  obtain st2 where st2: "r = Inr st2" "ok st2"
    "lock_table n2 = (lock_table n1)(p := (FREE, {}))"
    using release_table [OF inv1 r] so ex by auto
  have "r = Inr status_OK"
    using r by (rule release_lock_cases) (use st2 in simp_all)
  moreover have "lock_table n2 = lock_table n"
    using st2(3) assms(5) by (auto simp: st(2))
  ultimately show ?thesis using a r st(1) by simp
qed

theorem acquire_release_roundtrip_witness:
  "case acquire_lock ''d'' ''f'' SHARED (snd (release_lock ''c'' ''f'' demo_node)) of (st, n1) \<Rightarrow> ok st \<and>
    (case release_lock ''d'' ''f'' n1 of (r, n2) \<Rightarrow>
       r = Inr status_OK \<and> lock_table n2 = lock_table (snd (release_lock ''c'' ''f'' demo_node)))"
proof (rule acquire_release_roundtrip)
  show "strong_inv (snd (release_lock ''c'' ''f'' demo_node))"
    using demo_strong release_lock_node_inv release_lock_recorded unfolding strong_inv_def
    by (metis prod.collapse)
qed (code_simp+)

end
