(* ===== verification/SessionProperties.thy ===== *)
theory SessionProperties
  imports LockProperties
begin

text \<open>
  The properties of sessions: what ending one releases and what it does not, that a session
  ends for good, leases, and keep-alives.
\<close>

section \<open>Ending a session\<close>

text \<open>C4: When the client owns every lock of its session, \<^verbatim>\<open>end_session\<close> terminates normally,
  marks the session terminated, leaves it without locks, and removes the client from the
  owners of every path of the lock table, freeing those it was the last owner of.\<close>

theorem end_session_releases:
  assumes "strong_inv n" and "om_find (sessions n) c = Some s" and "all_owned c n"
    and "end_session c n = (r, n')"
  shows "r = Inr () \<and>
    om_find (sessions n') c = Some (s\<lparr>terminated := True, session_locks := []\<rparr>) \<and>
    (\<forall>p. lock_table n' p = spec_drop c (lock_table n p))"
proof -
  let ?n = "n\<lparr>sessions := upd_session c (\<lambda>s. s\<lparr>terminated := True\<rparr>) (sessions n)\<rparr>"
  have inv: "strong_inv ?n" using assms(1) by (simp add: strong_inv_def mark_terminated_inv)
  have s: "om_find (sessions ?n) c = Some (s\<lparr>terminated := True\<rparr>)"
    by (simp add: find_upd_session assms(2))
  have "holds c p ?n = holds c p n" "is_exists p ?n = is_exists p n" for p
    by (rule holds_frame) (simp_all add: slocks_upd_session slocks_def assms(2) is_exists_def find_upd_session)
  then have own: "all_owned c ?n" using assms(2,3) s by (simp add: all_owned_def)
  have "lock_table ?n = lock_table n" by (simp add: lock_table_def fun_eq_iff cong: option.case_cong)
  with end_loop_releases [OF inv own s] assms(4) show ?thesis by (simp add: end_session_def)
qed

theorem end_session_releases_witness:
  "lock_table (snd (end_session ''c'' demo_node)) ''f'' = (FREE, {})"
proof -
  obtain r n' where e: "end_session ''c'' demo_node = (r, n')" by fastforce
  have own: "all_owned ''c'' demo_node" "lock_table demo_node ''f'' = (EXCLUSIVE, {''c''})" by code_simp+
  show ?thesis
    using end_session_releases [OF demo_strong demo_session own(1) e] own(2) e
    by (simp add: spec_drop_def spec_release_def)
qed

text \<open>But \<^verbatim>\<open>end_session\<close> gives up at the first lock, in key order, that it cannot release,
  for instance one the client opened and never acquired: then it releases nothing at all, and
  reports nothing.\<close>

theorem end_session_stops:
  assumes "om_find (sessions n) c = Some s" and "session_locks s = (p, a) # rest"
    and "\<not> (is_exists p n \<and> holds c p n)"
  shows "end_session c n =
    (Inr (), n\<lparr>sessions := upd_session c (\<lambda>s. s\<lparr>terminated := True\<rparr>) (sessions n)\<rparr>)"
proof -
  let ?n = "n\<lparr>sessions := upd_session c (\<lambda>s. s\<lparr>terminated := True\<rparr>) (sessions n)\<rparr>"
  have s: "om_find (sessions ?n) c = Some (s\<lparr>terminated := True\<rparr>)"
    by (simp add: find_upd_session assms(1))
  have "holds c p ?n = holds c p n"
    by (rule holds_frame) (simp_all add: slocks_upd_session slocks_def assms(1) find_upd_session)
  then have no: "\<not> (is_exists p ?n \<and> holds c p ?n)" using assms(3) by (simp add: is_exists_def)
  obtain r n' where rel: "release_lock c p ?n = (r, n')" by fastforce
  then obtain st where "r = Inr st" "\<not> ok st" "n' = ?n"
  proof (cases rule: release_lock_cases)
    case (released b)
    then show thesis using no by (simp add: holds_def)
  next
    case (undefined b)
    then show thesis using no by (simp add: holds_def)
  qed
  with rel s assms(2) show ?thesis by (simp add: end_session_def end_loop.simps [of c ?n])
qed

text \<open>A concrete consequence. A client opens two locks, acquires the second exclusively and
  closes its session: the answer is OK, the session is terminated, yet the lock is still held,
  and another client is refused.\<close>

theorem closed_session_keeps_lock:
  "let n = demo_run
      [CreateSession 0 ''c'', CreateSession 0 ''d'', OpenLock (Committed 1) 7 ''c'' ''a'',
       OpenLock (Committed 2) 7 ''c'' ''b'', AcquireLock ''c'' ''b'' EXCLUSIVE];
       (r, n') = close_session ''c'' n
   in r = Inr status_OK \<and> holds_exclusively ''c'' ''b'' n'
      \<and> fst (acquire_lock ''d'' ''b'' SHARED n')
          = (ABORTED, ''Someone already holds the lock in exclusive mode'')"
  by code_simp

text \<open>Ending a session takes no lock away from another client and gives none to it.\<close>

theorem end_session_frame:
  assumes "strong_inv n" and "end_session c n = (r, n')" and "d \<noteq> c"
  shows "holds d p n' = holds d p n"
  using assms by (rule end_session_frame_holds)

theorem end_session_frame_witness:
  "holds ''c'' ''f'' (snd (end_session ''d'' demo_node))"
proof -
  obtain r n' where e: "end_session ''d'' demo_node = (r, n')" by fastforce
  have "holds ''c'' ''f'' demo_node" by code_simp
  with end_session_frame [OF demo_strong e, of "''c''" "''f''"] e show ?thesis by simp
qed

text \<open>\<^verbatim>\<open>close_session\<close> answers OK exactly for a session that exists and is not terminated,
  and the session is terminated afterwards.\<close>

theorem close_session_outcome:
  assumes "strong_inv n" and "close_session c n = (Inr st, n')"
  shows "(ok st \<longleftrightarrow> (case om_find (sessions n) c of None \<Rightarrow> False | Some s \<Rightarrow> \<not> terminated s)) \<and>
    (case om_find (sessions n') c of None \<Rightarrow> om_find (sessions n) c = None | Some s \<Rightarrow> terminated s)"
proof (cases "om_find (sessions n) c")
  case None
  with assms(2) show ?thesis by (auto simp: close_session_def)
next
  case (Some s)
  show ?thesis
  proof (cases "terminated s")
    case True
    with Some assms(2) show ?thesis by (auto simp: close_session_def)
  next
    case False
    obtain q n1 where e: "end_session c n = (q, n1)" by fastforce
    let ?n = "n\<lparr>sessions := upd_session c (\<lambda>s. s\<lparr>terminated := True\<rparr>) (sessions n)\<rparr>"
    have "dead c (lease_length s) ?n"
      by (simp add: dead_def dead_in_def find_upd_session Some)
    moreover have "end_loop c ?n = (q, n1)" using e by (simp add: end_session_def)
    ultimately have "dead c (lease_length s) n1"
      using end_loop_keeps [where P = "dead c (lease_length s)"] dead_release by blast
    then show ?thesis
      using Some False assms(2) e
      by (auto simp: close_session_def status_OK_def dead_def dead_in_def split: option.splits sum.splits)
  qed
qed

theorem close_session_outcome_witness:
  "case om_find (sessions demo_closed) ''c'' of None \<Rightarrow> False | Some s \<Rightarrow> terminated s"
  using close_session_outcome [OF demo_strong demo_close] demo_session
  by (simp add: demo_closed_session)

section \<open>A terminated session\<close>

text \<open>C13: A terminated session is terminated for good: after any operations, a new
  \<^verbatim>\<open>create_session\<close> for the client included, it is still terminated and its lease length
  has not changed. (\<^verbatim>\<open>create_session\<close> answers OK for such a client, and its new session is
  dropped by \<^verbatim>\<open>map::insert\<close>.)\<close>

theorem terminated_forever:
  assumes "om_find (sessions n) c = Some s" and "terminated s"
  shows "\<exists>s'. om_find (sessions (foldl (apply_op S A C) n ops)) c = Some s'
    \<and> terminated s' \<and> lease_length s' = lease_length s"
proof -
  have "dead c (lease_length s) n" using assms by (simp add: dead_def dead_in_def)
  then have "dead c (lease_length s) (foldl (apply_op S A C) n ops)"
    by (rule dead_run.run_keeps) (simp add: all_guarded_True)
  then show ?thesis by (auto simp: dead_def dead_in_def split: option.splits)
qed

theorem terminated_forever_witness:
  "\<exists>s'. om_find (sessions (foldl (apply_op item_ser demo_snap list_chan) demo_closed
          [CreateSession 99 ''c'', KeepAlive ''c''])) ''c'' = Some s' \<and> terminated s' \<and> lease_length s' = 15000"
  using terminated_forever [OF demo_closed_session, of item_ser demo_snap list_chan "[CreateSession 99 ''c'', KeepAlive ''c'']"]
  by (simp add: demo_session_def)

text \<open>\<^verbatim>\<open>create_session\<close> after a terminated session answers OK, starts a thread, and leaves the
  table of sessions as it was.\<close>

theorem create_session_keeps_terminated:
  assumes "om_find (sessions n) c = Some s" and "terminated s"
  shows "create_session C now c n = (status_OK, n\<lparr>threads := threads n @ [(c, False)]\<rparr>)"
  using assms by (simp add: create_session_def om_insert_def Let_def)

theorem create_session_keeps_terminated_witness:
  "create_session list_chan 99 ''c'' demo_closed =
    (status_OK, demo_closed\<lparr>threads := threads demo_closed @ [(''c'', False)]\<rparr>)"
  using create_session_keeps_terminated [OF demo_closed_session] by simp

theorem end_session_stops_witness:
  "let n = demo_run [CreateSession 0 ''c'', OpenLock (Committed 1) 7 ''c'' ''a'']
   in end_session ''c'' n =
     (Inr (), n\<lparr>sessions := upd_session ''c'' (\<lambda>s. s\<lparr>terminated := True\<rparr>) (sessions n)\<rparr>)"
proof -
  let ?n = "demo_run [CreateSession 0 ''c'', OpenLock (Committed 1) 7 ''c'' ''a'']"
  have s: "om_find (sessions ?n) ''c'' = Some (demo_session\<lparr>session_locks := [(''a'', 0)]\<rparr>)" by code_simp
  have h: "\<not> (is_exists ''a'' ?n \<and> holds ''c'' ''a'' ?n)" by code_simp
  show ?thesis using end_session_stops [OF s _ h] by (simp add: Let_def)
qed

end
