(* ===== verification/Replication.thy ===== *)
theory Replication
  imports Consensus
begin

text \<open>
  What a sequence of committed writes leaves on disk. A lock's file name is taken to be one
  path component that does not look like one of the commit's own temporary files; then
  nothing is in the way, every commit succeeds, and the last write to a name is what the
  file holds, on every server alike.
\<close>

section \<open>Files directly below the server's directory\<close>

definition flat_name :: "string \<Rightarrow> bool" where
  "flat_name q \<longleftrightarrow> q \<noteq> [] \<and> sep \<notin> set q"

definition lock_name :: "string \<Rightarrow> bool" where
  "lock_name q \<longleftrightarrow> flat_name q \<and> drop (length q - 4) q \<noteq> ''.tmp''"

lemma flat_plain: "flat_name q \<Longrightarrow> plain_name q"
proof -
  have "sep \<notin> set q \<Longrightarrow> single_seps q" by (induction q rule: single_seps.induct) auto
  then show "flat_name q \<Longrightarrow> plain_name q" by (cases q) (auto simp: flat_name_def plain_name_def)
qed

lemma single_seps_snoc: "single_seps p \<Longrightarrow> p \<noteq> [] \<Longrightarrow> last p \<noteq> sep \<Longrightarrow> single_seps (p @ [sep])"
  by (induction p rule: single_seps.induct) auto

lemma to_string_no_sep: "to_string i \<noteq> [] \<and> sep \<notin> set (to_string i)"
proof -
  have "sep \<notin> set (digits_of n)" for n
    using digits_of_digits [of sep n] by (auto simp: is_digit_def sep_def)
  then show ?thesis by (auto simp: to_string_def digits_of_nonempty sep_def)
qed

lemma base_directory_props:
  assumes "is_absolute (cwd conf)"
  shows "is_absolute (base_directory conf)" and "single_seps (base_directory conf)"
    and "last (base_directory conf) \<noteq> sep"
proof -
  show "is_absolute (base_directory conf)"
    using assms by (simp add: base_directory_def concatenatePath_is_absolute)
  show "single_seps (base_directory conf)"
    by (simp add: base_directory_def concatenatePath_def generic_string_single)
  have "last (to_string (server_id conf)) \<noteq> sep" using to_string_no_sep by (metis last_in_set)
  moreover have "\<not> is_absolute (to_string (server_id conf))"
    using to_string_no_sep hd_in_set unfolding is_absolute_def by metis
  ultimately show "last (base_directory conf) \<noteq> sep"
    using to_string_no_sep [of "server_id conf"]
    by (auto simp: base_directory_def concatenatePath_def fs_absolute_def path_append_def generic_string_last)
qed

definition file_of :: "config \<Rightarrow> string \<Rightarrow> string" where
  "file_of conf q = base_directory conf @ [sep] @ q"

lemma mapped_path_flat: "is_absolute (cwd conf) \<Longrightarrow> flat_name q \<Longrightarrow> mapped_path conf q = file_of conf q"
  using base_directory_props [of conf] flat_plain [of q]
    generic_string_idle [OF single_seps_snoc [of "base_directory conf"]]
  by (auto simp: mapped_path_def concatenatePath_plain file_of_def is_absolute_def)

definition temp_name :: "string \<Rightarrow> nat \<Rightarrow> string" where
  "temp_name q r = q @ ''_'' @ to_string (int r) @ ''.tmp''"

lemma temp_path_file: "temp_path (file_of conf q) r = file_of conf (temp_name q r)"
  by (simp add: temp_path_def file_of_def temp_name_def)

lemma temp_name_flat: "flat_name q \<Longrightarrow> flat_name (temp_name q r)"
  using temp_suffix_no_sep [of r] by (auto simp: flat_name_def temp_name_def)

lemma lock_name_not_temp: "lock_name q \<Longrightarrow> q \<noteq> temp_name p r"
  by (auto simp: lock_name_def temp_name_def)

lemma file_of_inject [simp]: "file_of conf p = file_of conf q \<longleftrightarrow> p = q"
  by (simp add: file_of_def)

section \<open>One write\<close>

definition dir_ready :: "config \<Rightarrow> fs \<Rightarrow> bool" where
  "dir_ready conf fs \<longleftrightarrow>
     (\<forall>d \<in> set (dir_chain (base_directory conf)). \<forall>c. om_find fs d \<noteq> Some (Regular c)) \<and>
     (\<forall>q. flat_name q \<longrightarrow> om_find fs (file_of conf q) \<noteq> Some Directory)"

lemma empty_dir_ready: "dir_ready conf []"
  by (simp add: dir_ready_def)

lemma make_dirs_clear:
  "(\<And>d c. d \<in> set ds \<Longrightarrow> om_find fs d \<noteq> Some (Regular c)) \<Longrightarrow> \<exists>fs'. make_dirs ds fs = Some fs'"
proof (induction ds arbitrary: fs)
  case (Cons d ds)
  show ?case
  proof (cases "om_find fs d")
    case None
    have "\<exists>fs'. make_dirs ds (om_assign d Directory fs) = Some fs'"
      using Cons.prems by (intro Cons.IH) (auto simp: find_assign)
    with None show ?thesis by simp
  next
    case (Some x)
    with Cons.prems [of d] have "x = Directory" by (cases x) auto
    with Some Cons show ?thesis by simp
  qed
qed simp

lemma file_not_in_chain: "file_of conf q \<notin> set (dir_chain (base_directory conf))"
  using dir_chain_length [of "file_of conf q" "base_directory conf"] by (auto simp: file_of_def)

lemma write_step:
  assumes abs: "is_absolute (cwd conf)" and ready: "dir_ready conf fs" and q: "flat_name q"
  obtains fs' where "commit_write (mapped_path conf q) r c fs = Some fs'" and "dir_ready conf fs'"
    and "\<And>p. flat_name p \<Longrightarrow> om_find fs' (file_of conf p) =
      (if p = q then Some (Regular c) else if p = temp_name q r then None
       else om_find fs (file_of conf p))"
proof -
  let ?m = "mapped_path conf q"
  have m: "?m = file_of conf q" using mapped_path_flat abs q .
  have base: "base_directory conf \<noteq> []" using base_directory_props(1) [OF abs] by (simp add: is_absolute_def)
  have parent: "parent_path ?m = base_directory conf"
    using parent_path_name(1) [of q "base_directory conf"] q base by (simp add: m file_of_def flat_name_def)
  obtain fs1 where fs1: "create_directories (parent_path ?m) fs = Some fs1"
    using make_dirs_clear [of "dir_chain (base_directory conf)" fs] ready
    by (auto simp: parent create_directories_def dir_ready_def)
  have "last q \<noteq> sep" using q last_in_set unfolding flat_name_def by metis
  then have "last ?m \<noteq> sep" using q by (simp add: m file_of_def flat_name_def)
  then have "write_ready fs ?m r"
    using fs1 ready q temp_name_flat [OF q] mapped_path_absolute [OF abs] mapped_path_single
    by (simp add: write_ready_def m temp_path_file dir_ready_def) (metis m)
  then obtain fs2 fs' where fs2: "create_directories (parent_path ?m) fs = Some fs2"
    and w: "commit_write ?m r c fs = Some fs'"
    and f: "om_find fs' = (om_find fs2)(temp_path ?m r := None, ?m \<mapsto> Regular c)"
    by (rule commit_write_ready)
  have mk: "make_dirs (dir_chain (base_directory conf)) fs = Some fs2"
    using fs2 by (simp add: parent create_directories_def)
  have look: "om_find fs' (file_of conf p) =
      (if p = q then Some (Regular c) else if p = temp_name q r then None
       else om_find fs (file_of conf p))" for p
    using make_dirs_others [OF mk file_not_in_chain] by (simp add: f m temp_path_file)
  have "om_find fs' d = Some Directory" if "d \<in> set (dir_chain (base_directory conf))" for d
  proof -
    have "d \<noteq> file_of conf q" "d \<noteq> file_of conf (temp_name q r)"
      using that file_not_in_chain by blast+
    then show ?thesis using make_dirs_made [OF mk that] by (simp add: f m temp_path_file)
  qed
  then have "dir_ready conf fs'"
    using ready by (simp add: dir_ready_def look)
  with w look show thesis by (intro that)
qed

section \<open>Sequences of writes\<close>

text \<open>NuRaft's commit thread: the entries in order, each with the number \<^verbatim>\<open>rand()\<close> gives.\<close>

fun commit_all ::
    "'b ser \<Rightarrow> config \<Rightarrow> (nat \<times> u64 \<times> 'b) list \<Rightarrow> 's sm_state \<Rightarrow> fs \<Rightarrow> unit result \<times> 's sm_state \<times> fs" where
  "commit_all S conf [] sm fs = (Inr (), sm, fs)"
| "commit_all S conf ((random, idx, data) # es) sm fs =
     (case commit S conf random idx data sm fs of
        (Inl e, sm', fs') \<Rightarrow> (Inl e, sm', fs')
      | (Inr _, sm', fs') \<Rightarrow> commit_all S conf es sm' fs')"

type_synonym write_cmd = "nat \<times> u64 \<times> string \<times> string"

fun encodes :: "'b ser \<Rightarrow> write_cmd \<Rightarrow> nat \<times> u64 \<times> 'b \<Rightarrow> bool" where
  "encodes S (r, i, p, c) (r', i', b) \<longleftrightarrow>
     r' = r \<and> i' = i \<and> enc_log S \<lparr>op_kind = WRITE, op_path = p, op_content = c\<rparr> = Inr b"

fun names_lock :: "write_cmd \<Rightarrow> bool" where
  "names_lock (r, i, p, c) = lock_name p"

definition last_write :: "write_cmd list \<Rightarrow> string \<Rightarrow> string option" where
  "last_write ws = map_of (rev (map (\<lambda>(r, i, p, c). (p, c)) ws))"

lemma last_write_Cons:
  "last_write ((r, i, p, c) # ws) q = (case last_write ws q of None \<Rightarrow> if q = p then Some c else None | Some x \<Rightarrow> Some x)"
  by (auto simp: last_write_def map_add_def split: option.split)

lemma commit_all_writes:
  assumes law: "ser_law S room written pending" and abs: "is_absolute (cwd conf)"
  shows "list_all2 (encodes S) ws es \<Longrightarrow> list_all names_lock ws \<Longrightarrow>
    dir_ready conf fs \<Longrightarrow>
    \<exists>sm' fs'. commit_all S conf es sm fs = (Inr (), sm', fs') \<and> dir_ready conf fs' \<and>
      last_committed_idx sm' = (if ws = [] then last_committed_idx sm else fst (snd (last ws))) \<and>
      (\<forall>q. lock_name q \<longrightarrow> om_find fs' (file_of conf q) =
         (case last_write ws q of None \<Rightarrow> om_find fs (file_of conf q) | Some c \<Rightarrow> Some (Regular c)))"
proof (induction ws arbitrary: es sm fs)
  case Nil
  then show ?case by (simp add: last_write_def)
next
  case (Cons w ws)
  obtain r i p c where w: "w = (r, i, p, c)" by (cases w)
  then obtain b es' where es: "es = (r, i, b) # es'" "list_all2 (encodes S) ws es'"
    and b: "enc_log S \<lparr>op_kind = WRITE, op_path = p, op_content = c\<rparr> = Inr b"
    using Cons.prems(1) by (auto simp: list_all2_Cons1)
  have fits: "payload_fits \<lparr>op_kind = WRITE, op_path = p, op_content = c\<rparr>"
    using enc_log_overflow [OF law] b by (metis Inl_Inr_False)
  have wb: "written b = [I32 (op_code WRITE), Str p, Str c]"
    using enc_log_written [OF law fits] b by auto
  have p: "flat_name p" "lock_name p" using Cons.prems(2) w by (auto simp: lock_name_def)
  obtain fs1 where fs1: "commit_write (mapped_path conf p) r c fs = Some fs1" "dir_ready conf fs1"
    "\<And>q. flat_name q \<Longrightarrow> om_find fs1 (file_of conf q) =
      (if q = p then Some (Regular c) else if q = temp_name p r then None
       else om_find fs (file_of conf q))"
    using write_step [OF abs Cons.prems(3) p(1), of r c] by blast
  obtain y where com: "commit S conf r i b sm fs =
      (Inr y, sm\<lparr>cur_value := Some p, last_committed_idx := i\<rparr>, fs1)"
    by (rule commit_written [OF law wb fs1(1)])
  obtain sm' fs' where IH: "commit_all S conf es' (sm\<lparr>cur_value := Some p, last_committed_idx := i\<rparr>) fs1 = (Inr (), sm', fs')"
    "dir_ready conf fs'"
    "last_committed_idx sm' = (if ws = [] then i else fst (snd (last ws)))"
    "\<And>q. lock_name q \<Longrightarrow> om_find fs' (file_of conf q) =
         (case last_write ws q of None \<Rightarrow> om_find fs1 (file_of conf q) | Some c \<Rightarrow> Some (Regular c))"
    using Cons.IH [OF es(2) _ fs1(2), of "sm\<lparr>cur_value := Some p, last_committed_idx := i\<rparr>"] Cons.prems(2)
    by auto
  have "om_find fs' (file_of conf q) =
      (case last_write (w # ws) q of None \<Rightarrow> om_find fs (file_of conf q) | Some c \<Rightarrow> Some (Regular c))"
    if q: "lock_name q" for q
    using IH(4) [OF q] fs1(3) [of q] q lock_name_not_temp [OF q, of p r]
    by (auto simp: w last_write_Cons lock_name_def split: option.split)
  with IH com es(1) show ?case by (simp add: w)
qed


lemma committed_contents:
  assumes "ser_law S room written pending" and "is_absolute (cwd conf)"
    and "list_all2 (encodes S) ws es" and "list_all names_lock ws"
    and "dir_ready conf fs" and "lock_name q"
  shows "case commit_all S conf es sm fs of (r, sm', fs') \<Rightarrow>
    r = Inr () \<and> last_committed_idx sm' = (if ws = [] then last_committed_idx sm else fst (snd (last ws)))
    \<and> om_find fs' (mapped_path conf q) =
        (case last_write ws q of None \<Rightarrow> om_find fs (mapped_path conf q) | Some c \<Rightarrow> Some (Regular c))"
proof -
  obtain sm' fs' where "commit_all S conf es sm fs = (Inr (), sm', fs')"
    "last_committed_idx sm' = (if ws = [] then last_committed_idx sm else fst (snd (last ws)))"
    "\<forall>q. lock_name q \<longrightarrow> om_find fs' (file_of conf q) =
         (case last_write ws q of None \<Rightarrow> om_find fs (file_of conf q) | Some c \<Rightarrow> Some (Regular c))"
    using commit_all_writes [OF assms(1-5), where sm = sm] by auto
  moreover have "mapped_path conf q = file_of conf q"
    using mapped_path_flat assms(2,6) by (simp add: lock_name_def)
  ultimately show ?thesis using assms(6) by (simp cong: option.case_cong)
qed


section \<open>Snapshots\<close>

lemma erase_front_drop: "erase_front n m = drop n m"
  by (induction n m rule: erase_front.induct) simp_all

lemma om_wf_drop: "om_wf m \<Longrightarrow> om_wf (drop n m)"
proof (induction n m rule: erase_front.induct)
  case (3 n e m)
  then show ?case by (simp add: om_wf_Cons)
qed simp_all

lemma assign_above: "\<forall>k' \<in> fst ` set m. k' < k \<Longrightarrow> om_assign k v m = m @ [(k, v)]"
  by (induction m) auto

text \<open>A snapshot newer than all others is kept, as the last of at most three.\<close>

lemma newest_snapshot:
  assumes "\<forall>j \<in> fst ` set (snapshots sm). j < get_last_log_idx A ss"
  shows "snapshots (create_snapshot_internal A ss sm) =
    drop (length (snapshots sm) - 2) (snapshots sm) @
      [(get_last_log_idx A ss, \<lparr>ctx_snapshot = ss, ctx_value = get_current_value sm\<rparr>)]"
  using assms
  by (simp add: create_snapshot_internal_def Let_def erase_front_drop assign_above MAX_SNAPSHOTS_def)

lemma find_last:
  "\<forall>j \<in> fst ` set m. j \<noteq> k \<Longrightarrow> om_find (m @ [(k, v)]) k = Some v"
  by (induction m) auto

lemma newest_snapshot_found:
  assumes "\<forall>j \<in> fst ` set (snapshots sm). j < get_last_log_idx A ss"
  shows "om_find (snapshots (create_snapshot_internal A ss sm)) (get_last_log_idx A ss) =
    Some \<lparr>ctx_snapshot = ss, ctx_value = get_current_value sm\<rparr>"
proof -
  have "\<forall>j \<in> fst ` set (drop (length (snapshots sm) - 2) (snapshots sm)). j \<noteq> get_last_log_idx A ss"
    using assms by (force dest: in_set_dropD)
  then show ?thesis by (simp only: newest_snapshot [OF assms] find_last)
qed

end
