(* ===== verification/FileOps.thy ===== *)
theory FileOps
  imports SessionEnd Replication
begin

text \<open>
  Reading and writing by outcome: what \<^verbatim>\<open>read\<close> and \<^verbatim>\<open>write\<close> do for a client that holds the
  lock, what a committed write leaves on disk, and the requests that touch no file at all.
\<close>

section \<open>Handlers by outcome\<close>

lemma holder_session: "holds c p n \<Longrightarrow> \<exists>s a. om_find (sessions n) c = Some s \<and> om_find (session_locks s) p = Some a
    \<and> om_find (owners (lock_heap n ! a)) c = Some True"
  by (auto simp: holds_def slocks_def split: option.splits)

lemma server_write_holder:
  assumes "holds c p n" and "is_exists p n"
    and "append_log S (n_conf n) oc r WRITE p t (n_sm n) (n_fs n) = (Inr (), sm, fs)"
  shows "server_write S oc r c p t n = (Inr status_OK, n\<lparr>n_sm := sm, n_fs := fs\<rparr>)"
  using holder_session [OF assms(1)] assms(2,3) by (auto simp: server_write_def)

lemma server_read_holder:
  assumes "holds c p n" and "read_content p n = Inr t"
  shows "server_read c p n = Inr (status_OK, t)"
  using holder_session [OF assms(1)] assms(2) by (auto simp: server_read_def)

lemma read_content_flat:
  assumes "is_absolute (cwd (n_conf n))" and "lock_name p"
    and "om_find (n_fs n) (file_of (n_conf n) p) = Some (Regular t)"
  shows "read_content p n = Inr t" and "is_exists p n"
proof -
  have m: "mapped_path (n_conf n) p = file_of (n_conf n) p"
    using assms mapped_path_flat by (simp add: lock_name_def)
  have p: "p \<noteq> []" "sep \<notin> set p" using assms(2) by (auto simp: lock_name_def flat_name_def)
  then have "last p \<noteq> sep" by (metis last_in_set)
  moreover have "base_directory (n_conf n) \<noteq> []"
    using base_directory_props(1) [OF assms(1)] by (simp add: is_absolute_def)
  ultimately have "lookup_path (n_fs n) (file_of (n_conf n) p) = Some (Regular t)"
    using assms(3) p by (auto simp: lookup_path_def file_of_def append_eq_Cons_conv)
  then show "read_content p n = Inr t" "is_exists p n"
    by (simp_all add: read_content_def read_file_def is_exists_def fs_exists_def m)
qed

lemma committed_write:
  assumes law: "ser_law S room written pending" and abs: "is_absolute (cwd (n_conf n))"
    and ready: "dir_ready (n_conf n) (n_fs n)" and p: "lock_name p" and len: "length p + length t \<le> 60"
  obtains fs' where "append_log S (n_conf n) (Committed i) r WRITE p t (n_sm n) (n_fs n) =
      (Inr (), (n_sm n)\<lparr>cur_value := Some p, last_committed_idx := i\<rparr>, fs')"
    and "dir_ready (n_conf n) fs'" and "om_find fs' (file_of (n_conf n) p) = Some (Regular t)"
    and "\<And>q. lock_name q \<Longrightarrow> q \<noteq> p \<Longrightarrow> om_find fs' (file_of (n_conf n) q) = om_find (n_fs n) (file_of (n_conf n) q)"
proof -
  have flat: "flat_name p" using p by (simp add: lock_name_def)
  obtain fs' where fs': "commit_write (mapped_path (n_conf n) p) r t (n_fs n) = Some fs'"
    "dir_ready (n_conf n) fs'"
    "\<And>q. flat_name q \<Longrightarrow> om_find fs' (file_of (n_conf n) q) =
      (if q = p then Some (Regular t) else if q = temp_name p r then None
       else om_find (n_fs n) (file_of (n_conf n) q))"
    by (rule write_step [OF abs ready flat, of r t]) blast
  have "payload_fits \<lparr>op_kind = WRITE, op_path = p, op_content = t\<rparr>"
    using len by (simp add: payload_fits_def sizeof_op_payload_def)
  from append_log_committed [OF law this fs'(1)] fs'(2) show thesis
  proof (rule that)
    show "om_find fs' (file_of (n_conf n) p) = Some (Regular t)" using fs'(3) flat by simp
    show "om_find fs' (file_of (n_conf n) q) = om_find (n_fs n) (file_of (n_conf n) q)"
      if "lock_name q" "q \<noteq> p" for q
      using fs'(3) [of q] that lock_name_not_temp [OF that(1)] by (simp add: lock_name_def)
  qed
qed

lemma holds_files [simp]: "holds c p (n\<lparr>n_sm := sm, n_fs := fs\<rparr>) = holds c p n"
  by (rule holds_frame) simp_all

section \<open>Requests that touch no file\<close>

definition same_files :: "('ch, 's) node \<Rightarrow> ('ch, 's) node \<Rightarrow> bool" where
  "same_files n n' \<longleftrightarrow> n_fs n' = n_fs n \<and> n_conf n' = n_conf n"

lemma same_files_refl [simp]: "same_files n n"
  by (simp add: same_files_def)

lemma same_files_sessions [simp]:
  "same_files m (n\<lparr>sessions := x\<rparr>) = same_files m n" "same_files m (n\<lparr>threads := y\<rparr>) = same_files m n"
  "same_files m (push_reply C c n) = same_files m n"
  "same_files m (new_lock c p n) = same_files m n"
  "same_files m (grant_lock c p a st n) = same_files m n"
  by (simp_all add: same_files_def push_reply_def new_lock_def grant_lock_def Let_def)

lemma same_files_exists: "same_files n n' \<Longrightarrow> is_exists p n' = is_exists p n"
  by (simp add: same_files_def is_exists_def)

lemma create_session_files: "create_session C now c n = (st, n') \<Longrightarrow> same_files n n'"
  by (auto simp: create_session_def Let_def same_files_def split: option.splits if_splits)

lemma release_lock_files: "same_files m n \<Longrightarrow> release_lock c p n = (r, n') \<Longrightarrow> same_files m n'"
  by (auto simp: release_lock_def Let_def same_files_def split: option.splits if_splits)

lemma acquire_lock_files: "same_files m n \<Longrightarrow> acquire_lock c p mode n = (st, n') \<Longrightarrow> same_files m n'"
  by (auto simp: acquire_lock_def claim_lock_def load_lock_def grant_lock_def new_lock_def Let_def same_files_def
      split: option.splits if_splits LockStatus.splits)

lemma end_session_files: "same_files m n \<Longrightarrow> end_session c n = (r, n') \<Longrightarrow> same_files m n'"
  using end_loop_keeps [of "same_files m"] release_lock_files unfolding end_session_def
  by (metis same_files_sessions(1))

lemma attempt_extend_files:
  "same_files m n \<Longrightarrow> attempt_extend_session C c n = (r, n') \<Longrightarrow> same_files m n'"
  by (auto simp: attempt_extend_session_def Let_def split: option.splits)

lemma handle_jeopardy_files: "handle_jeopardy C now c ls n = (r, n') \<Longrightarrow> same_files n n'"
  by (rule handle_jeopardy_keeps [where P = "same_files n"])
    (erule create_session_files acquire_lock_files end_session_files attempt_extend_files; assumption)+

end
