(* ===== verification/FileProperties.thy ===== *)
theory FileProperties
  imports Examples FileOps
begin

text \<open>
  The properties of reading and writing through the lock service: who may, what is written,
  what a reader sees, and what becomes of a write that Raft does not commit.
\<close>

section \<open>Properties\<close>


text \<open>The directory of the demonstration node is ready for writes.\<close>

lemma demo_files: "n_fs demo_node = [(''/d'', Directory), (''/d/1'', Directory), (''/d/1/f'', Regular [])]"
  "n_conf demo_node = demo_conf" "is_absolute (cwd (n_conf demo_node))"
  "base_directory demo_conf = ''/d/1''" "dir_chain ''/d/1'' = [''/d'', ''/d/1'']"
  by code_simp+

lemma demo_ready: "dir_ready (n_conf demo_node) (n_fs demo_node)"
  by (auto simp: dir_ready_def demo_files file_of_def sep_def flat_name_def)

lemma demo_held: "holds ''c'' ''f'' demo_node" "is_exists ''f'' demo_node" "lock_name ''f''"
  by code_simp+


text \<open>A client that does not hold the lock writes nothing: the request is aborted and the
  node unchanged, whatever Raft would have done.\<close>

theorem write_needs_lock:
  assumes "\<not> holds c p n"
  shows "\<exists>msg. server_write S oc r c p t n = (Inr (ABORTED, msg), n)"
  using assms
  by (auto simp: server_write_def no_session_def holds_def slocks_def split: option.splits)

theorem write_needs_lock_witness:
  "\<exists>msg. server_write item_ser (Committed 9) 0 ''d'' ''f'' ''x'' demo_node = (Inr (ABORTED, msg), demo_node)"
proof (rule write_needs_lock)
  show "\<not> holds ''d'' ''f'' demo_node" by code_simp
qed

text \<open>\<^verbatim>\<open>write\<close> cannot tell its caller that the write was lost: when Raft rejects the entry
  (this node is not the leader), or has not committed it, the answer to the holder is OK and
  nothing has changed.\<close>

theorem write_lost:
  assumes "ser_law S room written pending" and "holds c p n" and "is_exists p n"
    and "length p + length t \<le> 60" and "outcome \<in> {Rejected, Not_committed, Pending}"
  shows "server_write S outcome r c p t n = (Inr status_OK, n)"
proof -
  have "payload_fits \<lparr>op_kind = WRITE, op_path = p, op_content = t\<rparr>"
    using assms(4) by (simp add: payload_fits_def sizeof_op_payload_def)
  then have "append_log S (n_conf n) outcome r WRITE p t (n_sm n) (n_fs n) = (Inr (), n_sm n, n_fs n)"
    by (rule append_log_uncommitted [OF assms(1)]) (use assms(5) in auto)
  from server_write_holder [OF assms(2,3) this] show ?thesis by simp
qed

theorem write_lost_witness:
  "server_write item_ser Rejected 0 ''c'' ''f'' ''hello'' demo_node = (Inr status_OK, demo_node)"
  by (rule write_lost [OF item_ser_law demo_held(1,2)]) simp_all

text \<open>C28: A write of more than 60 characters, path and content together, never reaches Raft:
  encoding the command throws, and nothing has changed.\<close>

theorem write_too_long:
  assumes "ser_law S room written pending" and "holds c p n" and "is_exists p n"
    and "60 < length p + length t"
  shows "server_write S outcome r c p t n = (Inl OverflowError, n)"
proof -
  have "\<not> payload_fits \<lparr>op_kind = WRITE, op_path = p, op_content = t\<rparr>"
    using assms(4) by (simp add: payload_fits_def sizeof_op_payload_def)
  then have "append_log S (n_conf n) outcome r WRITE p t (n_sm n) (n_fs n) = (Inl OverflowError, n_sm n, n_fs n)"
    by (rule append_log_overflow [OF assms(1)])
  with holder_session [OF assms(2)] assms(3) show ?thesis by (auto simp: server_write_def)
qed

theorem write_too_long_witness:
  "server_write item_ser (Committed 2) 7 ''c'' ''f'' (replicate 60 CHR ''x'') demo_node = (Inl OverflowError, demo_node)"
  by (rule write_too_long [OF item_ser_law demo_held(1,2)]) simp

text \<open>What \<^verbatim>\<open>read\<close> answers, on every branch. Without a session it aborts with no content; a
  file that does not open makes it throw; otherwise the content is in the reply, and the status
  is OK exactly for a client that holds the lock: the others are aborted but get the content.\<close>

theorem read_outcome:
  "server_read c p n =
    (if om_find (sessions n) c = None then Inr (no_session, [])
     else case read_content p n of
            Inl e \<Rightarrow> Inl e
          | Inr t \<Rightarrow>
              if holds c p n then Inr (status_OK, t)
              else if slocks c p n = None then Inr ((ABORTED, ''Lock was not found among this session's locks.''), t)
              else Inr ((ABORTED, ''You were not recorded as an owner of this lock.''), t))"
  by (auto simp: server_read_def holds_def slocks_def split: option.splits sum.splits)

text \<open>Opening a path that has no file, committed by Raft, answers OK, creates the file empty,
  puts the lock among the session's and, when no such lock was in memory, leaves it free; then
  the same client acquires it in either mode.\<close>

theorem open_then_acquire:
  assumes "ser_law S room written pending" and "is_absolute (cwd (n_conf n))"
    and "dir_ready (n_conf n) (n_fs n)" and "lock_name p" and "length p \<le> 60"
    and "node_inv n" and "om_find (sessions n) c \<noteq> None" and "\<not> is_exists p n"
    and "om_find (locks n) p = None" and "mode \<noteq> FREE"
  shows "case open_lock S (Committed i) r c p n of (st, n1) \<Rightarrow>
    st = Inr status_OK \<and> read_content p n1 = Inr [] \<and> slocks c p n1 \<noteq> None
    \<and> lock_table n1 p = (FREE, {})
    \<and> (case acquire_lock c p mode n1 of (st2, n2) \<Rightarrow> ok st2 \<and> holds c p n2)"
proof -
  obtain fs' where fs': "append_log S (n_conf n) (Committed i) r WRITE p [] (n_sm n) (n_fs n) =
      (Inr (), (n_sm n)\<lparr>cur_value := Some p, last_committed_idx := i\<rparr>, fs')"
    "om_find fs' (file_of (n_conf n) p) = Some (Regular [])"
    using committed_write [OF assms(1-4), of "[]"] assms(5) by (metis add_0_right list.size(3))
  let ?n = "n\<lparr>n_sm := (n_sm n)\<lparr>cur_value := Some p, last_committed_idx := i\<rparr>, n_fs := fs'\<rparr>"
  let ?n1 = "new_lock c p ?n"
  obtain s where s: "om_find (sessions n) c = Some s" using assms(7) by blast
  have op: "open_lock S (Committed i) r c p n = (Inr status_OK, ?n1)"
    using s assms(8) fs'(1) by (simp add: open_lock_def)
  have inv: "node_inv ?n1" using assms(6) by (simp add: new_lock_node_inv)
  have rd: "read_content p ?n1 = Inr []" and ex: "is_exists p ?n1"
    using read_content_flat [of ?n1 p "[]"] assms(2,4) fs'(2) by (simp_all add: new_lock_simps)
  have tab: "lock_table ?n1 p = (FREE, {})"
    using assms(9) by (simp add: lock_table_def new_lock_simps find_insert lock_entry_def)
  have sl: "slocks c p ?n1 \<noteq> None" using s by (auto simp: slocks_new_lock)
  obtain st2 n2 where a: "acquire_lock c p mode ?n1 = (st2, n2)" by fastforce
  have ses: "om_find (sessions ?n1) c \<noteq> None" using s by (simp add: find_sessions_new_lock)
  have "ok st2" using acquire_table(1) [OF inv a] ses ex tab assms(10) by (simp add: spec_acquire_def)
  moreover have "holds c p n2" using acquire_holds [OF inv a] calculation .
  ultimately show ?thesis using op rd sl tab a by simp
qed

theorem open_then_acquire_witness:
  "case open_lock item_ser (Committed 2) 7 ''d'' ''g'' demo_node of (st, n1) \<Rightarrow>
    st = Inr status_OK \<and> read_content ''g'' n1 = Inr [] \<and> slocks ''d'' ''g'' n1 \<noteq> None
    \<and> lock_table n1 ''g'' = (FREE, {})
    \<and> (case acquire_lock ''d'' ''g'' SHARED n1 of (st2, n2) \<Rightarrow> ok st2 \<and> holds ''d'' ''g'' n2)"
proof -
  have c: "lock_name ''g''" "om_find (sessions demo_node) ''d'' \<noteq> None" "\<not> is_exists ''g'' demo_node"
    "om_find (locks demo_node) ''g'' = None"
    by code_simp+
  show ?thesis
    by (rule open_then_acquire [OF item_ser_law demo_files(3) demo_ready c(1) _ demo_inv c(2-4)]) simp_all
qed

end
