(* ===== verification/LeaseProperties.thy ===== *)
theory LeaseProperties
  imports Examples
begin

text \<open>
  The properties of leases: what a keep-alive does, when the session's thread ends the
  session, and what a jeopardy request recovers after a change of master.
\<close>

section \<open>Keep-alives and expiry\<close>

text \<open>A keep-alive of a live session takes one value from the session's channel, extends the
  lease by 15 seconds, counted from the old end and not from now, and answers the new length;
  with an empty channel it blocks, and a terminated session's lease is answered unchanged.\<close>

theorem keep_alive_outcome:
  assumes "chan_law C queued" and "om_find (sessions n) c = Some s"
  shows "case attempt_extend_session C c n of (r, n') \<Rightarrow>
    (case queued (block_reply s) of
       [] \<Rightarrow> r = None \<and> n' = n
     | x # rest \<Rightarrow>
         r = Some (lease_length s + (if terminated s then 0 else 15000)) \<and>
         (\<exists>ch. queued ch = rest \<and> om_find (sessions n') c =
            Some (s\<lparr>block_reply := ch, lease_length := lease_length s + (if terminated s then 0 else 15000)\<rparr>)))"
proof (cases "queued (block_reply s)")
  case Nil
  then have "ch_pop C (block_reply s) = None" using assms(1) by (simp add: chan_law_def)
  with Nil assms(2) show ?thesis by (simp add: attempt_extend_session_def)
next
  case (Cons x rest)
  then obtain ch where "ch_pop C (block_reply s) = Some (x, ch)" "queued ch = rest"
    using assms(1) unfolding chan_law_def by blast
  with Cons assms(2) show ?thesis
    by (cases "terminated s")
      (auto simp: attempt_extend_session_def Let_def find_upd_session DEFAULT_LEASE_EXTENSION_def intro!: exI [of _ ch])
qed

text \<open>A node whose session's thread has made its first push.\<close>

definition demo_started :: "(int list, u64) node" where
  "demo_started = demo_run [CreateSession 0 ''c'', ThreadStep 0 0 0]"

lemma demo_started_session:
  "om_find (sessions demo_started) ''c'' =
    Some \<lparr>client_id = ''c'', start_time = 0, lease_length = 15000, block_reply = [1],
      session_locks = [], terminated = False\<rparr>"
  by code_simp

theorem keep_alive_outcome_witness:
  "fst (attempt_extend_session list_chan ''c'' demo_started) = Some 30000"
  using keep_alive_outcome [OF list_chan_law demo_started_session] by (simp add: split_beta)



section \<open>Jeopardy\<close>

text \<open>Claims that the new master can grant in the order of the request.\<close>

fun claims_free :: "('ch, 's) node \<Rightarrow> (string \<times> LockStatus) list \<Rightarrow> bool" where
  "claims_free n [] = True"
| "claims_free n ((p, mode) # rest) \<longleftrightarrow>
     mode \<noteq> FREE \<and> is_exists p n \<and> lock_table n p = (FREE, {}) \<and> p \<notin> fst ` set rest \<and> claims_free n rest"

lemma claims_free_frame:
  "(\<And>p. p \<in> fst ` set ls \<Longrightarrow> lock_table n' p = lock_table n p \<and> is_exists p n' = is_exists p n) \<Longrightarrow>
    claims_free n ls \<Longrightarrow> claims_free n' ls"
proof (induction ls)
  case (Cons l ls)
  obtain p m where l: "l = (p, m)" by fastforce
  have "claims_free n' ls" using Cons.prems by (intro Cons.IH) (auto simp: l)
  then show ?case using Cons.prems l by simp
qed simp

lemma acquire_keeps_session:
  assumes "node_inv n" and "acquire_lock c p m n = (st, n')" and "om_find (sessions n) d \<noteq> None"
  shows "om_find (sessions n') d \<noteq> None"
  using assms(1,2)
proof (cases rule: acquire_lock_cases)
  case (granted a n1)
  have "om_find (sessions n1) d \<noteq> None" using load_lock_props(5) [OF assms(1) granted(4)] assms(3) .
  then show ?thesis by (auto simp: granted(6) find_sessions_grant_lock)
qed (use assms(3) in simp)

lemma acquire_keeps_files:
  assumes "node_inv n" and "acquire_lock c p m n = (st, n')"
  shows "is_exists q n' = is_exists q n"
  using assms
proof (cases rule: acquire_lock_cases)
  case (granted a n1)
  with load_lock_props(6,8) [OF assms(1) granted(4)] show ?thesis
    by (simp add: is_exists_def grant_lock_simps)
qed simp

lemma reacquire_all:
  "strong_inv n \<Longrightarrow> om_find (sessions n) c \<noteq> None \<Longrightarrow> claims_free n ls \<Longrightarrow>
    \<exists>n'. reacquire_locks c ls n = (Inr (), n') \<and> strong_inv n' \<and>
      (\<forall>p. lock_table n' p = (case map_of ls p of None \<Rightarrow> lock_table n p | Some m \<Rightarrow> (m, {c})))"
proof (induction ls arbitrary: n)
  case (Cons l ls)
  obtain p m where l: "l = (p, m)" by fastforce
  have inv: "node_inv n" using Cons.prems(1) by (simp add: strong_inv_def)
  obtain st n1 where a: "acquire_lock c p m n = (st, n1)" by fastforce
  have ok: "ok st" and t1: "lock_table n1 = (lock_table n)(p := (m, {c}))"
    using acquire_table [OF inv a] Cons.prems(2,3) l by (simp_all add: spec_acquire_def)
  have s1: "strong_inv n1" using lock_strong Cons.prems(1) a .
  have "claims_free n1 ls"
  proof (rule claims_free_frame)
    show "lock_table n1 q = lock_table n q \<and> is_exists q n1 = is_exists q n" if "q \<in> fst ` set ls" for q
      using that Cons.prems(3) l acquire_keeps_files [OF inv a] by (auto simp: t1)
    show "claims_free n ls" using Cons.prems(3) l by simp
  qed
  then obtain n' where "reacquire_locks c ls n1 = (Inr (), n')" "strong_inv n'"
    "\<forall>p. lock_table n' p = (case map_of ls p of None \<Rightarrow> lock_table n1 p | Some m \<Rightarrow> (m, {c}))"
    using Cons.IH [OF s1 acquire_keeps_session [OF inv a Cons.prems(2)]] by blast
  moreover have "map_of ls p = None" using Cons.prems(3) l by (simp add: map_of_eq_None_iff)
  ultimately show ?case using a ok l t1 by (auto split: option.split)
qed simp

text \<open>What a new master gives a client whose claims are all free there.\<close>

lemma jeopardy_recovery:
  assumes "strong_inv n" and "chan_law C queued" and "om_find (sessions n) c = None"
    and "claims_free n claimed" and "handle_jeopardy C now c claimed n = (r, n')"
  shows "(\<forall>p. lock_table n' p = (case map_of claimed p of None \<Rightarrow> lock_table n p | Some m \<Rightarrow> (m, {c})))
    \<and> (\<forall>p \<in> fst ` set claimed. holds c p n') \<and> (\<exists>x. r = Inr x)"
proof -
  obtain st n1 where c: "create_session C now c n = (st, n1)" by fastforce
  have s1: "strong_inv n1" using session_strong assms(1) c .
  from c have st: "st = status_OK" and ses: "om_find (sessions n1) c \<noteq> None"
    and frame: "lock_table n1 = lock_table n" "\<And>p. is_exists p n1 = is_exists p n"
    using assms(3) by (auto simp: create_session_def Let_def find_insert lock_table_def is_exists_def fun_eq_iff
        cong: option.case_cong)
  have "claims_free n1 claimed" using claims_free_frame assms(4) frame by metis
  then obtain n2 where n2: "reacquire_locks c claimed n1 = (Inr (), n2)" "strong_inv n2"
    "\<forall>p. lock_table n2 p = (case map_of claimed p of None \<Rightarrow> lock_table n1 p | Some m \<Rightarrow> (m, {c}))"
    using reacquire_all [OF s1 ses] by blast
  obtain q n3 where e: "attempt_extend_session C c n2 = (q, n3)" by fastforce
  have h: "r = Inr q" "n' = n3"
    using assms(5) c st n2(1) e by (simp_all add: handle_jeopardy_def status_OK_def)
  have inv': "strong_inv n3" using extend_strong n2(2) e .
  have "lock_heap n3 = lock_heap n2 \<and> locks n3 = locks n2"
    using e by (auto simp: attempt_extend_session_def Let_def split: option.splits)
  then have "lock_table n3 = lock_table n2" by (simp add: lock_table_def fun_eq_iff cong: option.case_cong)
  with n2(3) frame(1) have t: "lock_table n' p = (case map_of claimed p of None \<Rightarrow> lock_table n p | Some m \<Rightarrow> (m, {c}))" for p
    by (simp add: h cong: option.case_cong)
  moreover have "holds c p n'" if "p \<in> fst ` set claimed" for p
  proof -
    have "p \<in> dom (map_of claimed)" using that by (simp add: dom_map_of_conv_image_fst)
    then obtain m where "map_of claimed p = Some m" by blast
    then show ?thesis using t [of p] holds_table(1) [OF inv'] by (simp add: h)
  qed
  ultimately show ?thesis using h by blast
qed

text \<open>C27: After a change of master, a client without a session on the new one that claims
  distinct locks, all of them existing files that are free there, holds exactly those locks
  afterwards, each in the mode it claimed, and the other entries of the lock table are as
  before; the request then waits for the session's first keep-alive value.\<close>

theorem jeopardy_recovers:
  assumes "strong_inv n" and "chan_law C queued" and "om_find (sessions n) c = None"
    and "claims_free n claimed" and "handle_jeopardy C now c claimed n = (r, n')"
  shows "(\<forall>p. lock_table n' p = (case map_of claimed p of None \<Rightarrow> lock_table n p | Some m \<Rightarrow> (m, {c})))
    \<and> (\<forall>p \<in> fst ` set claimed. holds c p n') \<and> (\<exists>x. r = Inr x)"
  using assms by (rule jeopardy_recovery)

definition demo_master :: "(int list, u64) node" where
  "demo_master = demo_run [Replicate 3 1 (0, [I32 0, Str ''f'', Str ''x''], []),
     Replicate 3 2 (0, [I32 0, Str ''g'', Str ''y''], [])]"

theorem jeopardy_recovers_witness:
  "case handle_jeopardy list_chan 0 ''c'' [(''f'', EXCLUSIVE), (''g'', SHARED)] demo_master of (r, n') \<Rightarrow>
    holds ''c'' ''f'' n' \<and> lock_table n' ''g'' = (SHARED, {''c''})"
proof -
  let ?ops = "[Replicate 3 1 (0, [I32 0, Str ''f'', Str ''x''], []),
     Replicate 3 2 (0, [I32 0, Str ''g'', Str ''y''], [])]"
  have "all_guarded (apply_op item_ser demo_snap list_chan) deletes_existing demo_init ?ops" by code_simp
  then have s: "strong_inv demo_master"
    unfolding demo_master_def demo_run_def demo_init_def by (rule safe_run.run_keeps [OF init_strong_inv])
  have n: "om_find (sessions demo_master) ''c'' = None"
    "claims_free demo_master [(''f'', EXCLUSIVE), (''g'', SHARED)]"
    by code_simp+
  obtain r n' where h: "handle_jeopardy list_chan 0 ''c'' [(''f'', EXCLUSIVE), (''g'', SHARED)] demo_master = (r, n')"
    by fastforce
  show ?thesis using jeopardy_recovers [OF s list_chan_law n h] by (simp add: h)
qed

text \<open>But when one claimed lock cannot be granted, \<^verbatim>\<open>handle_jeopardy\<close> ends the new session
  and goes on: the locks claimed after it are acquired by the terminated session, which the
  client can no longer close.\<close>

theorem jeopardy_leaks:
  "case handle_jeopardy list_chan 0 ''c'' [(''e'', EXCLUSIVE), (''g'', EXCLUSIVE)] demo_master of (r, n') \<Rightarrow>
    holds_exclusively ''c'' ''g'' n' \<and>
    (case om_find (sessions n') ''c'' of None \<Rightarrow> False | Some s \<Rightarrow> terminated s) \<and>
    fst (close_session ''c'' n') = Inr (ABORTED, ''Client has an existing session.'')"
  by code_simp

end
