(* ===== verification/ReplicationProperties.thy ===== *)
theory ReplicationProperties
  imports Replication
begin

text \<open>
  The properties of the replicated state machine: payloads, the files a log leaves behind,
  and snapshots.
\<close>

section \<open>Payloads\<close>

text \<open>C17: A payload whose path and content together have at most 60 characters is encoded, and
  decoding the encoded log gives it back; a longer one makes \<^verbatim>\<open>enc_log\<close> throw, because its
  buffer has the size of the C++ structure, which does not hold the strings' characters.\<close>

theorem payload_roundtrip:
  assumes "ser_law S room written pending" and "op_kind p \<in> {CREATE, WRITE, DELETE}"
  shows "if length (op_path p) + length (op_content p) \<le> 60
    then (case enc_log S p of Inl _ \<Rightarrow> False | Inr b \<Rightarrow> dec_log S b = Inr p)
    else enc_log S p = Inl OverflowError"
proof (cases "payload_fits p")
  case True
  have "op_of_code (op_code (op_kind p)) = op_kind p" using assms(2) by (auto simp: op_of_code_def)
  then obtain b where "enc_log S p = Inr b" "dec_log S b = Inr p"
    using dec_enc_log [OF assms(1) True] by metis
  then show ?thesis using True by (simp add: payload_fits_def sizeof_op_payload_def)
next
  case False
  then show ?thesis
    using enc_log_overflow [OF assms(1) False] by (simp add: payload_fits_def sizeof_op_payload_def)
qed

theorem payload_roundtrip_witness:
  "case enc_log item_ser \<lparr>op_kind = WRITE, op_path = ''f'', op_content = ''hello''\<rparr> of Inl _ \<Rightarrow> False
    | Inr b \<Rightarrow> dec_log item_ser b = Inr \<lparr>op_kind = WRITE, op_path = ''f'', op_content = ''hello''\<rparr>"
  using payload_roundtrip [OF item_ser_law, of "\<lparr>op_kind = WRITE, op_path = ''f'', op_content = ''hello''\<rparr>"] by simp

section \<open>Files\<close>

text \<open>C21: Committing any sequence of encoded writes whose paths are single names (and not of the
  form of the commit's temporary files) in a directory with nothing in the way never fails, and
  leaves in the file of every such name the content of the last write to it, or what was there
  when there was none; the committed index is that of the last entry.\<close>

theorem last_write_wins:
  assumes "ser_law S room written pending" and "is_absolute (cwd conf)"
    and "list_all2 (encodes S) ws es" and "list_all names_lock ws"
    and "dir_ready conf fs" and "lock_name q"
  shows "case commit_all S conf es sm fs of (r, sm', fs') \<Rightarrow>
    r = Inr () \<and> last_committed_idx sm' = (if ws = [] then last_committed_idx sm else fst (snd (last ws)))
    \<and> om_find fs' (mapped_path conf q) =
        (case last_write ws q of None \<Rightarrow> om_find fs (mapped_path conf q) | Some c \<Rightarrow> Some (Regular c))"
  using assms by (rule committed_contents)

text \<open>Two servers, and the log of two writes to one file and one to another.\<close>

definition server_a :: config where
  "server_a = \<lparr>directory = ''d'', server_id = 1, cwd = ''/''\<rparr>"

definition server_b :: config where
  "server_b = \<lparr>directory = ''/tmp/'', server_id = 25002, cwd = ''/home''\<rparr>"

definition demo_writes :: "write_cmd list" where
  "demo_writes = [(3, 1, ''f'', ''one''), (1, 2, ''g'', ''x''), (4, 3, ''f'', ''two'')]"

definition demo_payload :: "string \<Rightarrow> string \<Rightarrow> op_payload" where
  "demo_payload p c = \<lparr>op_kind = WRITE, op_path = p, op_content = c\<rparr>"

definition demo_log :: "(nat \<times> u64 \<times> item_buffer) list" where
  "demo_log = map (\<lambda>(r, i, p, c). case enc_log item_ser (demo_payload p c) of
     Inl _ \<Rightarrow> (r, i, 0, [], []) | Inr b \<Rightarrow> (r, i, b)) demo_writes"

lemma demo_encodes: "list_all2 (encodes item_ser) demo_writes demo_log"
  by (simp add: demo_log_def demo_writes_def demo_payload_def enc_log_def overflow_result_def
      item_ser_def sizeof_op_payload_def)

lemma demo_lock_names: "list_all names_lock demo_writes"
  by code_simp

theorem last_write_wins_witness:
  "case commit_all item_ser server_a demo_log (sm_init False :: unit sm_state) [] of (r, sm', fs') \<Rightarrow>
    r = Inr () \<and> last_committed_idx sm' = 3 \<and> om_find fs' (mapped_path server_a ''f'') = Some (Regular ''two'')"
proof -
  have c: "is_absolute (cwd server_a)" "lock_name ''f''" "last_write demo_writes ''f'' = Some ''two''"
    "fst (snd (last demo_writes)) = 3" "demo_writes \<noteq> []"
    by code_simp+
  show ?thesis
    using last_write_wins [OF item_ser_law c(1) demo_encodes demo_lock_names empty_dir_ready c(2), where sm = "sm_init False"]
    by (simp only: c if_False option.case)
qed



section \<open>Snapshots\<close>

text \<open>However snapshots are created, at most three are kept, in the order of their log
  indices, and the ones dropped are the oldest; a snapshot newer than all others is the one
  \<^verbatim>\<open>last_snapshot\<close> returns, with the current value.\<close>

theorem snapshots_bounded:
  assumes "om_wf (snapshots sm)"
  shows "case create_snapshot_internal A ss sm of sm' \<Rightarrow>
    length (snapshots sm') \<le> 3 \<and> om_wf (snapshots sm') \<and>
    (\<exists>old. om_assign (get_last_log_idx A ss) \<lparr>ctx_snapshot = ss, ctx_value = get_current_value sm\<rparr> (snapshots sm)
        = old @ snapshots sm') \<and>
    ((\<forall>j \<in> fst ` set (snapshots sm). j < get_last_log_idx A ss) \<longrightarrow>
       last_snapshot sm' = Some ss \<and>
       om_find (snapshots sm') (get_last_log_idx A ss) =
         Some \<lparr>ctx_snapshot = ss, ctx_value = get_current_value sm\<rparr>)"
proof -
  let ?m = "om_assign (get_last_log_idx A ss) \<lparr>ctx_snapshot = ss, ctx_value = get_current_value sm\<rparr> (snapshots sm)"
  have d: "snapshots (create_snapshot_internal A ss sm) = drop (length ?m - 3) ?m"
    by (simp add: create_snapshot_internal_def Let_def erase_front_drop MAX_SNAPSHOTS_def)
  have "\<exists>old. ?m = old @ snapshots (create_snapshot_internal A ss sm)" by (metis append_take_drop_id d)
  moreover have "length (snapshots (create_snapshot_internal A ss sm)) \<le> 3" by (simp add: d)
  moreover have "om_wf (snapshots (create_snapshot_internal A ss sm))"
    using assms by (simp add: d om_wf_drop om_wf_assign)
  moreover have "last_snapshot (create_snapshot_internal A ss sm) = Some ss"
    if "\<forall>j \<in> fst ` set (snapshots sm). j < get_last_log_idx A ss"
    using newest_snapshot [OF that] by (simp add: last_snapshot_def)
  ultimately show ?thesis using newest_snapshot_found [of sm A ss] by blast
qed

definition demo_snapshots :: "(u64, item_buffer) snapshot_api" where
  "demo_snapshots =
     \<lparr>get_last_log_idx = id, snapshot_serialize = (\<lambda>i. (0, [U64 i], [U64 i])),
      snapshot_deserialize = (\<lambda>b. case fst (snd b) of U64 i # _ \<Rightarrow> i | _ \<Rightarrow> 0)\<rparr>"

lemma demo_snapshots_law: "snapshot_law demo_snapshots"
  by (simp add: snapshot_law_def demo_snapshots_def)

theorem snapshots_bounded_witness:
  "last_snapshot (create_snapshot_internal demo_snapshots 7 (sm_init False)) = Some 7"
  using snapshots_bounded [of "sm_init False" demo_snapshots 7] by (simp add: sm_init_def)


definition demo_leader :: "string \<Rightarrow> u64 sm_state" where
  "demo_leader v = create_snapshot_internal demo_snapshots 5 ((sm_init False)\<lparr>cur_value := Some v\<rparr>)"


end
