(* ===== verification/Rpc.thy ===== *)
theory Rpc
  imports NodeRuns
begin

text \<open>
  \<^verbatim>\<open>src/rpc.cc\<close>: the service methods of class \<^verbatim>\<open>RPC\<close>, which call the handlers of the lock
  service, and the methods of class \<^verbatim>\<open>Endpoint\<close>, which build a request and unpack the
  response. gRPC itself is a parameter: \<open>net\<close> takes an address and a request to a status and
  a response. The only checks of the service layer are those of the leader, in
  \<^verbatim>\<open>init_session\<close> and \<^verbatim>\<open>keep_alive\<close>.
\<close>

section \<open>Messages\<close>

text \<open>The map of claimed locks is in the order in which the service iterates over it.\<close>

datatype request =
    Ping
  | InitSession string
  | CloseSessionReq string
  | KeepAliveReq string "(string \<times> LockStatus) list"
  | OpenLockReq string string
  | DeleteLockReq string string
  | AcquireLockReq string string LockStatus
  | ReleaseLockReq string string
  | ReadReq string string
  | WriteReq string string string

record response =
  lease_duration :: int
  resp_content :: string

definition empty_response :: response where
  "empty_response = \<lparr>lease_duration = 0, resp_content = []\<rparr>"

text \<open>What a service method gives gRPC; \<open>Blocked\<close> is a method waiting on a channel.\<close>

datatype answer = Answer Status response | Throws exn | Blocked

text \<open>
  What a call depends on besides the node: the leader Raft reports, whether the client
  cancelled, the clock, and Raft's outcome and the random number of a write.
\<close>

record call_env =
  leader :: int
  cancelled :: bool
  call_now :: int
  call_outcome :: raft_outcome
  call_random :: nat

definition status_answer :: "Status \<Rightarrow> answer" where
  "status_answer st = Answer st empty_response"

definition result_answer :: "Status result \<Rightarrow> answer" where
  "result_answer r = (case r of Inl e \<Rightarrow> Throws e | Inr st \<Rightarrow> status_answer st)"

section \<open>The services\<close>

definition rpc_ping :: "Status" where
  "rpc_ping = status_OK"

definition rpc_init_session ::
    "'ch chan_api \<Rightarrow> call_env \<Rightarrow> string \<Rightarrow> ('ch, 's) node \<Rightarrow> Status \<times> ('ch, 's) node" where
  "rpc_init_session C env cid n =
     (if server_id (n_conf n) = leader env then create_session C (call_now env) cid n
      else (status_CANCELLED, n))"

text \<open>
  \<^verbatim>\<open>int32_t lease_duration\<close> takes the handlers' \<^verbatim>\<open>int64_t\<close> modulo 2^32; a negative value of
  the first handler is taken for a missing session.
\<close>

definition to_int32 :: "int \<Rightarrow> int" where
  "to_int32 i = signed_take_bit 31 i"

definition keep_alive_response :: "int \<Rightarrow> answer" where
  "keep_alive_response d = Answer status_OK (empty_response\<lparr>lease_duration := d\<rparr>)"

definition rpc_keep_alive ::
    "'ch chan_api \<Rightarrow> call_env \<Rightarrow> string \<Rightarrow> (string \<times> LockStatus) list \<Rightarrow> ('ch, 's) node \<Rightarrow>
     answer \<times> ('ch, 's) node" where
  "rpc_keep_alive C env cid claimed n =
     (if server_id (n_conf n) \<noteq> leader env
      then (status_answer (ABORTED, ''This server is not master.''), n)
      else if cancelled env then (status_answer (CANCELLED, ''Exceeded deadline.''), n)
      else case attempt_extend_session C cid n of
             (None, n') \<Rightarrow> (Blocked, n')
           | (Some l, n') \<Rightarrow>
               if to_int32 l < 0
               then (case handle_jeopardy C (call_now env) cid claimed n' of
                       (Inl e, n'') \<Rightarrow> (Throws e, n'')
                     | (Inr None, n'') \<Rightarrow> (Blocked, n'')
                     | (Inr (Some l'), n'') \<Rightarrow> (keep_alive_response (to_int32 l'), n''))
               else (keep_alive_response (to_int32 l), n'))"

definition rpc_read :: "string \<Rightarrow> string \<Rightarrow> ('ch, 's) node \<Rightarrow> answer" where
  "rpc_read cid file_path n =
     (case server_read cid file_path n of
        Inl e \<Rightarrow> Throws e
      | Inr (st, str) \<Rightarrow> Answer st (empty_response\<lparr>resp_content := str\<rparr>))"

definition rpc_close_session :: "string \<Rightarrow> ('ch, 's) node \<Rightarrow> answer \<times> ('ch, 's) node" where
  "rpc_close_session cid n = apfst result_answer (close_session cid n)"

definition rpc_open_lock ::
    "'b ser \<Rightarrow> call_env \<Rightarrow> string \<Rightarrow> string \<Rightarrow> ('ch, 's) node \<Rightarrow> answer \<times> ('ch, 's) node" where
  "rpc_open_lock S env cid file_path n =
     apfst result_answer (open_lock S (call_outcome env) (call_random env) cid file_path n)"

definition rpc_delete_lock :: "string \<Rightarrow> string \<Rightarrow> ('ch, 's) node \<Rightarrow> answer \<times> ('ch, 's) node" where
  "rpc_delete_lock cid file_path n = apfst result_answer (delete_lock cid file_path n)"

definition rpc_acquire_lock ::
    "string \<Rightarrow> string \<Rightarrow> LockStatus \<Rightarrow> ('ch, 's) node \<Rightarrow> answer \<times> ('ch, 's) node" where
  "rpc_acquire_lock cid file_path mode n = apfst status_answer (acquire_lock cid file_path mode n)"

definition rpc_release_lock :: "string \<Rightarrow> string \<Rightarrow> ('ch, 's) node \<Rightarrow> answer \<times> ('ch, 's) node" where
  "rpc_release_lock cid file_path n = apfst result_answer (release_lock cid file_path n)"

definition rpc_write ::
    "'b ser \<Rightarrow> call_env \<Rightarrow> string \<Rightarrow> string \<Rightarrow> string \<Rightarrow> ('ch, 's) node \<Rightarrow> answer \<times> ('ch, 's) node" where
  "rpc_write S env cid file_path txt n =
     apfst result_answer (server_write S (call_outcome env) (call_random env) cid file_path txt n)"

text \<open>The service class: each request runs its method.\<close>

fun rpc_service ::
    "'b ser \<Rightarrow> 'ch chan_api \<Rightarrow> call_env \<Rightarrow> request \<Rightarrow> ('ch, 's) node \<Rightarrow> answer \<times> ('ch, 's) node" where
  "rpc_service S C env Ping n = (status_answer rpc_ping, n)"
| "rpc_service S C env (InitSession c) n = apfst status_answer (rpc_init_session C env c n)"
| "rpc_service S C env (CloseSessionReq c) n = rpc_close_session c n"
| "rpc_service S C env (KeepAliveReq c ls) n = rpc_keep_alive C env c ls n"
| "rpc_service S C env (OpenLockReq c p) n = rpc_open_lock S env c p n"
| "rpc_service S C env (DeleteLockReq c p) n = rpc_delete_lock c p n"
| "rpc_service S C env (AcquireLockReq c p m) n = rpc_acquire_lock c p m n"
| "rpc_service S C env (ReleaseLockReq c p) n = rpc_release_lock c p n"
| "rpc_service S C env (ReadReq c p) n = (rpc_read c p n, n)"
| "rpc_service S C env (WriteReq c p t) n = rpc_write S env c p t n"

lemmas rpc_method_defs [simp] =
  rpc_close_session_def rpc_open_lock_def rpc_delete_lock_def rpc_acquire_lock_def
  rpc_release_lock_def rpc_write_def

section \<open>The endpoints\<close>

text \<open>
  \<open>net\<close> runs a call, with the deadline set in its context, against the world \<open>'w\<close>: the servers
  and the network.
\<close>

type_synonym 'w net = "string \<Rightarrow> int option \<Rightarrow> request \<Rightarrow> 'w \<Rightarrow> (Status \<times> response) \<times> 'w"

definition ep_ping :: "'w net \<Rightarrow> string \<Rightarrow> 'w \<Rightarrow> Status \<times> 'w" where
  "ep_ping net a w = apfst fst (net a None Ping w)"

definition ep_init_session :: "'w net \<Rightarrow> string \<Rightarrow> string \<Rightarrow> 'w \<Rightarrow> Status \<times> 'w" where
  "ep_init_session net a cid w = apfst fst (net a None (InitSession cid) w)"

definition ep_close_session :: "'w net \<Rightarrow> string \<Rightarrow> string \<Rightarrow> 'w \<Rightarrow> Status \<times> 'w" where
  "ep_close_session net a cid w = apfst fst (net a None (CloseSessionReq cid) w)"

text \<open>The two overloads: with a deadline and no locks, and with the client's locks.\<close>

definition ep_keep_alive ::
    "'w net \<Rightarrow> string \<Rightarrow> string \<Rightarrow> int \<Rightarrow> 'w \<Rightarrow> (Status \<times> int) \<times> 'w" where
  "ep_keep_alive net a cid deadline w =
     apfst (\<lambda>(st, r). (st, lease_duration r)) (net a (Some deadline) (KeepAliveReq cid []) w)"

definition ep_keep_alive_locks ::
    "'w net \<Rightarrow> string \<Rightarrow> string \<Rightarrow> (string, LockStatus) omap \<Rightarrow> 'w \<Rightarrow> (Status \<times> int) \<times> 'w" where
  "ep_keep_alive_locks net a cid claimed w =
     apfst (\<lambda>(st, r). (st, lease_duration r)) (net a None (KeepAliveReq cid claimed) w)"

definition ep_open_lock :: "'w net \<Rightarrow> string \<Rightarrow> string \<Rightarrow> string \<Rightarrow> 'w \<Rightarrow> Status \<times> 'w" where
  "ep_open_lock net a cid p w = apfst fst (net a None (OpenLockReq cid p) w)"

definition ep_delete_lock :: "'w net \<Rightarrow> string \<Rightarrow> string \<Rightarrow> string \<Rightarrow> 'w \<Rightarrow> Status \<times> 'w" where
  "ep_delete_lock net a cid p w = apfst fst (net a None (DeleteLockReq cid p) w)"

definition ep_acquire_lock :: "'w net \<Rightarrow> string \<Rightarrow> string \<Rightarrow> string \<Rightarrow> LockStatus \<Rightarrow> 'w \<Rightarrow> Status \<times> 'w" where
  "ep_acquire_lock net a cid p mode w = apfst fst (net a None (AcquireLockReq cid p mode) w)"

definition ep_release_lock :: "'w net \<Rightarrow> string \<Rightarrow> string \<Rightarrow> string \<Rightarrow> 'w \<Rightarrow> Status \<times> 'w" where
  "ep_release_lock net a cid p w = apfst fst (net a None (ReleaseLockReq cid p) w)"

definition ep_read :: "'w net \<Rightarrow> string \<Rightarrow> string \<Rightarrow> string \<Rightarrow> 'w \<Rightarrow> (Status \<times> string) \<times> 'w" where
  "ep_read net a cid p w = apfst (\<lambda>(st, r). (st, resp_content r)) (net a None (ReadReq cid p) w)"

definition ep_write :: "'w net \<Rightarrow> string \<Rightarrow> string \<Rightarrow> string \<Rightarrow> string \<Rightarrow> 'w \<Rightarrow> Status \<times> 'w" where
  "ep_write net a cid p t w = apfst fst (net a None (WriteReq cid p t) w)"

section \<open>Calls are operations of the node\<close>

text \<open>
  Every call amounts to at most two of the operations of the node, so what those keep, calls
  keep; a guarded call is one that does not delete a lock whose file is gone.
\<close>

definition guarded_call :: "('ch, 's) node \<Rightarrow> request \<Rightarrow> bool" where
  "guarded_call n req = (case req of DeleteLockReq c p \<Rightarrow> is_exists p n | _ \<Rightarrow> True)"

lemma keep_alive_ops:
  "\<exists>ops. snd (rpc_keep_alive C env c ls n) = foldl (apply_op S A C) n ops
    \<and> all_guarded (apply_op S A C) deletes_existing n ops"
proof -
  let ?ka = "KeepAlive c" and ?je = "Jeopardy (call_now env) c ls"
  have g: "deletes_existing m ?ka" "deletes_existing m ?je" for m
    by (simp_all add: deletes_existing_def)
  have "snd (rpc_keep_alive C env c ls n) \<in>
      {n, apply_op S A C n ?ka, apply_op S A C (apply_op S A C n ?ka) ?je}"
    by (auto simp: rpc_keep_alive_def split: prod.splits option.splits sum.splits)
  then consider "snd (rpc_keep_alive C env c ls n) = n"
    | "snd (rpc_keep_alive C env c ls n) = apply_op S A C n ?ka"
    | "snd (rpc_keep_alive C env c ls n) = apply_op S A C (apply_op S A C n ?ka) ?je"
    by blast
  then show ?thesis
  proof cases
    case 1
    then show ?thesis by (intro exI [of _ "[]"]) simp
  next
    case 2
    then show ?thesis by (intro exI [of _ "[?ka]"]) (simp add: g)
  next
    case 3
    then show ?thesis by (intro exI [of _ "[?ka, ?je]"]) (simp add: g)
  qed
qed

lemma single_op:
  assumes "n' = apply_op S A C n e" and "deletes_existing n e"
  shows "\<exists>ops. n' = foldl (apply_op S A C) n ops \<and> all_guarded (apply_op S A C) deletes_existing n ops"
  using assms by (intro exI [of _ "[e]"]) simp

lemma rpc_service_ops:
  assumes "guarded_call n req"
  shows "\<exists>ops. snd (rpc_service S C env req n) = foldl (apply_op S A C) n ops
    \<and> all_guarded (apply_op S A C) deletes_existing n ops"
proof (cases req)
  case Ping
  show ?thesis by (rule exI [of _ "[]"]) (simp add: Ping)
next
  case (InitSession c)
  show ?thesis
  proof (cases "server_id (n_conf n) = leader env")
    case True
    then show ?thesis
      by (intro single_op [where e = "CreateSession (call_now env) c"])
        (simp_all add: InitSession rpc_init_session_def deletes_existing_def)
  next
    case False
    then show ?thesis by (intro exI [of _ "[]"]) (simp add: InitSession rpc_init_session_def)
  qed
next
  case (CloseSessionReq c)
  then show ?thesis by (intro single_op [where e = "CloseSession c"]) (simp_all add: deletes_existing_def)
next
  case (KeepAliveReq c ls)
  then show ?thesis using keep_alive_ops by simp
next
  case (OpenLockReq c p)
  then show ?thesis
    by (intro single_op [where e = "OpenLock (call_outcome env) (call_random env) c p"])
      (simp_all add: deletes_existing_def)
next
  case (DeleteLockReq c p)
  then show ?thesis using assms
    by (intro single_op [where e = "DeleteLock c p"]) (simp_all add: deletes_existing_def guarded_call_def)
next
  case (AcquireLockReq c p m)
  then show ?thesis by (intro single_op [where e = "AcquireLock c p m"]) (simp_all add: deletes_existing_def)
next
  case (ReleaseLockReq c p)
  then show ?thesis by (intro single_op [where e = "ReleaseLock c p"]) (simp_all add: deletes_existing_def)
next
  case (ReadReq c p)
  show ?thesis by (rule exI [of _ "[]"]) (simp add: ReadReq)
next
  case (WriteReq c p t)
  then show ?thesis
    by (intro single_op [where e = "WriteFile (call_outcome env) (call_random env) c p t"])
      (simp_all add: deletes_existing_def)
qed

definition apply_call ::
    "'b ser \<Rightarrow> 'ch chan_api \<Rightarrow> ('ch, 's) node \<Rightarrow> call_env \<times> request \<Rightarrow> ('ch, 's) node" where
  "apply_call S C n er = snd (rpc_service S C (fst er) (snd er) n)"

lemma apply_call_strong_inv:
  fixes S :: "'b ser" and n :: "('ch, 's) node"
  assumes "strong_inv n" and "guarded_call n (snd er)"
  shows "strong_inv (apply_call S C n er)"
proof -
  obtain ops where ops: "snd (rpc_service S C (fst er) (snd er) n) = foldl (apply_op S (undefined :: ('s, 'b) snapshot_api) C) n ops"
    "all_guarded (apply_op S (undefined :: ('s, 'b) snapshot_api) C) deletes_existing n ops"
    using rpc_service_ops [OF assms(2)] by metis
  show ?thesis
    unfolding apply_call_def ops(1) by (rule safe_run.run_keeps [OF assms(1) ops(2)])
qed

interpretation calls: invariant_machine "apply_call S C" "\<lambda>n er. guarded_call n (snd er)" strong_inv for S C
  by unfold_locales (rule apply_call_strong_inv)

end
