(* ===== verification/Client.thy ===== *)
theory Client
  imports Rpc
begin

text \<open>
  \<^verbatim>\<open>src/client.cc\<close>: the client library. Its state is \<^verbatim>\<open>app::client::info\<close>; the servers and the
  network are the world \<open>'w\<close> behind \<open>net\<close>. While the client is in jeopardy a call sleeps until
  the jeopardy period ends; \<open>later\<close> is the client's state after the sleep, which the session's
  thread may have changed meanwhile.
\<close>

section \<open>State\<close>

text \<open>Times are milliseconds of the system clock; the master is the address of its node.\<close>

record client =
  session_id :: string
  lease_start :: int
  c_lease_length :: int
  c_locks :: "(string, LockStatus) omap"
  jeopardy :: bool
  expired :: bool
  master :: "string option"

section \<open>Sessions\<close>

text \<open>The members in the order of their addresses; the first that accepts becomes the master.\<close>

fun find_master :: "'w net \<Rightarrow> string \<Rightarrow> string list \<Rightarrow> 'w \<Rightarrow> string option \<times> 'w" where
  "find_master net sid [] w = (None, w)"
| "find_master net sid (a # as) w =
     (case ep_init_session net a sid w of
        (st, w') \<Rightarrow> if \<not> ok st then find_master net sid as w' else (Some a, w'))"

definition start_session ::
    "'w net \<Rightarrow> string \<Rightarrow> int \<Rightarrow> string list \<Rightarrow> 'w \<Rightarrow> Status \<times> client \<times> 'w" where
  "start_session net self now memberList w =
     (case find_master net self memberList w of
        (m, w') \<Rightarrow>
          (if m = None then status_CANCELLED else status_OK,
           \<lparr>session_id = self, lease_start = now, c_lease_length = DEFAULT_LEASE_DURATION,
            c_locks = [], jeopardy = False, expired = False, master = m\<rparr>, w'))"

text \<open>A call through the null pointer \<^verbatim>\<open>info::master\<close> is undefined.\<close>

definition client_close_session :: "'w net \<Rightarrow> client \<Rightarrow> 'w \<Rightarrow> unit result \<times> 'w" where
  "client_close_session net c w =
     (if session_id c = [] then (Inr (), w)
      else case master c of
             None \<Rightarrow> (Inl UndefinedBehaviour, w)
           | Some m \<Rightarrow> (Inr (), snd (ep_close_session net m (session_id c) w)))"

section \<open>The session's thread\<close>

datatype thread_step = Running | Enter_jeopardy | Returned

text \<open>One iteration of the outer loop; the call's deadline is the end of the lease.\<close>

definition client_maintain :: "'w net \<Rightarrow> client \<Rightarrow> 'w \<Rightarrow> thread_step \<times> client \<times> 'w" where
  "client_maintain net c w =
     (case master c of
        None \<Rightarrow> (Returned, c, w)
      | Some m \<Rightarrow>
          (case ep_keep_alive net m (session_id c) (lease_start c + c_lease_length c) w of
             ((st, new_lease_length), w') \<Rightarrow>
               if ok st then (Running, c\<lparr>c_lease_length := new_lease_length\<rparr>, w')
               else (Enter_jeopardy, c\<lparr>jeopardy := True\<rparr>, w')))"

text \<open>
  One pass over the members in jeopardy: whether the thread returned. The assignment
  \<^verbatim>\<open>looping = false\<close> follows the \<^verbatim>\<open>break\<close> and is never executed.
\<close>

fun jeopardy_pass ::
    "'w net \<Rightarrow> int \<Rightarrow> string list \<Rightarrow> client \<Rightarrow> 'w \<Rightarrow> bool \<times> client \<times> 'w" where
  "jeopardy_pass net now [] c w = (False, c, w)"
| "jeopardy_pass net now (a # as) c w =
     (case ep_keep_alive_locks net a (session_id c) (c_locks c) w of
        ((st, l), w') \<Rightarrow>
          if \<not> ok st then jeopardy_pass net now as c w'
          else if l < 0 then (True, c\<lparr>expired := True\<rparr>, w')
          else (False,
                c\<lparr>master := Some a, lease_start := now, c_lease_length := l, jeopardy := False\<rparr>, w'))"

definition stop_jeopardy :: "client \<Rightarrow> int" where
  "stop_jeopardy c = lease_start c + c_lease_length c + JEAPARDY_DURATION"

text \<open>
  The loop of passes, one second apart; \<open>clock\<close> gives the two times each pass reads, as the
  new start of the lease and against \<open>stop\<close>, which is
  the end of the jeopardy period, computed once when the thread started, and \<open>fuel\<close> bounds
  the number of passes (\<open>None\<close>: still looping).
\<close>

fun jeopardy_loop ::
    "nat \<Rightarrow> 'w net \<Rightarrow> (nat \<Rightarrow> int \<times> int) \<Rightarrow> int \<Rightarrow> string list \<Rightarrow> client \<Rightarrow> 'w \<Rightarrow> (client \<times> 'w) option" where
  "jeopardy_loop 0 net clock stop memberList c w = None"
| "jeopardy_loop (Suc fuel) net clock stop memberList c w =
     (case jeopardy_pass net (fst (clock 0)) memberList c w of
        (True, c', w') \<Rightarrow> Some (c', w')
      | (False, c', w') \<Rightarrow>
          if snd (clock 0) > stop then Some (c'\<lparr>expired := True\<rparr>, w')
          else jeopardy_loop fuel net (\<lambda>i. clock (Suc i)) stop memberList c' w')"

text \<open>
  The whole thread: the end of the jeopardy period is computed before the loop, from the lease
  the session started with, and is not computed again when keep-alives extend the lease.
\<close>

fun client_thread ::
    "nat \<Rightarrow> 'w net \<Rightarrow> (nat \<Rightarrow> int \<times> int) \<Rightarrow> int \<Rightarrow> string list \<Rightarrow> client \<Rightarrow> 'w \<Rightarrow> (client \<times> 'w) option" where
  "client_thread 0 net clock stop memberList c w = None"
| "client_thread (Suc fuel) net clock stop memberList c w =
     (case client_maintain net c w of
        (Returned, c', w') \<Rightarrow> Some (c', w')
      | (Running, c', w') \<Rightarrow> client_thread fuel net clock stop memberList c' w'
      | (Enter_jeopardy, c', w') \<Rightarrow> jeopardy_loop fuel net clock stop memberList c' w')"

definition session_thread ::
    "nat \<Rightarrow> 'w net \<Rightarrow> (nat \<Rightarrow> int \<times> int) \<Rightarrow> string list \<Rightarrow> client \<Rightarrow> 'w \<Rightarrow> (client \<times> 'w) option" where
  "session_thread fuel net clock memberList c w = client_thread fuel net clock (stop_jeopardy c) memberList c w"

section \<open>Calls\<close>

text \<open>The wait at the head of every call: the state to go on with, or that the session expired.\<close>

definition await_session :: "client \<Rightarrow> client \<Rightarrow> client option" where
  "await_session later c =
     (if jeopardy c then (if jeopardy later \<or> expired later then None else Some later) else Some c)"

definition session_expired :: Status where
  "session_expired = (ABORTED, ''Session expired.'')"

definition client_open_lock :: "'w net \<Rightarrow> client \<Rightarrow> string \<Rightarrow> client \<Rightarrow> 'w \<Rightarrow> bool result \<times> client \<times> 'w" where
  "client_open_lock net later file_path c w =
     (case await_session later c of
        None \<Rightarrow> (Inr False, later, w)
      | Some c' \<Rightarrow>
          (case master c' of
             None \<Rightarrow> (Inl UndefinedBehaviour, c', w)
           | Some m \<Rightarrow>
               (case ep_open_lock net m (session_id c') file_path w of
                  (st, w') \<Rightarrow> (Inr (ok st), c', w'))))"

definition client_delete_lock :: "'w net \<Rightarrow> client \<Rightarrow> string \<Rightarrow> client \<Rightarrow> 'w \<Rightarrow> bool result \<times> client \<times> 'w" where
  "client_delete_lock net later file_path c w =
     (case await_session later c of
        None \<Rightarrow> (Inr False, later, w)
      | Some c' \<Rightarrow>
          (case master c' of
             None \<Rightarrow> (Inl UndefinedBehaviour, c', w)
           | Some m \<Rightarrow>
               (case ep_delete_lock net m (session_id c') file_path w of
                  (st, w') \<Rightarrow> (Inr (ok st), c', w'))))"

definition client_acquire_lock ::
    "'w net \<Rightarrow> client \<Rightarrow> string \<Rightarrow> LockStatus \<Rightarrow> client \<Rightarrow> 'w \<Rightarrow> Status result \<times> client \<times> 'w" where
  "client_acquire_lock net later file_path mode c w =
     (case await_session later c of
        None \<Rightarrow> (Inr session_expired, later, w)
      | Some c' \<Rightarrow>
          (case master c' of
             None \<Rightarrow> (Inl UndefinedBehaviour, c', w)
           | Some m \<Rightarrow>
               (case ep_acquire_lock net m (session_id c') file_path mode w of
                  (st, w') \<Rightarrow>
                    (Inr st, if ok st then c'\<lparr>c_locks := om_insert file_path mode (c_locks c')\<rparr> else c', w'))))"

definition client_release_lock ::
    "'w net \<Rightarrow> client \<Rightarrow> string \<Rightarrow> client \<Rightarrow> 'w \<Rightarrow> Status result \<times> client \<times> 'w" where
  "client_release_lock net later file_path c w =
     (case await_session later c of
        None \<Rightarrow> (Inr session_expired, later, w)
      | Some c' \<Rightarrow>
          if om_find (c_locks c') file_path = None
          then (Inr (ABORTED, ''Client doesn't have the lock you are trying to release.''), c', w)
          else (case master c' of
                  None \<Rightarrow> (Inl UndefinedBehaviour, c', w)
                | Some m \<Rightarrow>
                    (case ep_release_lock net m (session_id c') file_path w of
                       (st, w') \<Rightarrow>
                         (Inr st, if ok st then c'\<lparr>c_locks := om_erase file_path (c_locks c')\<rparr> else c', w'))))"

text \<open>A read that succeeds removes the lock from the client's own table.\<close>

definition client_read ::
    "'w net \<Rightarrow> client \<Rightarrow> string \<Rightarrow> client \<Rightarrow> 'w \<Rightarrow> (Status \<times> string) result \<times> client \<times> 'w" where
  "client_read net later file_path c w =
     (case await_session later c of
        None \<Rightarrow> (Inr (session_expired, []), later, w)
      | Some c' \<Rightarrow>
          if om_find (c_locks c') file_path = None
          then (Inr ((ABORTED, ''Client doesn't have the lock you are trying to read from.''), []), c', w)
          else (case master c' of
                  None \<Rightarrow> (Inl UndefinedBehaviour, c', w)
                | Some m \<Rightarrow>
                    (case ep_read net m (session_id c') file_path w of
                       ((st, str), w') \<Rightarrow>
                         (Inr (st, str),
                          if ok st then c'\<lparr>c_locks := om_erase file_path (c_locks c')\<rparr> else c', w'))))"

definition client_write ::
    "'w net \<Rightarrow> client \<Rightarrow> string \<Rightarrow> string \<Rightarrow> client \<Rightarrow> 'w \<Rightarrow> Status result \<times> client \<times> 'w" where
  "client_write net later file_path contents c w =
     (case await_session later c of
        None \<Rightarrow> (Inr session_expired, later, w)
      | Some c' \<Rightarrow>
          if om_find (c_locks c') file_path = None
          then (Inr (ABORTED, ''Client doesn't have the lock you are trying to write to.''), c', w)
          else (case master c' of
                  None \<Rightarrow> (Inl UndefinedBehaviour, c', w)
                | Some m \<Rightarrow>
                    (case ep_write net m (session_id c') file_path contents w of
                       (st, w') \<Rightarrow> (Inr st, c', w'))))"

section \<open>The end of jeopardy\<close>

lemma jeopardy_pass_returned: "jeopardy_pass net now as c w = (True, c', w') \<Longrightarrow> expired c'"
  by (induction net now as c w rule: jeopardy_pass.induct) (auto split: prod.splits if_splits)

lemma jeopardy_loop_expired: "jeopardy_loop fuel net clock stop as c w = Some (c', w') \<Longrightarrow> expired c'"
proof (induction fuel arbitrary: clock c w)
  case (Suc fuel)
  obtain returned c1 w1 where p: "jeopardy_pass net (fst (clock 0)) as c w = (returned, c1, w1)"
    using prod_cases3 by blast
  with Suc show ?case by (cases returned) (auto dest: jeopardy_pass_returned split: if_splits)
qed simp

lemma client_thread_expired:
  "master c \<noteq> None \<Longrightarrow> client_thread fuel net clock stop as c w = Some (c', w') \<Longrightarrow> expired c'"
proof (induction fuel arbitrary: c w)
  case (Suc fuel)
  obtain a where a: "master c = Some a" using Suc.prems(1) by blast
  obtain st l w1 where k: "ep_keep_alive net a (session_id c) (lease_start c + c_lease_length c) w = ((st, l), w1)"
    by (metis prod.collapse)
  show ?case
  proof (cases "ok st")
    case True
    have "client_maintain net c w = (Running, c\<lparr>c_lease_length := l\<rparr>, w1)"
      using a k True by (simp add: client_maintain_def)
    with Suc.prems Suc.IH [of "c\<lparr>c_lease_length := l\<rparr>" w1] show ?thesis by simp
  next
    case False
    have "client_maintain net c w = (Enter_jeopardy, c\<lparr>jeopardy := True\<rparr>, w1)"
      using a k False by (simp add: client_maintain_def)
    with Suc.prems show ?thesis by (auto dest: jeopardy_loop_expired)
  qed
qed simp

lemma jeopardy_loop_expires:
  "k < fuel \<Longrightarrow> snd (clock k) > stop \<Longrightarrow>
    \<exists>c' w'. jeopardy_loop fuel net clock stop memberList c w = Some (c', w') \<and> expired c'"
proof (induction fuel arbitrary: k clock c w)
  case (Suc fuel)
  obtain returned c1 w1 where p: "jeopardy_pass net (fst (clock 0)) memberList c w = (returned, c1, w1)"
    using prod_cases3 by blast
  have ex: "returned \<Longrightarrow> expired c1"
    using p by (induction net "fst (clock 0)" memberList c w rule: jeopardy_pass.induct) (auto split: prod.splits if_splits)
  show ?case
  proof (cases "returned \<or> snd (clock 0) > stop")
    case True
    with p ex show ?thesis by (cases returned) auto
  next
    case False
    with Suc.prems have "0 < k" by (cases k) auto
    with Suc.prems have "k - 1 < fuel" "snd (clock (Suc (k - 1))) > stop" by auto
    then have "\<exists>c' w'. jeopardy_loop fuel net (\<lambda>i. clock (Suc i)) stop memberList c1 w1 = Some (c', w') \<and> expired c'"
      by (rule Suc.IH)
    with p False show ?thesis by simp
  qed
qed simp

end
