(* ===== verification/ClientProperties.thy ===== *)
theory ClientProperties
  imports Client FileProperties
begin

text \<open>
  The properties of the client library and of the service layer: what the leader checks
  cover, the narrowing of leases, the client's view of its locks, and a whole exchange with
  a server.
\<close>

section \<open>A network with one server\<close>

text \<open>
  What gRPC documents, for one reachable server: a call runs its service; a status other
  than OK comes without a response, and a service that throws answers UNKNOWN. Other
  addresses are unavailable. A call that blocks ends at its deadline.
\<close>

definition deliver :: "answer \<Rightarrow> Status \<times> response" where
  "deliver a = (case a of
     Answer st r \<Rightarrow> (st, if ok st then r else empty_response)
   | Throws e \<Rightarrow> ((UNKNOWN, ''Unexpected error in RPC handling''), empty_response)
   | Blocked \<Rightarrow> ((DEADLINE_EXCEEDED, ''Deadline Exceeded''), empty_response))"

definition serves :: "'b ser \<Rightarrow> 'ch chan_api \<Rightarrow> call_env \<Rightarrow> string \<Rightarrow> ('ch, 's) node net \<Rightarrow> bool" where
  "serves S C env a net \<longleftrightarrow>
     (\<forall>req n. net a None req n = apfst deliver (rpc_service S C env req n)) \<and>
     (\<forall>b req n. b \<noteq> a \<longrightarrow> net b None req n = (((UNAVAILABLE, ''failed to connect''), empty_response), n))"

definition one_server :: "'b ser \<Rightarrow> 'ch chan_api \<Rightarrow> call_env \<Rightarrow> string \<Rightarrow> ('ch, 's) node net" where
  "one_server S C env a b deadline req n =
     (if b = a then apfst deliver (rpc_service S C env req n)
      else (((UNAVAILABLE, ''failed to connect''), empty_response), n))"

lemma one_server_serves: "serves S C env a (one_server S C env a)"
  by (simp add: serves_def one_server_def)

definition demo_env :: call_env where
  "demo_env = \<lparr>leader = 1, cancelled = False, call_now = 0, call_outcome = Committed 5, call_random = 3\<rparr>"

definition demo_net :: "(int list, u64) node net" where
  "demo_net = one_server item_ser list_chan demo_env ''s1''"

section \<open>The service layer\<close>


definition demo_calls :: "(call_env \<times> request) list" where
  "demo_calls = map (Pair demo_env) [InitSession ''c'', InitSession ''d'', OpenLockReq ''c'' ''f'',
     AcquireLockReq ''c'' ''f'' EXCLUSIVE, AcquireLockReq ''d'' ''f'' SHARED]"


text \<open>A server that is not the leader refuses to open sessions and to keep them alive, and
  changes nothing; it serves every other call as the leader would.\<close>

theorem follower_refuses:
  assumes "server_id (n_conf n) \<noteq> leader env"
  shows "rpc_service S C env (InitSession c) n = (status_answer status_CANCELLED, n)
    \<and> rpc_service S C env (KeepAliveReq c ls) n = (status_answer (ABORTED, ''This server is not master.''), n)
    \<and> rpc_service S C env (AcquireLockReq c p m) n =
        rpc_service S C (env\<lparr>leader := server_id (n_conf n)\<rparr>) (AcquireLockReq c p m) n
    \<and> rpc_service S C env (WriteReq c p t) n =
        rpc_service S C (env\<lparr>leader := server_id (n_conf n)\<rparr>) (WriteReq c p t) n"
  using assms by (simp add: rpc_init_session_def rpc_keep_alive_def)

theorem follower_refuses_witness:
  "rpc_service item_ser list_chan (demo_env\<lparr>leader := 2\<rparr>) (InitSession ''e'') demo_node =
    (status_answer status_CANCELLED, demo_node)"
proof -
  have "server_id (n_conf demo_node) \<noteq> leader (demo_env\<lparr>leader := 2\<rparr>)" by code_simp
  from follower_refuses [OF this] show ?thesis by blast
qed

lemma to_int32_wraps: "2 ^ 31 \<le> i \<Longrightarrow> i < 2 ^ 32 \<Longrightarrow> to_int32 i = i - 2 ^ 32"
proof -
  assume i: "2 ^ 31 \<le> i" "i < 2 ^ 32"
  have "take_bit (Suc 31) i = take_bit (Suc 31) (i - 2 ^ 32)"
    by (simp add: take_bit_eq_mod minus_mod_self2)
  then have "signed_take_bit 31 i = signed_take_bit 31 (i - 2 ^ 32)"
    by (simp only: signed_take_bit_eq_iff_take_bit_eq)
  also have "\<dots> = i - 2 ^ 32" using i by (intro signed_take_bit_int_eq_self) simp_all
  finally show ?thesis by (simp add: to_int32_def)
qed

text \<open>A keep-alive whose extended lease passes 2^31 - 1 milliseconds (after about 143164
  extensions, some 25 days) is read back as negative from an \<^verbatim>\<open>int32_t\<close>, taken for a missing
  session, and answered with the jeopardy handler's -1, by which the client expires its session,
  although the server has just extended it.\<close>

theorem keep_alive_overflow:
  assumes "chan_law C queued" and "om_find (sessions n) c = Some s" and "\<not> terminated s"
    and "queued (block_reply s) = x # rest" and "server_id (n_conf n) = leader env" and "\<not> cancelled env"
    and "2 ^ 31 \<le> lease_length s + 15000" and "lease_length s + 15000 < 2 ^ 32"
  shows "fst (rpc_service S C env (KeepAliveReq c ls) n) = keep_alive_response (- 1)"
proof -
  obtain ch where ch: "ch_pop C (block_reply s) = Some (x, ch)"
    using assms(1,4) unfolding chan_law_def by blast
  let ?s = "s\<lparr>block_reply := ch, lease_length := lease_length s + 15000\<rparr>"
  let ?n = "n\<lparr>sessions := upd_session c (\<lambda>_. ?s) (sessions n)\<rparr>"
  have ext: "attempt_extend_session C c n = (Some (lease_length s + 15000), ?n)"
    using assms(2,3) ch by (simp add: attempt_extend_session_def Let_def DEFAULT_LEASE_EXTENSION_def)
  have neg: "to_int32 (lease_length s + 15000) < 0" using to_int32_wraps assms(7,8) by simp
  have "om_find (sessions ?n) c = Some ?s" by (simp add: find_upd_session assms(2))
  then have "handle_jeopardy C (call_now env) c ls ?n = (Inr (Some (- 1)), ?n)"
    using assms(3) by (simp add: handle_jeopardy_def create_session_def Let_def)
  with ext neg assms(5,6) show ?thesis
    by (simp add: rpc_keep_alive_def to_int32_def)
qed

text \<open>A session of client \<open>e\<close> at the edge.\<close>

definition old_session :: "int list Session" where
  "old_session = \<lparr>client_id = ''e'', start_time = 0, lease_length = 2147475000, block_reply = [1],
     session_locks = [], terminated = False\<rparr>"

definition old_node :: "(int list, u64) node" where
  "old_node = demo_init\<lparr>sessions := [(''e'', old_session)]\<rparr>"

theorem keep_alive_overflow_witness:
  "fst (rpc_service item_ser list_chan demo_env (KeepAliveReq ''e'' []) old_node) = keep_alive_response (- 1)"
proof -
  have n: "om_find (sessions old_node) ''e'' = Some old_session" "server_id (n_conf old_node) = leader demo_env"
    "\<not> cancelled demo_env"
    by code_simp+
  have s: "\<not> terminated old_session" "id (block_reply old_session) = 1 # []"
    "2 ^ 31 \<le> lease_length old_session + 15000" "lease_length old_session + 15000 < 2 ^ 32"
    by (simp_all add: old_session_def)
  show ?thesis by (rule keep_alive_overflow [OF list_chan_law n(1) s(1,2) n(2,3) s(3,4)])
qed

section \<open>The client\<close>

text \<open>C19: Once the client's thread is in jeopardy it never leaves it alive: whatever the servers
  answer, when a pass reads a time beyond the jeopardy period's end the loop has returned with
  the session expired, even if a new master has re-established it meanwhile.\<close>

theorem jeopardy_always_expires:
  assumes "snd (clock k) > stop" and "k < fuel"
  shows "\<exists>c' w'. jeopardy_loop fuel net clock stop memberList c w = Some (c', w') \<and> expired c'"
  using assms by (intro jeopardy_loop_expires)

text \<open>C29: A client's read that succeeds removes the lock from the client's own table, so its next
  read, write or release of that path is refused locally, while the server still has the client
  as an owner: only the end of the session releases the lock.\<close>

theorem read_forgets_lock:
  assumes "client_read net later p c w = (Inr (st, str), c', w')" and "ok st"
  shows "client_read net later' p c' w2 =
      (Inr ((ABORTED, ''Client doesn't have the lock you are trying to read from.''), []), c', w2)
    \<and> client_write net later' p t c' w2 =
      (Inr (ABORTED, ''Client doesn't have the lock you are trying to write to.''), c', w2)
    \<and> client_release_lock net later' p c' w2 =
      (Inr (ABORTED, ''Client doesn't have the lock you are trying to release.''), c', w2)"
proof -
  have "om_find (c_locks c') p = None \<and> \<not> jeopardy c'"
    using assms
    by (auto simp: client_read_def session_expired_def find_erase await_session_def
        split: option.splits if_splits prod.splits)
  then show ?thesis
    by (simp add: client_read_def client_release_lock_def client_write_def await_session_def)
qed

text \<open>The client of the lock \<open>f\<close> of the demonstration node.\<close>

definition demo_client :: client where
  "demo_client = \<lparr>session_id = ''c'', lease_start = 0, c_lease_length = 12000, c_locks = [(''f'', EXCLUSIVE)],
     jeopardy = False, expired = False, master = Some ''s1''\<rparr>"

text \<open>C24: What the client is told about an acquisition is what happened on the server it is
  connected to: when the answer is OK the server records the client as a holder and the client
  has the lock in its table, and otherwise neither has changed.\<close>

theorem client_acquire_agrees:
  assumes "serves S C env a net" and "master c = Some a" and "\<not> jeopardy c" and "node_inv n"
    and "client_acquire_lock net later p mode c n = (Inr st, c', n')"
  shows "if ok st then holds (session_id c) p n' \<and> om_find (c_locks c') p \<noteq> None
    else n' = n \<and> c' = c"
proof -
  obtain st1 n1 where acq: "acquire_lock (session_id c) p mode n = (st1, n1)" by fastforce
  have "net a None (AcquireLockReq (session_id c) p mode) n = ((st1, empty_response), n1)"
    using assms(1) acq by (simp add: serves_def deliver_def status_answer_def)
  then have st: "st1 = st" "n' = n1"
    "c' = (if ok st then c\<lparr>c_locks := om_insert p mode (c_locks c)\<rparr> else c)"
    using assms(2,3,5) by (auto simp: client_acquire_lock_def await_session_def ep_acquire_lock_def)
  then show ?thesis
    using acquire_holds [OF assms(4) acq] acquire_refused_same [OF assms(4) acq] by (simp add: find_insert)
qed

theorem client_acquire_agrees_witness:
  "snd (snd (client_acquire_lock demo_net demo_client ''f'' SHARED
      \<lparr>session_id = ''d'', lease_start = 0, c_lease_length = 12000, c_locks = [], jeopardy = False,
       expired = False, master = Some ''s1''\<rparr> demo_node)) = demo_node"
proof -
  let ?c = "\<lparr>session_id = ''d'', lease_start = 0, c_lease_length = 12000, c_locks = [], jeopardy = False,
       expired = False, master = Some ''s1''\<rparr>"
  have "fst (client_acquire_lock demo_net ?c ''f'' SHARED ?c demo_node) =
      Inr (ABORTED, ''Someone already holds the lock in exclusive mode'')"
    by code_simp
  then obtain c' n' where a: "client_acquire_lock demo_net ?c ''f'' SHARED ?c demo_node =
      (Inr (ABORTED, ''Someone already holds the lock in exclusive mode''), c', n')"
    by (metis prod.collapse)
  have "client_acquire_lock demo_net demo_client ''f'' SHARED ?c demo_node = client_acquire_lock demo_net ?c ''f'' SHARED ?c demo_node"
    by (simp add: client_acquire_lock_def await_session_def)
  moreover have sv: "serves item_ser list_chan demo_env ''s1'' demo_net"
    unfolding demo_net_def by (rule one_server_serves)
  ultimately show ?thesis using client_acquire_agrees [OF sv _ _ demo_inv a] by (simp add: a)
qed

text \<open>The path of a write and a read from the client to the disk and back.\<close>

lemma write_read_through_client:
  assumes "serves S C env a net" and "master c = Some a" and "\<not> jeopardy c" and "om_find (c_locks c) p \<noteq> None"
    and "ser_law S room written pending" and "is_absolute (cwd (n_conf n))"
    and "dir_ready (n_conf n) (n_fs n)" and "lock_name p" and "length p + length t \<le> 60"
    and "holds (session_id c) p n" and "is_exists p n" and "call_outcome env = Committed i"
  shows "case client_write net later p t c n of (st, c', n') \<Rightarrow>
    st = Inr status_OK \<and> c' = c \<and> lock_table n' = lock_table n
    \<and> fst (client_read net later p c' n') = Inr (status_OK, t)"
proof -
  let ?id = "session_id c"
  obtain fs' where fs': "append_log S (n_conf n) (Committed i) (call_random env) WRITE p t (n_sm n) (n_fs n) =
      (Inr (), (n_sm n)\<lparr>cur_value := Some p, last_committed_idx := i\<rparr>, fs')"
    "om_find fs' (file_of (n_conf n) p) = Some (Regular t)"
    using committed_write [OF assms(5-9)] by metis
  let ?n = "n\<lparr>n_sm := (n_sm n)\<lparr>cur_value := Some p, last_committed_idx := i\<rparr>, n_fs := fs'\<rparr>"
  have w: "server_write S (Committed i) (call_random env) ?id p t n = (Inr status_OK, ?n)"
    by (rule server_write_holder [OF assms(10,11) fs'(1)])
  have "read_content p ?n = Inr t" by (rule read_content_flat(1)) (simp_all add: assms fs'(2))
  then have r: "server_read ?id p ?n = Inr (status_OK, t)"
    by (intro server_read_holder) (simp_all add: assms(10))
  have calls: "net a None (WriteReq ?id p t) n = ((status_OK, empty_response), ?n)"
    "net a None (ReadReq ?id p) ?n = ((status_OK, empty_response\<lparr>resp_content := t\<rparr>), ?n)"
    using assms(1,12) w r by (simp_all add: serves_def deliver_def result_answer_def status_answer_def rpc_read_def status_OK_def)
  have "client_write net later p t c n = (Inr status_OK, c, ?n)"
    using assms(2-4) calls(1) by (auto simp: client_write_def await_session_def ep_write_def)
  moreover have "fst (client_read net later p c ?n) = Inr (status_OK, t)"
    using assms(2-4) calls(2) by (auto simp: client_read_def await_session_def ep_read_def)
  moreover have "lock_table ?n = lock_table n" by (simp add: lock_table_def fun_eq_iff split: option.split)
  ultimately show ?thesis by simp
qed





text \<open>A whole exchange: a client starts a session with the first member that accepts it, opens
  and acquires a lock, writes and reads back; the read gives what was written, and a release
  after it is refused although the server still records the client as the owner.\<close>

theorem client_exchange:
  "case start_session demo_net ''me'' 0 [''s0'', ''s1''] demo_init of (st, c, w) \<Rightarrow>
   (case client_open_lock demo_net c ''f'' c w of (opened, c, w) \<Rightarrow>
   (case client_acquire_lock demo_net c ''f'' EXCLUSIVE c w of (acq, c, w) \<Rightarrow>
   (case client_write demo_net c ''f'' ''hello'' c w of (wr, c, w) \<Rightarrow>
   (case client_read demo_net c ''f'' c w of (rd, c, w) \<Rightarrow>
     st = status_OK \<and> master c = Some ''s1'' \<and> opened = Inr True \<and> acq = Inr status_OK
     \<and> wr = Inr status_OK \<and> rd = Inr (status_OK, ''hello'')
     \<and> fst (client_release_lock demo_net c ''f'' c w) =
         Inr (ABORTED, ''Client doesn't have the lock you are trying to release.'')
     \<and> holds_exclusively ''me'' ''f'' w))))"
  by code_simp

theorem jeopardy_always_expires_witness:
  "\<exists>c' w'. jeopardy_loop 50 demo_net (\<lambda>i. (1000 * int i, 1000 * int i)) 45000 [''s1'']
     \<lparr>session_id = ''c'', lease_start = 0, c_lease_length = 0, c_locks = [], jeopardy = True,
      expired = False, master = Some ''s1''\<rparr> demo_node = Some (c', w') \<and> expired c'"
  by (rule jeopardy_always_expires [where k = 46]) simp_all

theorem read_forgets_lock_witness:
  "case client_read demo_net demo_client ''f'' demo_client demo_node of (r, c', w') \<Rightarrow>
     client_release_lock demo_net demo_client ''f'' c' w' =
       (Inr (ABORTED, ''Client doesn't have the lock you are trying to release.''), c', w')"
proof -
  have "fst (client_read demo_net demo_client ''f'' demo_client demo_node) = Inr (status_OK, [])" by code_simp
  then obtain c' w' where r: "client_read demo_net demo_client ''f'' demo_client demo_node = (Inr (status_OK, []), c', w')"
    by (metis prod.collapse)
  have "ok status_OK" by (simp add: status_OK_def)
  from read_forgets_lock [OF r this] show ?thesis by (simp add: r)
qed

end
