(* ===== verification/LogStore.thy ===== *)
theory LogStore
  imports StdMap
begin

text \<open>
  The in-memory log store of \<^verbatim>\<open>src/consensus/log_store.cc\<close>. NuRaft's \<^verbatim>\<open>log_entry\<close> and
  \<^verbatim>\<open>buffer\<close> are not in the repository: their operations are records of functions, and what
  they document is \<open>entry_law\<close> and \<open>pack_law\<close>. Indices are the code's \<^verbatim>\<open>ulong\<close>s, with their
  wrap-around; \<^verbatim>\<open>assert\<close> is taken to be compiled in.
\<close>

section \<open>The library's entries and buffers\<close>

record ('e, 'b, 'v) entry_api =
  new_entry :: "u64 \<Rightarrow> 'b \<Rightarrow> 'v \<Rightarrow> u64 \<Rightarrow> 'e"
  get_term :: "'e \<Rightarrow> u64"
  get_buf :: "'e \<Rightarrow> 'b"
  get_val_type :: "'e \<Rightarrow> 'v"
  get_timestamp :: "'e \<Rightarrow> u64"
  app_log :: 'v
  buf_clone :: "'b \<Rightarrow> 'b"
  buf_size :: "'b \<Rightarrow> nat"
  zero_buf :: "nat \<Rightarrow> 'b"
  serialize :: "'e \<Rightarrow> 'b"
  deserialize :: "'b \<Rightarrow> 'e"

definition entry_law :: "('e, 'b, 'v) entry_api \<Rightarrow> bool" where
  "entry_law A \<longleftrightarrow>
     (\<forall>b. buf_clone A b = b) \<and>
     (\<forall>e. new_entry A (get_term A e) (get_buf A e) (get_val_type A e) (get_timestamp A e) = e)"

text \<open>
  The buffer operations of \<^verbatim>\<open>pack\<close> and \<^verbatim>\<open>apply_pack\<close>: \<open>bytes b\<close> is the whole content of
  a buffer, \<open>out b\<close> what was put so far, \<open>left b\<close> what is left to get, \<open>room b\<close> the space,
  \<open>enc\<close> the four bytes of an integer.
\<close>

record 'b pack_api =
  p_alloc :: "nat \<Rightarrow> 'b"
  p_rewind :: "'b \<Rightarrow> 'b"
  put_int :: "u32 \<Rightarrow> 'b \<Rightarrow> 'b option"
  put_buf :: "'b \<Rightarrow> 'b \<Rightarrow> 'b option"
  get_int :: "'b \<Rightarrow> (u32 \<times> 'b) option"
  get_bytes :: "nat \<Rightarrow> 'b \<Rightarrow> ('b \<times> 'b) option"

definition pack_law ::
    "('e, 'b, 'v) entry_api \<Rightarrow> 'b pack_api \<Rightarrow> (u32 \<Rightarrow> byte list) \<Rightarrow> ('b \<Rightarrow> byte list) \<Rightarrow>
     ('b \<Rightarrow> nat) \<Rightarrow> ('b \<Rightarrow> byte list) \<Rightarrow> ('b \<Rightarrow> byte list) \<Rightarrow> bool" where
  "pack_law A B enc bytes room out left \<longleftrightarrow>
     (\<forall>x. length (enc x) = 4) \<and>
     (\<forall>n. room (p_alloc B n) = n \<and> out (p_alloc B n) = []) \<and>
     (\<forall>b. left (p_rewind B b) = out b) \<and>
     (\<forall>x b. 4 \<le> room b \<longrightarrow> (\<exists>b'. put_int B x b = Some b' \<and> out b' = out b @ enc x \<and> room b' = room b - 4)) \<and>
     (\<forall>y b. length (bytes y) \<le> room b \<longrightarrow>
        (\<exists>b'. put_buf B y b = Some b' \<and> out b' = out b @ bytes y \<and> room b' = room b - length (bytes y))) \<and>
     (\<forall>x b r. left b = enc x @ r \<longrightarrow> (\<exists>b'. get_int B b = Some (x, b') \<and> left b' = r)) \<and>
     (\<forall>n b xs r. left b = xs @ r \<and> length xs = n \<longrightarrow>
        (\<exists>y b'. get_bytes B n b = Some (y, b') \<and> bytes y = xs \<and> left b' = r)) \<and>
     (\<forall>y. buf_size A y = length (bytes y)) \<and>
     (\<forall>e y. bytes y = bytes (serialize A e) \<longrightarrow> deserialize A y = e)"

section \<open>State\<close>

record 'e log_store =
  logs :: "(u64, 'e) omap"
  start_idx :: u64
  disk_emul_delay :: u64
  logs_being_written :: "(u64, u64) omap"
  disk_thread :: bool
  stop_signal :: bool
  last_durable :: u64

definition make_clone :: "('e, 'b, 'v) entry_api \<Rightarrow> 'e \<Rightarrow> 'e" where
  "make_clone A e =
     new_entry A (get_term A e) (buf_clone A (get_buf A e)) (get_val_type A e) (get_timestamp A e)"

text \<open>A new store holds the dummy entry of index 0.\<close>

definition inmem_log_store :: "('e, 'b, 'v) entry_api \<Rightarrow> 'e log_store" where
  "inmem_log_store A =
     \<lparr>logs = [(0, new_entry A 0 (zero_buf A 8) (app_log A) 0)], start_idx = 1,
      disk_emul_delay = 0, logs_being_written = [], disk_thread = False, stop_signal = False,
      last_durable = 0\<rparr>"

section \<open>Reading\<close>

definition next_slot :: "'e log_store \<Rightarrow> u64" where
  "next_slot s = start_idx s + of_nat (length (logs s)) - 1"

definition start_index :: "'e log_store \<Rightarrow> u64" where
  "start_index s = start_idx s"

text \<open>An index that is not there stands for the dummy; without one, \<^verbatim>\<open>end()\<close> is dereferenced.\<close>

definition find_or_dummy :: "u64 \<Rightarrow> 'e log_store \<Rightarrow> 'e result" where
  "find_or_dummy i s =
     (case om_find (logs s) i of
        Some e \<Rightarrow> Inr e
      | None \<Rightarrow> (case om_find (logs s) 0 of Some e \<Rightarrow> Inr e | None \<Rightarrow> Inl UndefinedBehaviour))"

definition last_entry :: "('e, 'b, 'v) entry_api \<Rightarrow> 'e log_store \<Rightarrow> 'e result" where
  "last_entry A s = map_sum id (make_clone A) (find_or_dummy (next_slot s - 1) s)"

definition entry_at :: "('e, 'b, 'v) entry_api \<Rightarrow> u64 \<Rightarrow> 'e log_store \<Rightarrow> 'e result" where
  "entry_at A i s = map_sum id (make_clone A) (find_or_dummy i s)"

definition term_at :: "('e, 'b, 'v) entry_api \<Rightarrow> u64 \<Rightarrow> 'e log_store \<Rightarrow> u64 result" where
  "term_at A i s = map_sum id (get_term A) (find_or_dummy i s)"

text \<open>The indices \<^verbatim>\<open>for (ii = start; ii < end; ++ii)\<close> visits.\<close>

definition index_range :: "u64 \<Rightarrow> u64 \<Rightarrow> u64 list" where
  "index_range start end = map of_nat [unat start..<unat end]"

fun read_all :: "('e, 'b, 'v) entry_api \<Rightarrow> u64 list \<Rightarrow> 'e log_store \<Rightarrow> 'e list result" where
  "read_all A [] s = Inr []"
| "read_all A (i # is) s =
     (case om_find (logs s) i of
        None \<Rightarrow> Inl AssertFailure
      | Some e \<Rightarrow> map_sum id (\<lambda>r. make_clone A e # r) (read_all A is s))"

text \<open>
  \<^verbatim>\<open>log_entries\<close> resizes its vector to \<^verbatim>\<open>end - start\<close> null pointers before it fills it;
  beyond the vector's maximal size that throws.
\<close>

definition max_vector_size :: nat where
  "max_vector_size = 2 ^ 59 - 1"

definition log_entries ::
    "('e, 'b, 'v) entry_api \<Rightarrow> u64 \<Rightarrow> u64 \<Rightarrow> 'e log_store \<Rightarrow> 'e option list result" where
  "log_entries A start end s =
     (if unat (end - start) > max_vector_size then Inl LengthError
      else case read_all A (index_range start end) s of
             Inl e \<Rightarrow> Inl e
           | Inr es \<Rightarrow> Inr (map Some es @ replicate (unat (end - start) - length es) None))"

fun read_batch ::
    "('e, 'b, 'v) entry_api \<Rightarrow> u64 \<Rightarrow> u64 list \<Rightarrow> u64 \<Rightarrow> 'e log_store \<Rightarrow> 'e list result" where
  "read_batch A hint [] accum s = Inr []"
| "read_batch A hint (i # is) accum s =
     (case om_find (logs s) i of
        None \<Rightarrow> Inl AssertFailure
      | Some e \<Rightarrow>
          (let accum' = accum + of_nat (buf_size A (get_buf A e))
           in if hint \<noteq> 0 \<and> accum' \<ge> hint then Inr [make_clone A e]
              else map_sum id (\<lambda>r. make_clone A e # r) (read_batch A hint is accum' s)))"

definition log_entries_ext ::
    "('e, 'b, 'v) entry_api \<Rightarrow> u64 \<Rightarrow> u64 \<Rightarrow> u64 \<Rightarrow> 'e log_store \<Rightarrow> 'e list result" where
  "log_entries_ext A start end hint s =
     (if hint <s 0 then Inr [] else read_batch A hint (index_range start end) 0 s)"

section \<open>Writing\<close>

definition append :: "('e, 'b, 'v) entry_api \<Rightarrow> u64 \<Rightarrow> 'e \<Rightarrow> 'e log_store \<Rightarrow> u64 \<times> 'e log_store" where
  "append A cur_time e s =
     (let idx = start_idx s + of_nat (length (logs s)) - 1;
          s' = s\<lparr>logs := om_assign idx (make_clone A e) (logs s)\<rparr>
      in (idx,
          if disk_emul_delay s \<noteq> 0
          then s'\<lparr>logs_being_written :=
                    om_assign (cur_time + disk_emul_delay s * 1000) idx (logs_being_written s)\<rparr>
          else s'))"

definition write_at :: "('e, 'b, 'v) entry_api \<Rightarrow> u64 \<Rightarrow> u64 \<Rightarrow> 'e \<Rightarrow> 'e log_store \<Rightarrow> 'e log_store" where
  "write_at A cur_time index e s =
     (let s' = s\<lparr>logs := om_assign index (make_clone A e) (om_erase_from index (logs s))\<rparr>
      in if disk_emul_delay s \<noteq> 0
         then s'\<lparr>logs_being_written :=
                   filter (\<lambda>w. \<not> snd w > index)
                     (om_assign (cur_time + disk_emul_delay s * 1000) index (logs_being_written s))\<rparr>
         else s')"

text \<open>
  The loop of \<^verbatim>\<open>compact\<close>. Its counter wraps after the largest index, so it does not return
  when \<^verbatim>\<open>last_log_index\<close> is that index.
\<close>

partial_function (option) compact_loop :: "u64 \<Rightarrow> u64 \<Rightarrow> (u64, 'e) omap \<Rightarrow> (u64, 'e) omap option" where
  "compact_loop ii last_log_index m =
     (if ii \<le> last_log_index then compact_loop (ii + 1) last_log_index (om_erase ii m) else Some m)"

definition compact :: "u64 \<Rightarrow> 'e log_store \<Rightarrow> (bool \<times> 'e log_store) option" where
  "compact last_log_index s =
     (case compact_loop (start_idx s) last_log_index (logs s) of
        None \<Rightarrow> None
      | Some m \<Rightarrow>
          Some (True, s\<lparr>logs := m,
            start_idx := (if start_idx s \<le> last_log_index then last_log_index + 1 else start_idx s)\<rparr>))"

section \<open>Packing\<close>

fun collect_packs ::
    "('e, 'b, 'v) entry_api \<Rightarrow> u64 list \<Rightarrow> 'e log_store \<Rightarrow> 'b list result" where
  "collect_packs A [] s = Inr []"
| "collect_packs A (i # is) s =
     (case om_find (logs s) i of
        None \<Rightarrow> Inl AssertFailure
      | Some e \<Rightarrow> map_sum id (\<lambda>r. serialize A e # r) (collect_packs A is s))"

fun put_packs :: "('e, 'b, 'v) entry_api \<Rightarrow> 'b pack_api \<Rightarrow> 'b list \<Rightarrow> 'b \<Rightarrow> 'b option" where
  "put_packs A B [] b = Some b"
| "put_packs A B (x # xs) b =
     Option.bind (put_int B (of_nat (buf_size A x)) b) (\<lambda>b1.
     Option.bind (put_buf B x b1) (\<lambda>b2. put_packs A B xs b2))"

text \<open>\<open>cnt\<close> is an \<^verbatim>\<open>int32\<close>, converted to \<^verbatim>\<open>ulong\<close> in the sums.\<close>

definition pack ::
    "('e, 'b, 'v) entry_api \<Rightarrow> 'b pack_api \<Rightarrow> u64 \<Rightarrow> u32 \<Rightarrow> 'e log_store \<Rightarrow> 'b result" where
  "pack A B index cnt s =
     (case collect_packs A (index_range index (index + scast cnt)) s of
        Inl e \<Rightarrow> Inl e
      | Inr bufs \<Rightarrow>
          (let size_total = sum_list (map (buf_size A) bufs);
               size = 4 + scast cnt * 4 + of_nat size_total :: u64
           in case Option.bind (put_int B cnt (p_alloc B (unat size))) (put_packs A B bufs) of
                None \<Rightarrow> Inl OverflowError
              | Some b \<Rightarrow> Inr b))"

fun take_packs ::
    "('e, 'b, 'v) entry_api \<Rightarrow> 'b pack_api \<Rightarrow> nat \<Rightarrow> u64 \<Rightarrow> 'b \<Rightarrow> (u64, 'e) omap \<Rightarrow>
     unit result \<times> (u64, 'e) omap" where
  "take_packs A B 0 i b m = (Inr (), m)"
| "take_packs A B (Suc n) i b m =
     (case get_int B b of
        None \<Rightarrow> (Inl OverflowError, m)
      | Some (sz, b1) \<Rightarrow>
          (case get_bytes B (unat (scast sz :: u64)) b1 of
             None \<Rightarrow> (Inl OverflowError, m)
           | Some (buf_local, b2) \<Rightarrow>
               take_packs A B n (i + 1) b2 (om_assign i (deserialize A buf_local) m)))"

definition apply_pack ::
    "('e, 'b, 'v) entry_api \<Rightarrow> 'b pack_api \<Rightarrow> u64 \<Rightarrow> 'b \<Rightarrow> 'e log_store \<Rightarrow> unit result \<times> 'e log_store" where
  "apply_pack A B index b s =
     (case get_int B (p_rewind B b) of
        None \<Rightarrow> (Inl OverflowError, s)
      | Some (num_logs, b1) \<Rightarrow>
          (case take_packs A B (nat (sint num_logs)) index b1 (logs s) of
             (Inl e, m) \<Rightarrow> (Inl e, s\<lparr>logs := m\<rparr>)
           | (Inr _, m) \<Rightarrow>
               (Inr (), s\<lparr>logs := m,
                 start_idx := (case om_upper_bound 0 m of None \<Rightarrow> 1 | Some e \<Rightarrow> fst e)\<rparr>)))"

section \<open>Durability\<close>

definition flush :: "'e log_store \<Rightarrow> bool \<times> 'e log_store" where
  "flush s = (True, s\<lparr>last_durable := next_slot s - 1\<rparr>)"

definition set_disk_delay :: "u64 \<Rightarrow> 'e log_store \<Rightarrow> 'e log_store" where
  "set_disk_delay delay_ms s = s\<lparr>disk_emul_delay := delay_ms, disk_thread := True\<rparr>"

definition last_durable_index :: "'e log_store \<Rightarrow> u64" where
  "last_durable_index s = (if disk_emul_delay s = 0 then next_slot s - 1 else last_durable s)"

text \<open>One wake-up of the thread: the indices whose time has come, in order of time.\<close>

fun disk_scan :: "u64 \<Rightarrow> (u64, u64) omap \<Rightarrow> u64 \<Rightarrow> bool \<Rightarrow> (u64, u64) omap \<times> u64 \<times> bool" where
  "disk_scan cur [] durable notify = ([], durable, notify)"
| "disk_scan cur (w # ws) durable notify =
     (if fst w \<le> cur then disk_scan cur ws (snd w) True else (w # ws, durable, notify))"

text \<open>\<open>None\<close>: the thread stops. Otherwise the next sleep, whether Raft is notified, the new state.\<close>

definition disk_emul_step :: "u64 \<Rightarrow> 'e log_store \<Rightarrow> (u64 \<times> bool \<times> 'e log_store) option" where
  "disk_emul_step cur_time s =
     (if stop_signal s then None
      else case disk_scan cur_time (logs_being_written s) (last_durable s) False of
             (rest, durable, notify) \<Rightarrow>
               Some (case rest of [] \<Rightarrow> 100 * 1000 | w # _ \<Rightarrow> fst w - cur_time, notify,
                 s\<lparr>logs_being_written := rest, last_durable := durable\<rparr>))"

definition destroy :: "'e log_store \<Rightarrow> 'e log_store" where
  "destroy s = (if disk_thread s then s\<lparr>stop_signal := True\<rparr> else s)"

end
