(* ===== verification/LogStoreSpec.thy ===== *)
theory LogStoreSpec
  imports LogStore
begin

text \<open>
  The abstract log: the index of its first entry and the list of its entries. A store
  represents it when its map is the dummy followed by the entries at consecutive indices.
  Every operation refines an operation on the abstract log; the contract Raft relies on is
  the locale \<open>raft_log\<close>, proved once and interpreted on the store.
\<close>

section \<open>Representation\<close>

definition consecutive :: "nat \<Rightarrow> 'e list \<Rightarrow> (u64, 'e) omap" where
  "consecutive n es = zip (map of_nat [n..<n + length es]) es"

text \<open>The last index of the type is never used, as in the code's own comparison of indices.\<close>

definition represents :: "'e log_store \<Rightarrow> 'e \<Rightarrow> nat \<Rightarrow> 'e list \<Rightarrow> bool" where
  "represents s d n es \<longleftrightarrow>
     1 \<le> n \<and> n + length es < 2 ^ 64 \<and> start_idx s = of_nat n \<and> logs s = (0, d) # consecutive n es"

lemma consecutive_simps [simp]:
  "consecutive n [] = []"
  "consecutive n (e # es) = (of_nat n, e) # consecutive (Suc n) es"
  by (simp_all add: consecutive_def upt_conv_Cons del: upt_Suc)

lemma length_consecutive [simp]: "length (consecutive n es) = length es"
  by (simp add: consecutive_def)

lemma unat_u64 [simp]: "m < 2 ^ 64 \<Longrightarrow> unat (of_nat m :: u64) = m"
  by (simp add: unsigned_of_nat take_bit_nat_eq_self)

lemma of_nat_less_u64: "m < 2 ^ 64 \<Longrightarrow> n < 2 ^ 64 \<Longrightarrow> (of_nat m :: u64) < of_nat n \<longleftrightarrow> m < n"
  by (simp add: word_less_nat_alt)

lemma of_nat_eq_u64: "m < 2 ^ 64 \<Longrightarrow> n < 2 ^ 64 \<Longrightarrow> (of_nat m :: u64) = of_nat n \<longleftrightarrow> m = n"
  by (metis unat_u64)

lemma find_consecutive:
  "n + length es < 2 ^ 64 \<Longrightarrow> i < 2 ^ 64 \<Longrightarrow> om_find (consecutive n es) (of_nat i) =
     (if n \<le> i \<and> i < n + length es then Some (es ! (i - n)) else None)"
proof (induction es arbitrary: n)
  case (Cons e es)
  have "(of_nat n :: u64) = of_nat i \<longleftrightarrow> n = i" using Cons.prems by (intro of_nat_eq_u64) auto
  moreover have "i - n = Suc (i - Suc n)" if "n < i" using that by simp
  ultimately show ?case using Cons by (auto simp: nth_Cons split: nat.split)
qed simp

lemma find_represents:
  assumes "represents s d n es" and "i < 2 ^ 64"
  shows "om_find (logs s) (of_nat i) =
    (if i = 0 then Some d else if n \<le> i \<and> i < n + length es then Some (es ! (i - n)) else None)"
  using assms find_consecutive [of n es i] of_nat_eq_u64 [of i 0]
  by (auto simp: represents_def)

lemma consecutive_append:
  "consecutive n (es @ [e]) = consecutive n es @ [(of_nat (n + length es), e)]"
  by (induction es arbitrary: n) simp_all

lemma consecutive_keys: "fst ` set (consecutive n es) = of_nat ` {n..<n + length es}"
  by (simp add: consecutive_def set_zip [symmetric] flip: set_map) (simp add: map_fst_zip_take)

lemma assign_beyond: "\<forall>k' \<in> fst ` set m. k' < k \<Longrightarrow> om_assign k v m = m @ [(k, v)]"
  by (induction m) auto

lemma keys_below:
  assumes "1 \<le> n" and "n + length es \<le> i" and "i < 2 ^ 64"
  shows "\<forall>k \<in> fst ` set ((0, d) # consecutive n es). k < of_nat i"
proof -
  have "(0::u64) < of_nat i" using of_nat_less_u64 [of 0 i] assms by simp
  moreover have "(of_nat j :: u64) < of_nat i" if "j < n + length es" for j
    using that assms by (subst of_nat_less_u64) auto
  ultimately show ?thesis by (auto simp: consecutive_keys)
qed

lemma new_store_represents: "represents (inmem_log_store A) (new_entry A 0 (zero_buf A 8) (app_log A) 0) 1 []"
  by (simp add: represents_def inmem_log_store_def)

section \<open>Each operation\<close>

lemma make_clone_id: "entry_law A \<Longrightarrow> make_clone A e = e"
  by (simp add: entry_law_def make_clone_def)

lemma next_slot_represents: "represents s d n es \<Longrightarrow> next_slot s = of_nat (n + length es)"
  by (simp add: represents_def next_slot_def)

lemma find_or_dummy_represents:
  assumes "represents s d n es" and "i < 2 ^ 64"
  shows "find_or_dummy (of_nat i) s = Inr (if n \<le> i \<and> i < n + length es then es ! (i - n) else d)"
  using find_represents [OF assms] find_represents [OF assms(1), of 0] assms(1)
  by (auto simp: find_or_dummy_def represents_def)

lemma append_represents:
  assumes "entry_law A" and "represents s d n es" and "n + length es < 2 ^ 64 - 1"
  shows "fst (append A cur e s) = of_nat (n + length es)"
    and "represents (snd (append A cur e s)) d n (es @ [e])"
proof -
  have idx: "start_idx s + of_nat (length (logs s)) - 1 = of_nat (n + length es)"
    using assms(2) by (simp add: represents_def)
  then show "fst (append A cur e s) = of_nat (n + length es)" by (simp add: append_def Let_def)
  have "om_assign (of_nat (n + length es)) e (logs s) = logs s @ [(of_nat (n + length es), e)]"
    using assms(2,3) keys_below [of n es "n + length es" d]
    by (intro assign_beyond) (simp add: represents_def)
  with idx assms show "represents (snd (append A cur e s)) d n (es @ [e])"
    by (simp add: append_def Let_def represents_def make_clone_id consecutive_append)
qed

lemma erase_from_consecutive:
  "n + length es < 2 ^ 64 \<Longrightarrow> i < 2 ^ 64 \<Longrightarrow>
    om_erase_from (of_nat i) (consecutive n es) = consecutive n (take (i - n) es)"
proof (induction es arbitrary: n)
  case (Cons e es)
  have "(of_nat n :: u64) < of_nat i \<longleftrightarrow> n < i" using Cons.prems by (intro of_nat_less_u64) auto
  moreover have "i - n = Suc (i - Suc n)" if "n < i" using that by simp
  ultimately show ?case using Cons by (auto simp: om_erase_from_def)
qed (simp add: om_erase_from_def)

lemma write_at_represents:
  assumes "entry_law A" and "represents s d n es" and "n \<le> i" and "i \<le> n + length es"
    and "i < 2 ^ 64 - 1"
  shows "represents (write_at A cur (of_nat i) e s) d n (take (i - n) es @ [e])"
proof -
  have "(0::u64) < of_nat i" using of_nat_less_u64 [of 0 i] assms by (simp add: represents_def)
  then have er: "om_erase_from (of_nat i) (logs s) = (0, d) # consecutive n (take (i - n) es)"
    using assms erase_from_consecutive [of n es i]
    by (simp add: represents_def om_erase_from_def)
  have "om_assign (of_nat i) e ((0, d) # consecutive n (take (i - n) es)) =
      ((0, d) # consecutive n (take (i - n) es)) @ [(of_nat i, e)]"
    using assms keys_below [of n "take (i - n) es" i d]
    by (intro assign_beyond) (simp add: represents_def)
  moreover have "n + length (take (i - n) es) = i" using assms(3,4) by simp
  then have "consecutive n (take (i - n) es @ [e]) = consecutive n (take (i - n) es) @ [(of_nat i, e)]"
    by (simp only: consecutive_append)
  ultimately have "om_assign (of_nat i) e (om_erase_from (of_nat i) (logs s)) =
      (0, d) # consecutive n (take (i - n) es @ [e])"
    by (simp only: er append_Cons)
  with assms show ?thesis
    by (auto simp: write_at_def Let_def represents_def make_clone_id)
qed

section \<open>Compaction\<close>

text \<open>With the largest index as its bound the loop has no result.\<close>

lemma compact_loop_result: "compact_loop ii l m = Some m' \<Longrightarrow> l \<noteq> - 1"
  by (erule compact_loop.raw_induct [rotated]) (auto split: if_splits)

lemma compact_loop_max: "compact_loop ii (- 1) m = None"
  using compact_loop_result by (metis option.exhaust)

text \<open>Otherwise it ends, with the indices of the range erased.\<close>

lemma compact_loop_terminates:
  assumes "l \<noteq> - 1"
  shows "compact_loop ii l m = Some (filter (\<lambda>e. \<not> (ii \<le> fst e \<and> fst e \<le> l)) m)"
proof (induction "unat l + 1 - unat ii" arbitrary: ii m)
  case 0
  then have "\<not> ii \<le> l" by (simp add: word_le_nat_alt)
  moreover from this have "filter (\<lambda>e. \<not> (ii \<le> fst e \<and> fst e \<le> l)) m = m"
    by (intro filter_True) auto
  ultimately show ?case by (subst compact_loop.simps) simp
next
  case (Suc k)
  have le: "ii \<le> l" using Suc.hyps(2) by (simp add: word_le_nat_alt)
  have ii: "ii \<noteq> - 1" using le assms by (metis word_order.extremum_uniqueI)
  then have "1 + ii \<noteq> 0" by (metis add.commute add_eq_0_iff)
  then have "unat (ii + 1) = Suc (unat ii)" by (metis unatSuc add.commute)
  then have "k = unat l + 1 - unat (ii + 1)" using Suc.hyps(2) by simp
  with Suc.hyps(1) have "compact_loop (ii + 1) l (om_erase ii m) =
      Some (filter (\<lambda>e. \<not> (ii + 1 \<le> fst e \<and> fst e \<le> l)) (om_erase ii m))" by blast
  moreover have "filter (\<lambda>e. \<not> (ii + 1 \<le> fst e \<and> fst e \<le> l)) (om_erase ii m) =
      filter (\<lambda>e. \<not> (ii \<le> fst e \<and> fst e \<le> l)) m"
    using le ii by (auto simp: om_erase_def inc_less_eq_iff intro!: filter_cong)
  ultimately show ?case using le by (subst compact_loop.simps) simp
qed

lemma filter_consecutive:
  "n + length es < 2 ^ 64 \<Longrightarrow> l < 2 ^ 64 \<Longrightarrow>
    filter (\<lambda>e. \<not> fst e \<le> of_nat l) (consecutive n es) =
      consecutive (n + (Suc l - n)) (drop (Suc l - n) es)"
proof (induction es arbitrary: n)
  case (Cons e es)
  have "(of_nat n :: u64) \<le> of_nat l \<longleftrightarrow> n \<le> l"
    using of_nat_less_u64 [of l n] Cons.prems by (auto simp: linorder_not_less [symmetric])
  moreover have "Suc l - n = Suc (l - n)" if "n \<le> l" using that by simp
  ultimately show ?case using Cons.IH [of "Suc n"] Cons.prems by (auto simp: not_le)
qed simp

lemma compact_represents:
  assumes "represents s d n es" and "l < 2 ^ 64 - 1"
  obtains s' where "compact (of_nat l) s = Some (True, s')"
    and "represents s' d (max n (Suc l)) (drop (Suc l - n) es)"
proof -
  have n: "1 \<le> n" "n + length es < 2 ^ 64" "start_idx s = of_nat n" "logs s = (0, d) # consecutive n es"
    using assms(1) by (simp_all add: represents_def)
  have "(of_nat l :: u64) \<noteq> - 1"
  proof
    assume "(of_nat l :: u64) = - 1"
    then have "unat (of_nat l :: u64) = 2 ^ 64 - 1" by (simp add: unsigned_minus_1_eq_mask mask_eq_exp_minus_1)
    with assms(2) show False by simp
  qed
  then have loop: "compact_loop (start_idx s) (of_nat l) (logs s) =
      Some (filter (\<lambda>e. \<not> (of_nat n \<le> fst e \<and> fst e \<le> of_nat l)) (logs s))"
    by (simp add: compact_loop_terminates n(3))
  have zero: "\<not> (of_nat n :: u64) \<le> 0"
    using of_nat_less_u64 [of 0 n] n by (simp add: not_le)
  have ge: "of_nat n \<le> k" if "k \<in> fst ` set (consecutive n es)" for k :: u64
  proof -
    obtain j where "k = of_nat j" "n \<le> j" "j < n + length es" using \<open>k \<in> _\<close> by (auto simp: consecutive_keys)
    then show ?thesis using of_nat_less_u64 [of j n] n(2) by (auto simp: linorder_not_less [symmetric])
  qed
  have "filter (\<lambda>e. \<not> (of_nat n \<le> fst e \<and> fst e \<le> of_nat l)) (logs s) =
      (0, d) # filter (\<lambda>e. \<not> fst e \<le> of_nat l) (consecutive n es)"
    using zero ge by (auto simp: n(4) intro!: filter_cong)
  also have "\<dots> = (0, d) # consecutive (n + (Suc l - n)) (drop (Suc l - n) es)"
    using n(2) assms(2) by (simp add: filter_consecutive)
  finally have logs: "compact_loop (start_idx s) (of_nat l) (logs s) =
      Some ((0, d) # consecutive (max n (Suc l)) (drop (Suc l - n) es))"
    using loop by (simp add: max_def)
  have "(of_nat n :: u64) \<le> of_nat l \<longleftrightarrow> n \<le> l"
    using of_nat_less_u64 [of l n] n(2) assms(2) by (auto simp: linorder_not_less [symmetric])
  then have start: "(if start_idx s \<le> of_nat l then of_nat l + 1 else start_idx s) = of_nat (max n (Suc l))"
    by (auto simp: n(3) max_def le_Suc_eq)
  show thesis
  proof (rule that)
    show "compact (of_nat l) s = Some (True, s\<lparr>logs := (0, d) # consecutive (max n (Suc l)) (drop (Suc l - n) es),
        start_idx := of_nat (max n (Suc l))\<rparr>)"
      by (simp add: compact_def logs start)
    show "represents (s\<lparr>logs := (0, d) # consecutive (max n (Suc l)) (drop (Suc l - n) es),
        start_idx := of_nat (max n (Suc l))\<rparr>) d (max n (Suc l)) (drop (Suc l - n) es)"
      using n(1,2) assms(2) by (auto simp: represents_def max_def)
  qed
qed

end
