(* ===== verification/LogContract.thy ===== *)
theory LogContract
  imports LogStoreSpec
begin

text \<open>
  The contract of a log store, as Raft uses it: the log is a first index and a list of
  entries, which \<open>add\<close> extends, \<open>overwrite\<close> truncates and extends, and \<open>cut\<close> shortens from
  the front. What Raft's agreement argument needs from it is proved in the locale, and holds
  of the in-memory store by interpretation.
\<close>

definition max_index :: nat where
  "max_index = 2 ^ 64 - 1"

locale raft_log =
  fixes first :: "'s \<Rightarrow> nat"
    and entries :: "'s \<Rightarrow> 'e list"
    and valid :: "'s \<Rightarrow> bool"
    and add :: "'e \<Rightarrow> 's \<Rightarrow> 's"
    and overwrite :: "nat \<Rightarrow> 'e \<Rightarrow> 's \<Rightarrow> 's"
    and cut :: "nat \<Rightarrow> 's \<Rightarrow> 's"
  assumes add_law: "valid s \<Longrightarrow> first s + length (entries s) < max_index \<Longrightarrow>
      valid (add e s) \<and> first (add e s) = first s \<and> entries (add e s) = entries s @ [e]"
    and overwrite_law: "valid s \<Longrightarrow> first s \<le> i \<Longrightarrow> i \<le> first s + length (entries s) \<Longrightarrow> i < max_index \<Longrightarrow>
      valid (overwrite i e s) \<and> first (overwrite i e s) = first s
        \<and> entries (overwrite i e s) = take (i - first s) (entries s) @ [e]"
    and cut_law: "valid s \<Longrightarrow> l < max_index \<Longrightarrow>
      valid (cut l s) \<and> first (cut l s) = max (first s) (Suc l)
        \<and> entries (cut l s) = drop (Suc l - first s) (entries s)"
begin

definition read :: "nat \<Rightarrow> 's \<Rightarrow> 'e option" where
  "read i s =
     (if first s \<le> i \<and> i < first s + length (entries s) then Some (entries s ! (i - first s)) else None)"

lemma read_add:
  assumes "valid s" and "first s + length (entries s) < max_index"
  shows "read i (add e s) = (if i = first s + length (entries s) then Some e else read i s)"
  using add_law [OF assms, of e] by (auto simp: read_def nth_append)

text \<open>Overwriting keeps the entries below the index and leaves none above it.\<close>

lemma read_overwrite:
  assumes "valid s" and "first s \<le> i" and "i \<le> first s + length (entries s)" and "i < max_index"
  shows "read j (overwrite i e s) = (if j < i then read j s else if j = i then Some e else None)"
  using overwrite_law [OF assms, of e] assms(2,3)
  by (auto simp: read_def nth_append min_def)

lemma read_cut:
  assumes "valid s" and "l < max_index"
  shows "read j (cut l s) = (if j \<le> l then None else read j s)"
proof -
  have "first s \<le> l \<Longrightarrow> \<not> j \<le> l \<Longrightarrow> Suc l - first s + (j - Suc l) = j - first s" by simp
  then show ?thesis
    using cut_law [OF assms] by (auto simp: read_def max_def)
qed

text \<open>
  Two logs that agree below an index and are sent the same entry for it agree up to it: the
  step of Raft's log matching argument that falls to the store.
\<close>

lemma overwrite_matching:
  assumes "valid s" and "first s \<le> i" and "i \<le> first s + length (entries s)"
    and "valid t" and "first t \<le> i" and "i \<le> first t + length (entries t)"
    and "i < max_index" and "\<And>j. j < i \<Longrightarrow> read j s = read j t"
  shows "read j (overwrite i e s) = read j (overwrite i e t)"
  using read_overwrite [OF assms(1-3,7), of j e] read_overwrite [OF assms(4-7), of j e] assms(8)
  by simp

end

section \<open>The in-memory store\<close>

definition store_first :: "'e log_store \<Rightarrow> nat" where
  "store_first s = unat (start_idx s)"

definition store_entries :: "'e log_store \<Rightarrow> 'e list" where
  "store_entries s = map snd (tl (logs s))"

definition store_valid :: "('e, 'b, 'v) entry_api \<Rightarrow> 'e log_store \<Rightarrow> bool" where
  "store_valid A s \<longleftrightarrow> entry_law A \<and> (\<exists>d. represents s d (store_first s) (store_entries s))"

lemma map_snd_consecutive: "map snd (consecutive n es) = es"
  by (induction es arbitrary: n) simp_all

lemma represents_valid:
  assumes "entry_law A" and "represents s d n es"
  shows "store_valid A s" and "store_first s = n" and "store_entries s = es"
proof -
  show f: "store_first s = n" using assms(2) by (simp add: represents_def store_first_def)
  show e: "store_entries s = es"
    using assms(2) by (simp add: represents_def store_entries_def map_snd_consecutive)
  show "store_valid A s" using assms f e by (auto simp: store_valid_def)
qed

interpretation store: raft_log store_first store_entries "store_valid A"
    "\<lambda>e s. snd (append A cur e s)" "\<lambda>i e s. write_at A cur (of_nat i) e s"
    "\<lambda>l s. snd (the (compact (of_nat l) s))" for A cur
proof
  fix s :: "'a log_store" and e :: 'a
  assume v: "store_valid A s" and room: "store_first s + length (store_entries s) < max_index"
  then obtain d where "entry_law A" "represents s d (store_first s) (store_entries s)"
    by (auto simp: store_valid_def)
  then show "store_valid A (snd (append A cur e s)) \<and> store_first (snd (append A cur e s)) = store_first s \<and>
      store_entries (snd (append A cur e s)) = store_entries s @ [e]"
    using append_represents(2) [of A s d "store_first s" "store_entries s" cur e]
      represents_valid room by (metis max_index_def)
next
  fix s :: "'a log_store" and i and e :: 'a
  assume v: "store_valid A s" and i: "store_first s \<le> i" "i \<le> store_first s + length (store_entries s)"
    "i < max_index"
  then obtain d where "entry_law A" "represents s d (store_first s) (store_entries s)"
    by (auto simp: store_valid_def)
  then show "store_valid A (write_at A cur (of_nat i) e s) \<and>
      store_first (write_at A cur (of_nat i) e s) = store_first s \<and>
      store_entries (write_at A cur (of_nat i) e s) = take (i - store_first s) (store_entries s) @ [e]"
    using write_at_represents [of A s d "store_first s" "store_entries s" i cur e]
      represents_valid i by (metis max_index_def)
next
  fix s :: "'a log_store" and l
  assume v: "store_valid A s" and l: "l < max_index"
  then obtain d where d: "entry_law A" "represents s d (store_first s) (store_entries s)"
    by (auto simp: store_valid_def)
  obtain s' where "compact (of_nat l) s = Some (True, s')"
    "represents s' d (max (store_first s) (Suc l)) (drop (Suc l - store_first s) (store_entries s))"
    using compact_represents [OF d(2)] l unfolding max_index_def by blast
  then show "store_valid A (snd (the (compact (of_nat l) s))) \<and>
      store_first (snd (the (compact (of_nat l) s))) = max (store_first s) (Suc l) \<and>
      store_entries (snd (the (compact (of_nat l) s))) = drop (Suc l - store_first s) (store_entries s)"
    using represents_valid [OF d(1)] by simp
qed

end
