(* ===== verification/LogPack.thy ===== *)
theory LogPack
  imports LogContract
begin

text \<open>
  Reading ranges of entries, and shipping them with \<^verbatim>\<open>pack\<close> and \<^verbatim>\<open>apply_pack\<close>.
\<close>

section \<open>Ranges\<close>

lemma range_found:
  assumes "represents s d n es" and "n \<le> i" and "i + k \<le> n + length es" and "j < k"
  shows "om_find (logs s) (of_nat (i + j)) = Some (take k (drop (i - n) es) ! j)"
proof -
  have lt: "i + j < 2 ^ 64" using assms by (simp add: represents_def)
  have "take k (drop (i - n) es) ! j = es ! (i + j - n)" using assms by (simp add: add_diff_inverse_nat)
  with find_represents [OF assms(1) lt] assms show ?thesis by (auto simp: represents_def)
qed

lemma index_range_of_nat:
  "i < 2 ^ 64 \<Longrightarrow> j < 2 ^ 64 \<Longrightarrow> index_range (of_nat i) (of_nat j) = map of_nat [i..<j]"
  by (simp add: index_range_def)

lemma upt_shift: "map (of_nat :: nat \<Rightarrow> u64) [i..<Suc i + k] = of_nat i # map of_nat [Suc i..<Suc i + k]"
  by (simp add: upt_conv_Cons del: upt_Suc)

lemma read_all_found:
  assumes "entry_law A"
  shows "(\<And>j. j < length xs \<Longrightarrow> om_find (logs s) (of_nat (i + j)) = Some (xs ! j)) \<Longrightarrow>
    read_all A (map of_nat [i..<i + length xs]) s = Inr xs"
proof (induction xs arbitrary: i)
  case (Cons x xs)
  have "om_find (logs s) (of_nat i) = Some x" using Cons.prems [of 0] by simp
  moreover have "read_all A (map of_nat [Suc i..<Suc i + length xs]) s = Inr xs"
  proof (rule Cons.IH)
    show "om_find (logs s) (of_nat (Suc i + j)) = Some (xs ! j)" if "j < length xs" for j
      using Cons.prems [of "Suc j"] that by (simp del: of_nat_add of_nat_Suc)
  qed
  ultimately show ?case
    using upt_shift [of i "length xs"] by (simp add: make_clone_id [OF assms] del: upt_Suc)
qed simp

lemma collect_packs_found:
  "(\<And>j. j < length xs \<Longrightarrow> om_find (logs s) (of_nat (i + j)) = Some (xs ! j)) \<Longrightarrow>
    collect_packs A (map of_nat [i..<i + length xs]) s = Inr (map (serialize A) xs)"
proof (induction xs arbitrary: i)
  case (Cons x xs)
  have "om_find (logs s) (of_nat i) = Some x" using Cons.prems [of 0] by simp
  moreover have "collect_packs A (map of_nat [Suc i..<Suc i + length xs]) s = Inr (map (serialize A) xs)"
  proof (rule Cons.IH)
    show "om_find (logs s) (of_nat (Suc i + j)) = Some (xs ! j)" if "j < length xs" for j
      using Cons.prems [of "Suc j"] that by (simp del: of_nat_add of_nat_Suc)
  qed
  ultimately show ?case
    using upt_shift [of i "length xs"] by (simp del: upt_Suc)
qed simp

text \<open>A batch is a prefix of the range, and not empty when the range is not.\<close>

lemma read_batch_prefix:
  "read_all A is s = Inr xs \<Longrightarrow> \<exists>k. read_batch A hint is accum s = Inr (take k xs) \<and> (is \<noteq> [] \<longrightarrow> 0 < k)"
proof (induction "is" arbitrary: accum xs)
  case (Cons i "is")
  obtain e where e: "om_find (logs s) i = Some e" using Cons.prems by (auto split: option.splits)
  then obtain ys where ys: "read_all A is s = Inr ys" "xs = make_clone A e # ys"
    using Cons.prems by (cases "read_all A is s") auto
  let ?acc = "accum + of_nat (buf_size A (get_buf A e))"
  obtain k where k: "read_batch A hint is ?acc s = Inr (take k ys)"
    using Cons.IH [OF ys(1)] by blast
  have "read_batch A hint (i # is) accum s = Inr (take (if hint \<noteq> 0 \<and> hint \<le> ?acc then 1 else Suc k) xs)"
    using e ys(2) k by (simp add: Let_def)
  then show ?case by (intro exI conjI) (assumption, simp)
qed simp

lemma read_batch_unlimited: "read_batch A 0 is accum s = read_all A is s"
  by (induction "is" arbitrary: accum) (simp_all add: Let_def split: option.split)

section \<open>Packing\<close>

lemma sint_u32: "c < 2 ^ 31 \<Longrightarrow> sint (of_nat c :: u32) = int c"
  by (simp add: signed_of_nat signed_take_bit_int_eq_self)

lemma scast_u32: "c < 2 ^ 31 \<Longrightarrow> (scast (of_nat c :: u32) :: u64) = of_nat c"
  by (simp add: signed_of_nat signed_take_bit_int_eq_self)

definition packed :: "(u32 \<Rightarrow> byte list) \<Rightarrow> ('b \<Rightarrow> byte list) \<Rightarrow> 'b list \<Rightarrow> byte list" where
  "packed enc bytes bs = concat (map (\<lambda>x. enc (of_nat (length (bytes x))) @ bytes x) bs)"

lemma pack_alloc: "pack_law A B enc bytes room out left \<Longrightarrow> room (p_alloc B n) = n \<and> out (p_alloc B n) = []"
  by (simp add: pack_law_def)

lemma pack_put_int:
  assumes "pack_law A B enc bytes room out left" and "4 \<le> room b"
  obtains b' where "put_int B x b = Some b'" "out b' = out b @ enc x" "room b' = room b - 4"
  using assms unfolding pack_law_def by metis

lemma pack_put_buf:
  assumes "pack_law A B enc bytes room out left" and "length (bytes y) \<le> room b"
  obtains b' where "put_buf B y b = Some b'" "out b' = out b @ bytes y"
    "room b' = room b - length (bytes y)"
  using assms unfolding pack_law_def by metis

lemma pack_get_int:
  assumes "pack_law A B enc bytes room out left" and "left b = enc x @ r"
  obtains b' where "get_int B b = Some (x, b')" "left b' = r"
  using assms unfolding pack_law_def by metis

lemma pack_get_bytes:
  assumes "pack_law A B enc bytes room out left" and "left b = xs @ r" and "length xs = n"
  obtains y b' where "get_bytes B n b = Some (y, b')" "bytes y = xs" "left b' = r"
  using assms unfolding pack_law_def by metis

lemma pack_size: "pack_law A B enc bytes room out left \<Longrightarrow> buf_size A y = length (bytes y)"
  by (simp add: pack_law_def)

lemma pack_deserialize:
  "pack_law A B enc bytes room out left \<Longrightarrow> bytes y = bytes (serialize A e) \<Longrightarrow> deserialize A y = e"
  unfolding pack_law_def by blast

lemma put_packs_out:
  assumes law: "pack_law A B enc bytes room out left"
  shows "sum_list (map (\<lambda>x. 4 + length (bytes x)) xs) \<le> room b \<Longrightarrow>
    \<exists>b'. put_packs A B xs b = Some b' \<and> out b' = out b @ packed enc bytes xs"
proof (induction xs arbitrary: b)
  case Nil
  show ?case by (simp add: packed_def)
next
  case (Cons x xs)
  have "4 \<le> room b" using Cons.prems by simp
  then obtain b1 where b1: "put_int B (of_nat (length (bytes x))) b = Some b1"
    "out b1 = out b @ enc (of_nat (length (bytes x)))" "room b1 = room b - 4"
    by (rule pack_put_int [OF law])
  have "length (bytes x) \<le> room b1" using Cons.prems b1(3) by simp
  then obtain b2 where b2: "put_buf B x b1 = Some b2" "out b2 = out b1 @ bytes x"
    "room b2 = room b1 - length (bytes x)"
    by (rule pack_put_buf [OF law])
  have "sum_list (map (\<lambda>x. 4 + length (bytes x)) xs) \<le> room b2" using Cons.prems b1(3) b2(3) by simp
  then obtain b' where "put_packs A B xs b2 = Some b'" "out b' = out b2 @ packed enc bytes xs"
    using Cons.IH by blast
  with b1 b2 show ?case by (simp add: packed_def pack_size [OF law])
qed

lemma take_packs_in:
  assumes law: "pack_law A B enc bytes room out left" and "1 \<le> n"
  shows "left b = packed enc bytes (map (serialize A) xs) @ r \<Longrightarrow>
    (\<And>x. x \<in> set xs \<Longrightarrow> length (bytes (serialize A x)) < 2 ^ 31) \<Longrightarrow>
    n + length ys + length xs < 2 ^ 64 \<Longrightarrow>
    take_packs A B (length xs) (of_nat (n + length ys)) b ((0, d) # consecutive n ys) =
      (Inr (), (0, d) # consecutive n (ys @ xs))"
proof (induction xs arbitrary: b ys)
  case (Cons x xs)
  let ?l = "length (bytes (serialize A x))" and ?i = "of_nat (n + length ys) :: u64"
  have "left b = enc (of_nat ?l) @ (bytes (serialize A x) @ packed enc bytes (map (serialize A) xs) @ r)"
    using Cons.prems(1) by (simp add: packed_def)
  then obtain b1 where b1: "get_int B b = Some (of_nat ?l, b1)"
    "left b1 = bytes (serialize A x) @ packed enc bytes (map (serialize A) xs) @ r"
    by (rule pack_get_int [OF law])
  have l: "unat (scast (of_nat ?l :: u32) :: u64) = ?l"
    using Cons.prems(2) [of x] by (simp add: scast_u32)
  obtain y b2 where b2: "get_bytes B ?l b1 = Some (y, b2)" "bytes y = bytes (serialize A x)"
    "left b2 = packed enc bytes (map (serialize A) xs) @ r"
    using pack_get_bytes [OF law b1(2) refl] .
  have y: "deserialize A y = x" using pack_deserialize [OF law b2(2)] .
  have below: "\<forall>k \<in> fst ` set ((0, d) # consecutive n ys). k < ?i"
    using keys_below [of n ys "n + length ys" d] assms(2) Cons.prems(3) by simp
  have as: "om_assign ?i x ((0, d) # consecutive n ys) = (0, d) # consecutive n (ys @ [x])"
    by (simp only: assign_beyond [OF below] consecutive_append append_Cons)
  have "take_packs A B (length xs) (of_nat (n + length (ys @ [x]))) b2 ((0, d) # consecutive n (ys @ [x])) =
      (Inr (), (0, d) # consecutive n ((ys @ [x]) @ xs))"
    using Cons.prems by (intro Cons.IH b2(3)) simp_all
  moreover have next_i: "of_nat (n + length (ys @ [x])) = ?i + 1" by simp
  ultimately have "take_packs A B (length xs) (?i + 1) b2 ((0, d) # consecutive n (ys @ [x])) =
      (Inr (), (0, d) # consecutive n (ys @ x # xs))"
    by (simp only: next_i append_assoc append_Cons append_Nil)
  then show ?case
    by (simp only: list.size(4) add_Suc_right add_0_right take_packs.simps b1(1) option.case prod.case l b2(1) y as)
qed simp

text \<open>The first entry above the dummy is the new start of the store.\<close>

lemma upper_bound_represents:
  assumes "1 \<le> n" and "n + length es < 2 ^ 64"
  shows "(case om_upper_bound 0 ((0, d) # consecutive n es) of None \<Rightarrow> 1 | Some e \<Rightarrow> fst e)
    = (if es = [] then 1 else of_nat n :: u64)"
proof (cases es)
  case (Cons e es')
  have "\<not> (of_nat n :: u64) \<le> 0" using assms of_nat_less_u64 [of 0 n] by (simp add: not_le)
  with Cons show ?thesis by (simp add: om_upper_bound_def)
qed (simp add: om_upper_bound_def)

lemma pack_apply:
  assumes law: "pack_law A B enc bytes room out left"
    and src: "represents s d n es" and i: "n \<le> i" "i + c \<le> n + length es" and c: "0 < c" "c < 2 ^ 31"
    and small: "\<And>e. e \<in> set es \<Longrightarrow> length (bytes (serialize A e)) < 2 ^ 31"
    and total: "4 + 4 * c + sum_list (map (\<lambda>e. length (bytes (serialize A e))) (take c (drop (i - n) es))) < 2 ^ 64"
    and dst: "logs t = [(0, d')]"
  obtains b t' where "pack A B (of_nat i) (of_nat c) s = Inr b"
    and "apply_pack A B (of_nat i) b t = (Inr (), t')"
    and "represents t' d' i (take c (drop (i - n) es))"
proof -
  define xs where "xs = take c (drop (i - n) es)"
  have len: "length xs = c" using i by (simp add: xs_def)
  have n: "1 \<le> n" "n + length es < 2 ^ 64" using src by (simp_all add: represents_def)
  have "of_nat i + (scast (of_nat c :: u32) :: u64) = of_nat (i + c)" using c by (simp add: scast_u32)
  then have col: "collect_packs A (index_range (of_nat i) (of_nat i + scast (of_nat c :: u32))) s =
      Inr (map (serialize A) xs)"
    using collect_packs_found [of xs s i A] range_found [OF src i] n i
    by (simp add: index_range_of_nat len xs_def [symmetric] del: of_nat_add)
  note bs = pack_size [OF law]
  have sz: "unat (4 + scast (of_nat c :: u32) * 4 +
      of_nat (sum_list (map (buf_size A) (map (serialize A) xs))) :: u64) =
      4 + 4 * c + sum_list (map (\<lambda>e. length (bytes (serialize A e))) xs)"
  proof -
    have "(4 + scast (of_nat c :: u32) * 4 + of_nat (sum_list (map (buf_size A) (map (serialize A) xs))) :: u64) =
        of_nat (4 + 4 * c + sum_list (map (\<lambda>e. length (bytes (serialize A e))) xs))"
      using c by (simp add: scast_u32 bs comp_def)
    then show ?thesis using total by (simp only: unat_u64 xs_def)
  qed
  obtain b0 where b0: "put_int B (of_nat c) (p_alloc B (4 + 4 * c + sum_list (map (\<lambda>e. length (bytes (serialize A e))) xs))) = Some b0"
    "out b0 = enc (of_nat c)" "room b0 = 4 * c + sum_list (map (\<lambda>e. length (bytes (serialize A e))) xs)"
    using pack_put_int [OF law, of "p_alloc B (4 + 4 * c + sum_list (map (\<lambda>e. length (bytes (serialize A e))) xs))" "of_nat c"]
    by (auto simp: pack_alloc [OF law])
  have "sum_list (map (\<lambda>x. 4 + length (bytes x)) (map (serialize A) xs)) = room b0"
    using len by (simp add: b0(3) sum_list_addf comp_def sum_list_triv)
  then obtain b where b: "put_packs A B (map (serialize A) xs) b0 = Some b"
    "out b = enc (of_nat c) @ packed enc bytes (map (serialize A) xs)"
    using put_packs_out [OF law, of "map (serialize A) xs" b0] b0(2) by auto
  have p: "pack A B (of_nat i) (of_nat c) s = Inr b"
    using b0(1) b(1) by (simp only: pack_def col sum.case Let_def sz Option.bind.simps option.case)
  have "left (p_rewind B b) = enc (of_nat c) @ packed enc bytes (map (serialize A) xs) @ []"
    using law b(2) unfolding pack_law_def by simp
  then obtain b1 where b1: "get_int B (p_rewind B b) = Some (of_nat c, b1)"
    "left b1 = packed enc bytes (map (serialize A) xs) @ []"
    by (rule pack_get_int [OF law])
  have "set xs \<subseteq> set es" by (auto simp: xs_def dest: in_set_takeD in_set_dropD)
  then have "take_packs A B (length xs) (of_nat i) b1 ((0, d') # consecutive i []) =
      (Inr (), (0, d') # consecutive i xs)"
    using take_packs_in [OF law, of i b1 xs "[]" "[]" d'] b1(2) n i len small by fastforce
  moreover have "nat (sint (of_nat c :: u32)) = length xs" using c len by (simp add: sint_u32)
  ultimately have ap: "apply_pack A B (of_nat i) b t = (Inr (),
      t\<lparr>logs := (0, d') # consecutive i xs, start_idx := of_nat i\<rparr>)"
    using b1(1) dst upper_bound_represents [of i xs d'] n i c len by (auto simp: apply_pack_def)
  show thesis
  proof (rule that [OF p ap])
    show "represents (t\<lparr>logs := (0, d') # consecutive i xs, start_idx := of_nat i\<rparr>) d' i (take c (drop (i - n) es))"
      using n i len by (simp add: represents_def xs_def)
  qed
qed

end
