(* ===== verification/LogProperties.thy ===== *)
theory LogProperties
  imports LogPack
begin

text \<open>
  The properties of the log store: every sequence of operations refines the abstract log,
  compaction ends except for the largest index, ranges and batches, and the round trip of
  \<^verbatim>\<open>pack\<close> and \<^verbatim>\<open>apply_pack\<close>. Concrete entries and buffers instantiate the library.
\<close>

section \<open>Sequences of operations\<close>

datatype 'e log_op =
    Append u64 'e
  | WriteAt u64 nat 'e
  | Compact nat
  | Flush
  | SetDelay u64
  | DiskStep u64

fun apply_log :: "('e, 'b, 'v) entry_api \<Rightarrow> 'e log_store \<Rightarrow> 'e log_op \<Rightarrow> 'e log_store" where
  "apply_log A s (Append cur e) = snd (append A cur e s)"
| "apply_log A s (WriteAt cur i e) = write_at A cur (of_nat i) e s"
| "apply_log A s (Compact l) = snd (the (compact (of_nat l) s))"
| "apply_log A s Flush = snd (flush s)"
| "apply_log A s (SetDelay d) = set_disk_delay d s"
| "apply_log A s (DiskStep cur) = (case disk_emul_step cur s of None \<Rightarrow> s | Some (_, _, s') \<Rightarrow> s')"

text \<open>The abstract log, its operations, and the calls Raft makes.\<close>

fun spec_log :: "nat \<times> 'e list \<Rightarrow> 'e log_op \<Rightarrow> nat \<times> 'e list" where
  "spec_log (n, es) (Append cur e) = (n, es @ [e])"
| "spec_log (n, es) (WriteAt cur i e) = (n, take (i - n) es @ [e])"
| "spec_log (n, es) (Compact l) = (max n (Suc l), drop (Suc l - n) es)"
| "spec_log (n, es) _ = (n, es)"

fun log_guard :: "nat \<times> 'e list \<Rightarrow> 'e log_op \<Rightarrow> bool" where
  "log_guard (n, es) (Append cur e) = (n + length es < max_index)"
| "log_guard (n, es) (WriteAt cur i e) = (n \<le> i \<and> i \<le> n + length es \<and> i < max_index)"
| "log_guard (n, es) (Compact l) = (l < max_index)"
| "log_guard (n, es) _ = True"

lemma represents_frame:
  "represents s d n es \<Longrightarrow> logs s' = logs s \<Longrightarrow> start_idx s' = start_idx s \<Longrightarrow> represents s' d n es"
  by (simp add: represents_def)

lemma apply_log_represents:
  assumes "entry_law A" and "represents s d n es" and "log_guard (n, es) e"
  shows "represents (apply_log A s e) d (fst (spec_log (n, es) e)) (snd (spec_log (n, es) e))"
proof (cases e)
  case (Append cur x)
  with append_represents(2) [OF assms(1,2)] assms(3) show ?thesis by (simp add: max_index_def)
next
  case (WriteAt cur i x)
  with write_at_represents [OF assms(1,2)] assms(3) show ?thesis by (simp add: max_index_def)
next
  case (Compact l)
  then obtain s' where "compact (of_nat l) s = Some (True, s')"
    "represents s' d (max n (Suc l)) (drop (Suc l - n) es)"
    using compact_represents [OF assms(2), of l] assms(3) by (auto simp: max_index_def)
  with Compact show ?thesis by simp
next
  case Flush
  then show ?thesis by (simp add: flush_def represents_frame [OF assms(2)])
next
  case (SetDelay d)
  then show ?thesis by (simp add: set_disk_delay_def represents_frame [OF assms(2)])
next
  case (DiskStep cur)
  then show ?thesis
    by (auto simp: disk_emul_step_def assms(2) intro: represents_frame [OF assms(2)]
        split: option.split prod.split if_splits)
qed

text \<open>The simulation, as a machine over pairs of a store and its abstract log.\<close>

definition pair_step ::
    "('e, 'b, 'v) entry_api \<Rightarrow> 'e log_store \<times> nat \<times> 'e list \<Rightarrow> 'e log_op \<Rightarrow> 'e log_store \<times> nat \<times> 'e list" where
  "pair_step A p e = (apply_log A (fst p) e, spec_log (snd p) e)"

definition simulates :: "('e, 'b, 'v) entry_api \<Rightarrow> 'e \<Rightarrow> 'e log_store \<times> nat \<times> 'e list \<Rightarrow> bool" where
  "simulates A d p \<longleftrightarrow> entry_law A \<and> represents (fst p) d (fst (snd p)) (snd (snd p))"

interpretation log_run: invariant_machine "pair_step A" "\<lambda>p. log_guard (snd p)" "simulates A d" for A d
proof
  fix p :: "'a log_store \<times> nat \<times> 'a list" and e
  assume "simulates A d p" and "log_guard (snd p) e"
  then show "simulates A d (pair_step A p e)"
    using apply_log_represents [of A "fst p" d "fst (snd p)" "snd (snd p)" e]
    by (simp add: simulates_def pair_step_def)
qed

lemma fold_pair_step:
  "foldl (pair_step A) p ops = (foldl (apply_log A) (fst p) ops, foldl spec_log (snd p) ops)"
  by (induction ops arbitrary: p) (simp_all add: pair_step_def)

lemma guarded_pair:
  "all_guarded spec_log log_guard (snd p) ops \<Longrightarrow> all_guarded (pair_step A) (\<lambda>p. log_guard (snd p)) p ops"
  by (induction ops arbitrary: p) (simp_all add: pair_step_def)

section \<open>Concrete entries and buffers\<close>

text \<open>A buffer is its room, the bytes put and the bytes left; an entry is one byte.\<close>

type_synonym byte_buffer = "nat \<times> byte list \<times> byte list"

definition byte_entry :: "(byte, byte_buffer, unit) entry_api" where
  "byte_entry =
     \<lparr>new_entry = (\<lambda>t b v ts. hd (fst (snd b) @ [0])), get_term = ucast, get_buf = (\<lambda>e. (0, [e], [])),
      get_val_type = (\<lambda>_. ()), get_timestamp = (\<lambda>_. 0), app_log = (), buf_clone = id,
      buf_size = (\<lambda>b. length (fst (snd b))), zero_buf = (\<lambda>n. (0, replicate n 0, [])),
      serialize = (\<lambda>e. (0, [e], [])), deserialize = (\<lambda>b. hd (fst (snd b) @ [0]))\<rparr>"

definition int_bytes :: "u32 \<Rightarrow> byte list" where
  "int_bytes x = [of_nat (unat x), of_nat (unat x div 256), of_nat (unat x div 65536), of_nat (unat x div 16777216)]"

definition bytes_int :: "byte \<Rightarrow> byte \<Rightarrow> byte \<Rightarrow> byte \<Rightarrow> u32" where
  "bytes_int b0 b1 b2 b3 = of_nat (unat b0 + 256 * unat b1 + 65536 * unat b2 + 16777216 * unat b3)"

definition byte_pack :: "byte_buffer pack_api" where
  "byte_pack =
     \<lparr>p_alloc = (\<lambda>n. (n, [], [])), p_rewind = (\<lambda>(n, w, r). (n, w, w)),
      put_int = (\<lambda>x (n, w, r). if 4 \<le> n then Some (n - 4, w @ int_bytes x, r) else None),
      put_buf = (\<lambda>y (n, w, r). if length (fst (snd y)) \<le> n
         then Some (n - length (fst (snd y)), w @ fst (snd y), r) else None),
      get_int = (\<lambda>(n, w, r). case r of
         b0 # b1 # b2 # b3 # r' \<Rightarrow> Some (bytes_int b0 b1 b2 b3, n, w, r')
         | _ \<Rightarrow> None),
      get_bytes = (\<lambda>k (n, w, r). if k \<le> length r then Some ((0, take k r, []), n, w, drop k r) else None)\<rparr>"

lemma byte_entry_law: "entry_law byte_entry"
  by (simp add: entry_law_def byte_entry_def)

lemma int_bytes_sum:
  "unat (of_nat x :: byte) + 256 * unat (of_nat (x div 256) :: byte) +
    65536 * unat (of_nat (x div 65536) :: byte) + 16777216 * unat (of_nat (x div 16777216) :: byte) =
   x mod 4294967296"
proof -
  have u: "unat (of_nat y :: byte) = y mod 256" for y by (simp add: unsigned_of_nat take_bit_eq_mod)
  have "x mod (256 * 16777216) = 256 * (x div 256 mod 16777216) + x mod 256"
    by (rule mod_mult2_eq)
  moreover have "x div 256 mod (256 * 65536) = 256 * (x div 256 div 256 mod 65536) + x div 256 mod 256"
    by (rule mod_mult2_eq)
  moreover have "x div 65536 mod (256 * 256) = 256 * (x div 65536 div 256 mod 256) + x div 65536 mod 256"
    by (rule mod_mult2_eq)
  ultimately show ?thesis by (simp add: u div_mult2_eq [symmetric])
qed

lemma int_bytes_inverse:
  "\<exists>b0 b1 b2 b3. int_bytes x = [b0, b1, b2, b3] \<and> bytes_int b0 b1 b2 b3 = x"
proof -
  have "unat x < 4294967296" by (rule order_less_le_trans [OF unsigned_less]) simp
  then have "(of_nat (unat x mod 4294967296) :: u32) = x" by simp
  then have "bytes_int (of_nat (unat x)) (of_nat (unat x div 256)) (of_nat (unat x div 65536))
      (of_nat (unat x div 16777216)) = x"
    by (simp only: bytes_int_def int_bytes_sum)
  then show ?thesis by (simp only: int_bytes_def) blast
qed

lemma byte_pack_law:
  "pack_law byte_entry byte_pack int_bytes (\<lambda>b. fst (snd b)) fst (\<lambda>b. fst (snd b)) (\<lambda>b. snd (snd b))"
proof -
  have "\<exists>b'. get_int byte_pack b = Some (x, b') \<and> snd (snd b') = r"
    if "snd (snd b) = int_bytes x @ r" for b x r
    using that int_bytes_inverse [of x] by (cases b) (auto simp: byte_pack_def)
  then show ?thesis
    by (auto simp: pack_law_def byte_pack_def byte_entry_def int_bytes_def)
qed

lemma log_run_represents:
  assumes "entry_law A" and "all_guarded spec_log log_guard (1, []) ops"
  shows "case foldl spec_log (1, []) ops of (n, es) \<Rightarrow>
    represents (foldl (apply_log A) (inmem_log_store A) ops)
      (new_entry A 0 (zero_buf A 8) (app_log A) 0) n es"
proof -
  let ?p = "(inmem_log_store A, 1, []) :: 'a log_store \<times> nat \<times> 'a list"
  let ?d = "new_entry A 0 (zero_buf A 8) (app_log A) 0"
  have "simulates A ?d ?p" using assms(1) new_store_represents [of A] by (simp add: simulates_def)
  then have "simulates A ?d (foldl (pair_step A) ?p ops)"
    using guarded_pair [of ?p ops A] assms(2) by (intro log_run.run_keeps) simp_all
  then show ?thesis by (simp add: fold_pair_step simulates_def split_beta)
qed

text \<open>A run of seven calls on the concrete entries.\<close>

definition demo_store_ops :: "byte log_op list" where
  "demo_store_ops = [Append 0 10, Append 0 20, Append 0 30, WriteAt 0 2 40, Append 0 50, Flush, Compact 1]"

definition demo_store :: "byte log_store" where
  "demo_store = foldl (apply_log byte_entry) (inmem_log_store byte_entry) demo_store_ops"

lemma demo_store_guarded: "all_guarded spec_log log_guard (1, []) demo_store_ops"
  by (simp add: demo_store_ops_def max_index_def)

lemma demo_store_spec: "foldl spec_log (1, []) demo_store_ops = (2, [40, 50])"
  by (simp add: demo_store_ops_def)

lemma demo_store_dummy: "new_entry byte_entry 0 (zero_buf byte_entry 8) (app_log byte_entry) 0 = 0"
  by (simp add: byte_entry_def)

lemma demo_store_represents: "represents demo_store 0 2 [40, 50]"
  using log_run_represents [OF byte_entry_law demo_store_guarded]
  by (simp only: demo_store_spec demo_store_dummy demo_store_def prod.case)

section \<open>Properties\<close>

text \<open>C10: From an empty store, after any sequence of the calls Raft makes (appends, overwrites
  at an index of the log or its end, compactions, flushes, changes of the emulated disk's delay
  and wake-ups of its thread), the store represents the log that the same calls give on a list:
  its dummy entry, and the entries at consecutive indices from the start index.\<close>

theorem log_store_refines:
  assumes "entry_law A" and "all_guarded spec_log log_guard (1, []) ops"
  shows "case foldl spec_log (1, []) ops of (n, es) \<Rightarrow>
    represents (foldl (apply_log A) (inmem_log_store A) ops)
      (new_entry A 0 (zero_buf A 8) (app_log A) 0) n es"
  using assms by (rule log_run_represents)

theorem log_store_refines_witness:
  "represents (foldl (apply_log byte_entry) (inmem_log_store byte_entry) demo_store_ops) 0 2 [40, 50]"
  using log_store_refines [OF byte_entry_law demo_store_guarded]
  by (simp only: demo_store_spec demo_store_dummy prod.case)

text \<open>The readers on a store that represents a log: \<^verbatim>\<open>next_slot\<close> is the index after the last
  entry, \<^verbatim>\<open>last_entry\<close> the last entry or the dummy, \<^verbatim>\<open>entry_at\<close> and \<^verbatim>\<open>term_at\<close> give the entry
  of an index of the log and the dummy for any other index.\<close>

theorem log_reads:
  assumes "entry_law A" and "represents s d n es"
  shows "next_slot s = of_nat (n + length es)
    \<and> last_entry A s = Inr (if es = [] then d else last es)
    \<and> (\<forall>i < 2 ^ 64. let e = if n \<le> i \<and> i < n + length es then es ! (i - n) else d
         in entry_at A (of_nat i) s = Inr e \<and> term_at A (of_nat i) s = Inr (get_term A e))"
proof (intro conjI allI impI)
  have n: "1 \<le> n" "n + length es < 2 ^ 64" using assms(2) by (simp_all add: represents_def)
  show ns: "next_slot s = of_nat (n + length es)" using next_slot_represents [OF assms(2)] .
  have "next_slot s - 1 = of_nat (n + length es - 1)" using n(1) by (simp add: ns)
  then have "find_or_dummy (next_slot s - 1) s = Inr (if es = [] then d else last es)"
    using find_or_dummy_represents [OF assms(2), of "n + length es - 1"] n
    by (cases es) (auto simp: last_conv_nth)
  then show "last_entry A s = Inr (if es = [] then d else last es)"
    by (simp add: last_entry_def make_clone_id [OF assms(1)])
  fix i :: nat
  assume "i < 2 ^ 64"
  then show "let e = if n \<le> i \<and> i < n + length es then es ! (i - n) else d
         in entry_at A (of_nat i) s = Inr e \<and> term_at A (of_nat i) s = Inr (get_term A e)"
    using find_or_dummy_represents [OF assms(2)]
    by (simp add: entry_at_def term_at_def make_clone_id [OF assms(1)] Let_def)
qed

theorem log_reads_witness:
  "next_slot demo_store = 4 \<and> last_entry byte_entry demo_store = Inr 50"
  using log_reads [OF byte_entry_law demo_store_represents] by simp

text \<open>C18: \<^verbatim>\<open>compact\<close> with any index but the largest one returns, and drops exactly the entries
  up to that index; the start index moves past it even when nothing is dropped.\<close>

theorem compact_drops:
  assumes "represents s d n es" and "l < 2 ^ 64 - 1"
  shows "\<exists>s'. compact (of_nat l) s = Some (True, s') \<and>
    represents s' d (max n (Suc l)) (drop (Suc l - n) es)"
  using compact_represents [OF assms] by metis

theorem compact_drops_witness:
  "\<exists>s'. compact 2 demo_store = Some (True, s') \<and> represents s' 0 3 [50]"
  using compact_drops [OF demo_store_represents, of 2] by simp

text \<open>C39: \<^verbatim>\<open>compact\<close> with the largest index does not return, whatever the store: the loop's
  counter wraps to 0 and its condition never fails.\<close>

theorem compact_diverges: "compact (- 1) s = None"
  by (simp add: compact_def compact_loop_max)

text \<open>The store's part of Raft's log matching: two stores that agree below an index and
  overwrite it with the same entry agree everywhere afterwards, at every index.\<close>

theorem write_at_matching:
  assumes "store_valid A s" and "store_first s \<le> i" and "i \<le> store_first s + length (store_entries s)"
    and "store_valid A t" and "store_first t \<le> i" and "i \<le> store_first t + length (store_entries t)"
    and "i < max_index" and "\<And>j. j < i \<Longrightarrow> store.read j s = store.read j t"
  shows "store.read j (write_at A cur (of_nat i) e s) = store.read j (write_at A cur (of_nat i) e t)"
  using assms by (rule store.overwrite_matching)

theorem write_at_matching_witness:
  "store.read 2 (write_at byte_entry 0 2 9 demo_store) = store.read 2 (write_at byte_entry 0 2 9 (snd (append byte_entry 0 7 demo_store)))"
proof -
  let ?t = "snd (append byte_entry 0 7 demo_store)"
  have t: "represents ?t 0 2 [40, 50, 7]"
    using append_represents(2) [OF byte_entry_law demo_store_represents, of 0 7] by simp
  note v = represents_valid [OF byte_entry_law demo_store_represents]
  note w = represents_valid [OF byte_entry_law t]
  have "store.read j demo_store = store.read j ?t" if "j < 2" for j
    using that by (simp add: store.read_def v w)
  then show ?thesis
    using write_at_matching [OF v(1) _ _ w(1), of 2 2 0 9] by (simp add: v w max_index_def)
qed



text \<open>C16: Packing a range of a log and applying the pack to a store without entries rebuilds
  that range there, with the range's first index as the new start, as long as every entry is
  shorter than 2 GB.\<close>

theorem pack_roundtrip:
  assumes "pack_law A B enc bytes room out left" and "represents s d n es"
    and "n \<le> i" and "i + c \<le> n + length es" and "0 < c" and "c < 2 ^ 31"
    and "\<And>e. e \<in> set es \<Longrightarrow> length (bytes (serialize A e)) < 2 ^ 31"
    and "4 + 4 * c + sum_list (map (\<lambda>e. length (bytes (serialize A e))) (take c (drop (i - n) es))) < 2 ^ 64"
    and "logs t = [(0, d')]"
  shows "case pack A B (of_nat i) (of_nat c) s of Inl _ \<Rightarrow> False
    | Inr b \<Rightarrow> (case apply_pack A B (of_nat i) b t of (r, t') \<Rightarrow>
        r = Inr () \<and> represents t' d' i (take c (drop (i - n) es)))"
proof -
  obtain b t' where "pack A B (of_nat i) (of_nat c) s = Inr b" "apply_pack A B (of_nat i) b t = (Inr (), t')"
    "represents t' d' i (take c (drop (i - n) es))"
    using assms by (rule pack_apply)
  then show ?thesis by simp
qed

theorem pack_roundtrip_witness:
  "case pack byte_entry byte_pack 2 2 demo_store of Inl _ \<Rightarrow> False
    | Inr b \<Rightarrow> (case apply_pack byte_entry byte_pack 2 b (inmem_log_store byte_entry) of (r, t') \<Rightarrow>
        r = Inr () \<and> represents t' 0 2 [40, 50])"
proof -
  have "logs (inmem_log_store byte_entry) = [(0, 0)]" by (simp add: inmem_log_store_def byte_entry_def)
  moreover have "length (fst (snd (serialize byte_entry e))) = 1" for e by (simp add: byte_entry_def)
  moreover have "take 2 (drop (2 - 2) [40, 50 :: byte]) = [40, 50]" by simp
  ultimately show ?thesis
    using pack_roundtrip [OF byte_pack_law demo_store_represents, of 2 2 "inmem_log_store byte_entry" 0]
    unfolding of_nat_numeral by (simp cong: sum.case_cong prod.case_cong)
qed

end
