(* ===== verification/Startup.thy ===== *)
theory Startup
  imports Consensus LogStore
begin

text \<open>
  What a process sets up before it serves: \<^verbatim>\<open>initializeStaticInstance\<close> of \<^verbatim>\<open>src/app.cc\<close> (the
  member list, the identity of the Raft server and the two consensus flags) and the state
  manager NuRaft asks for its configuration, \<^verbatim>\<open>include/state_manager.hxx\<close>. NuRaft's
  configuration classes are a record of functions.
\<close>

section \<open>Static data\<close>

record consensus_flags =
  asyncSnapshotCreation :: bool
  asyncHandler :: bool

record server_stuff =
  stuff_id :: int
  stuff_addr :: string
  stuff_port :: int
  stuff_endpoint :: string

text \<open>The members: a map from the text of an address to the node's endpoint, the same text.\<close>

fun member_list ::
    "(string \<Rightarrow> string list) \<Rightarrow> (string \<Rightarrow> u16 option) \<Rightarrow> string list \<Rightarrow>
     (string, string) omap \<Rightarrow> (string, string) omap result" where
  "member_list split lexical_cast [] m = Inr m"
| "member_list split lexical_cast (a # as) m =
     (case make_address split lexical_cast a of
        Inl e \<Rightarrow> Inl e
      | Inr addr \<Rightarrow> member_list split lexical_cast as (om_insert (toString addr) (toString addr) m))"

definition init_stuff :: "consensus_config \<Rightarrow> server_stuff" where
  "init_stuff c =
     \<lparr>stuff_id = serverId c, stuff_addr = consensus_address c, stuff_port = consensus_port c,
      stuff_endpoint = consensus_address c @ '':'' @ to_string (consensus_port c)\<rparr>"

text \<open>
  The flags: \<^verbatim>\<open>CALL_TYPE\<close> and \<^verbatim>\<open>ASYNC_SNAPSHOT_CREATION\<close> after start-up. The option for
  asynchronous snapshots selects the asynchronous handler, and the other way round.
\<close>

definition init_flags :: "consensus_flags \<Rightarrow> call_type \<times> bool" where
  "init_flags f =
     (if asyncSnapshotCreation f then (async_handler, False)
      else if asyncHandler f then (blocking, True)
      else (blocking, False))"

definition initializeStaticInstance ::
    "(string \<Rightarrow> string list) \<Rightarrow> (string \<Rightarrow> u16 option) \<Rightarrow> consensus_config \<Rightarrow> consensus_flags \<Rightarrow>
     string list \<Rightarrow> ((string, string) omap \<times> server_stuff \<times> call_type \<times> bool) result" where
  "initializeStaticInstance split lexical_cast c f addressList =
     (case member_list split lexical_cast addressList [] of
        Inl e \<Rightarrow> Inl e
      | Inr m \<Rightarrow> Inr (m, init_stuff c, init_flags f))"

section \<open>The state manager\<close>

record ('v, 'c, 'st, 'b) config_api =
  new_srv :: "int \<Rightarrow> string \<Rightarrow> 'v"
  new_cluster :: 'c
  push_server :: "'v \<Rightarrow> 'c \<Rightarrow> 'c"
  config_serialize :: "'c \<Rightarrow> 'b"
  config_deserialize :: "'b \<Rightarrow> 'c"
  state_serialize :: "'st \<Rightarrow> 'b"
  state_deserialize :: "'b \<Rightarrow> 'st"

definition config_law :: "('v, 'c, 'st, 'b) config_api \<Rightarrow> ('c \<Rightarrow> 'v list) \<Rightarrow> bool" where
  "config_law A servers \<longleftrightarrow>
     servers (new_cluster A) = [] \<and>
     (\<forall>v c. servers (push_server A v c) = servers c @ [v]) \<and>
     (\<forall>c. config_deserialize A (config_serialize A c) = c) \<and>
     (\<forall>s. state_deserialize A (state_serialize A s) = s)"

record ('v, 'c, 'st, 'e) state_mgr =
  my_id :: int
  my_endpoint :: string
  cur_log_store :: "'e log_store"
  my_srv_config :: 'v
  saved_config :: 'c
  saved_state :: "'st option"

definition inmem_state_mgr ::
    "('v, 'c, 'st, 'b) config_api \<Rightarrow> ('e, 'b, 'w) entry_api \<Rightarrow> int \<Rightarrow> string \<Rightarrow> ('v, 'c, 'st, 'e) state_mgr" where
  "inmem_state_mgr A E srv_id endpoint =
     \<lparr>my_id = srv_id, my_endpoint = endpoint, cur_log_store = inmem_log_store E,
      my_srv_config = new_srv A srv_id endpoint,
      saved_config = push_server A (new_srv A srv_id endpoint) (new_cluster A), saved_state = None\<rparr>"

text \<open>
  \<^verbatim>\<open>load_config\<close> adds every member but this server to the saved configuration, each time
  it is called; a member's port is its server id.
\<close>

fun push_peers ::
    "('v, 'c, 'st, 'b) config_api \<Rightarrow> (string \<Rightarrow> string list) \<Rightarrow> (string \<Rightarrow> u16 option) \<Rightarrow> int \<Rightarrow>
     string list \<Rightarrow> 'c \<Rightarrow> unit result \<times> 'c" where
  "push_peers A split lexical_cast own [] c = (Inr (), c)"
| "push_peers A split lexical_cast own (e # es) c =
     (case make_address split lexical_cast e of
        Inl err \<Rightarrow> (Inl err, c)
      | Inr a \<Rightarrow>
          let i = uint (port a)
          in if i = own then push_peers A split lexical_cast own es c
             else push_peers A split lexical_cast own es (push_server A (new_srv A i e) c))"

definition load_config ::
    "('v, 'c, 'st, 'b) config_api \<Rightarrow> (string \<Rightarrow> string list) \<Rightarrow> (string \<Rightarrow> u16 option) \<Rightarrow> int \<Rightarrow>
     (string, string) omap \<Rightarrow> ('v, 'c, 'st, 'e) state_mgr \<Rightarrow> 'c result \<times> ('v, 'c, 'st, 'e) state_mgr" where
  "load_config A split lexical_cast own memberList s =
     (case push_peers A split lexical_cast own (map snd memberList) (saved_config s) of
        (Inl e, c) \<Rightarrow> (Inl e, s\<lparr>saved_config := c\<rparr>)
      | (Inr _, c) \<Rightarrow> (Inr c, s\<lparr>saved_config := c\<rparr>))"

definition save_config ::
    "('v, 'c, 'st, 'b) config_api \<Rightarrow> 'c \<Rightarrow> ('v, 'c, 'st, 'e) state_mgr \<Rightarrow> ('v, 'c, 'st, 'e) state_mgr" where
  "save_config A config s = s\<lparr>saved_config := config_deserialize A (config_serialize A config)\<rparr>"

definition save_state ::
    "('v, 'c, 'st, 'b) config_api \<Rightarrow> 'st \<Rightarrow> ('v, 'c, 'st, 'e) state_mgr \<Rightarrow> ('v, 'c, 'st, 'e) state_mgr" where
  "save_state A st s = s\<lparr>saved_state := Some (state_deserialize A (state_serialize A st))\<rparr>"

definition read_state :: "('v, 'c, 'st, 'e) state_mgr \<Rightarrow> 'st option" where
  "read_state s = saved_state s"

definition load_log_store :: "('v, 'c, 'st, 'e) state_mgr \<Rightarrow> 'e log_store" where
  "load_log_store s = cur_log_store s"

definition sm_server_id :: "('v, 'c, 'st, 'e) state_mgr \<Rightarrow> int" where
  "sm_server_id s = my_id s"

definition get_srv_config :: "('v, 'c, 'st, 'e) state_mgr \<Rightarrow> 'v" where
  "get_srv_config s = my_srv_config s"

section \<open>Well-formed addresses\<close>

definition peers_of :: "('v, 'c, 'st, 'b) config_api \<Rightarrow> int \<Rightarrow> Address list \<Rightarrow> 'v list" where
  "peers_of A own as =
     map (\<lambda>a. new_srv A (uint (port a)) (toString a)) (filter (\<lambda>a. uint (port a) \<noteq> own) as)"

lemma push_peers_addresses:
  assumes "boost_split_law split" and "boost_cast_law lexical_cast" and law: "config_law A servers"
  shows "\<forall>a \<in> set as. CHR '':'' \<notin> set (address a) \<Longrightarrow>
    \<exists>c'. push_peers A split lexical_cast own (map toString as) c = (Inr (), c')
      \<and> servers c' = servers c @ peers_of A own as"
proof (induction as arbitrary: c)
  case Nil
  show ?case by (simp add: peers_of_def)
next
  case (Cons a as)
  have a: "make_address split lexical_cast (toString a) = Inr a"
    using make_address_toString [OF assms(1,2)] Cons.prems by simp
  have push: "servers (push_server A v c) = servers c @ [v]" for v c
    using law by (simp add: config_law_def)
  let ?c = "if uint (port a) = own then c else push_server A (new_srv A (uint (port a)) (toString a)) c"
  obtain c' where "push_peers A split lexical_cast own (map toString as) ?c = (Inr (), c')"
    "servers c' = servers ?c @ peers_of A own as"
    using Cons.IH Cons.prems by (metis list.set_intros(2))
  with a show ?case by (auto simp: Let_def peers_of_def push split: if_splits)
qed

lemma member_list_addresses:
  assumes "boost_split_law split" and "boost_cast_law lexical_cast"
  shows "\<forall>a \<in> set as. CHR '':'' \<notin> set (address a) \<Longrightarrow> om_wf m \<Longrightarrow> \<forall>e \<in> set m. fst e = snd e \<Longrightarrow>
    \<exists>m'. member_list split lexical_cast (map toString as) m = Inr m' \<and> om_wf m'
      \<and> (\<forall>e \<in> set m'. fst e = snd e) \<and> fst ` set m' = fst ` set m \<union> toString ` set as"
proof (induction as arbitrary: m)
  case (Cons a as)
  let ?m = "om_insert (toString a) (toString a) m"
  have a: "make_address split lexical_cast (toString a) = Inr a"
    using make_address_toString [OF assms(1,2)] Cons.prems by simp
  have sub: "set (om_assign k v m) \<subseteq> insert (k, v) (set m)" for k v and m :: "(string, string) omap"
    by (induction m) auto
  have "\<forall>e \<in> set ?m. fst e = snd e"
    using Cons.prems(3) sub [of "toString a" "toString a" m] by (auto simp: om_insert_def)
  moreover have "fst ` set ?m = insert (toString a) (fst ` set m)"
    by (auto simp: om_insert_def set_assign map_of_eq_None_iff)
  moreover have "om_wf ?m" using Cons.prems(2) by (simp add: om_wf_insert)
  ultimately obtain m' where "member_list split lexical_cast (map toString as) ?m = Inr m'" "om_wf m'"
    "\<forall>e \<in> set m'. fst e = snd e" "fst ` set m' = insert (toString a) (fst ` set m) \<union> toString ` set as"
    using Cons.IH [of ?m] Cons.prems(1) by auto
  with a show ?case by auto
qed simp

end
