(* ===== verification/StartupProperties.thy ===== *)
theory StartupProperties
  imports Startup
begin

text \<open>
  The properties of start-up, of the options and of the utilities: member lists, the saved
  cluster configuration, the wait for Raft, addresses, the tokenizer and path mapping.
\<close>

section \<open>Concrete libraries\<close>

definition demo_split :: "string \<Rightarrow> string list" where
  "demo_split = split_on (CHR '':'')"

definition demo_cast :: "string \<Rightarrow> u16 option" where
  "demo_cast s = (if parse_digits s < 65536 then Some (of_nat (parse_digits s)) else None)"

lemma demo_boost_laws: "boost_split_law demo_split" "boost_cast_law demo_cast"
  by (simp_all add: boost_split_law_def demo_split_def boost_cast_law_def demo_cast_def parse_digits_of)

definition demo_config_api ::
    "(int \<times> string, (int \<times> string) list, nat, (int \<times> string) list \<times> nat) config_api" where
  "demo_config_api =
     \<lparr>new_srv = Pair, new_cluster = [], push_server = (\<lambda>v c. c @ [v]),
      config_serialize = (\<lambda>c. (c, 0)), config_deserialize = fst,
      state_serialize = (\<lambda>s. ([], s)), state_deserialize = snd\<rparr>"

definition demo_entries :: "(nat, (int \<times> string) list \<times> nat, unit) entry_api" where
  "demo_entries =
     \<lparr>new_entry = (\<lambda>t b v s. snd b), get_term = (\<lambda>_. 0), get_buf = Pair [], get_val_type = (\<lambda>_. ()),
      get_timestamp = (\<lambda>_. 0), app_log = (), buf_clone = id, buf_size = snd, zero_buf = Pair [],
      serialize = Pair [], deserialize = snd\<rparr>"

lemma demo_config_law: "config_law demo_config_api id"
  by (simp add: config_law_def demo_config_api_def)

definition demo_addresses :: "Address list" where
  "demo_addresses = [\<lparr>address = ''h1'', port = 1\<rparr>, \<lparr>address = ''h2'', port = 2\<rparr>]"

section \<open>The cluster configuration\<close>

lemma concat_replicate_snoc: "concat (replicate k xs) @ xs = xs @ concat (replicate k xs)"
  by (induction k) simp_all

text \<open>The cluster option round trip: a list of addresses without colons in their host names,
  written as text, becomes the member list with exactly those texts as keys, in order and
  without duplicates, each mapped to itself as its endpoint.\<close>

theorem member_list_complete:
  assumes "boost_split_law split" and "boost_cast_law lexical_cast"
    and "\<forall>a \<in> set as. CHR '':'' \<notin> set (address a)"
  shows "case initializeStaticInstance split lexical_cast c f (map toString as) of
      Inl _ \<Rightarrow> False
    | Inr (m, stuff, flags) \<Rightarrow> om_wf m \<and> fst ` set m = toString ` set as \<and> (\<forall>e \<in> set m. fst e = snd e)
        \<and> stuff_id stuff = serverId c"
proof -
  obtain m where "member_list split lexical_cast (map toString as) [] = Inr m" "om_wf m"
    "\<forall>e \<in> set m. fst e = snd e" "fst ` set m = toString ` set as"
    using member_list_addresses [OF assms, of "[]"] by auto
  then show ?thesis by (simp add: initializeStaticInstance_def init_stuff_def)
qed

theorem member_list_complete_witness:
  "case initializeStaticInstance demo_split demo_cast
      \<lparr>serverId = 1, consensus_address = ''h1'', consensus_port = 9000\<rparr>
      \<lparr>asyncSnapshotCreation = False, asyncHandler = False\<rparr> (map toString demo_addresses) of
      Inl _ \<Rightarrow> False
    | Inr (m, stuff, flags) \<Rightarrow> om_wf m \<and> fst ` set m = toString ` set demo_addresses
        \<and> (\<forall>e \<in> set m. fst e = snd e) \<and> stuff_id stuff = 1"
proof -
  have "\<forall>a \<in> set demo_addresses. CHR '':'' \<notin> set (address a)" by (simp add: demo_addresses_def)
  from member_list_complete [OF demo_boost_laws this,
      of "\<lparr>serverId = 1, consensus_address = ''h1'', consensus_port = 9000\<rparr>"
        "\<lparr>asyncSnapshotCreation = False, asyncHandler = False\<rparr>"]
  show ?thesis by (simp only: consensus_config.simps)
qed

text \<open>The \<open>k\<close>-th call of \<^verbatim>\<open>load_config\<close> returns this server followed by \<open>k\<close> copies of all the
  other members: every call adds them to the saved configuration again.\<close>

theorem load_config_repeats:
  assumes "boost_split_law split" and "boost_cast_law lexical_cast" and "config_law A servers"
    and "\<forall>a \<in> set as. CHR '':'' \<notin> set (address a)"
  shows "servers (saved_config (((\<lambda>s. snd (load_config A split lexical_cast own (map (\<lambda>a. (toString a, toString a)) as) s)) ^^ k)
      (inmem_state_mgr A E own endpoint))) =
    new_srv A own endpoint # concat (replicate k (peers_of A own as))"
proof (induction k)
  case 0
  show ?case using assms(3) by (simp add: inmem_state_mgr_def config_law_def)
next
  case (Suc k)
  let ?load = "\<lambda>s. snd (load_config A split lexical_cast own (map (\<lambda>a. (toString a, toString a)) as) s)"
  have *: "servers (saved_config (?load s)) = servers (saved_config s) @ peers_of A own as"
    for s
  proof -
    obtain c' where "push_peers A split lexical_cast own (map toString as) (saved_config s) = (Inr (), c')"
      "servers c' = servers (saved_config s) @ peers_of A own as"
      using push_peers_addresses [OF assms] by blast
    then show ?thesis by (simp add: load_config_def comp_def)
  qed
  show ?case by (simp only: funpow.simps comp_apply * Suc.IH) (simp add: concat_replicate_snoc)
qed

theorem load_config_repeats_witness:
  "saved_config (((\<lambda>s. snd (load_config demo_config_api demo_split demo_cast 1
      (map (\<lambda>a. (toString a, toString a)) demo_addresses) s)) ^^ 2)
      (inmem_state_mgr demo_config_api demo_entries 1 ''h1:1'')) =
    [(1, ''h1:1''), (2, ''h2:2''), (2, ''h2:2'')]"
proof -
  have "\<forall>a \<in> set demo_addresses. CHR '':'' \<notin> set (address a)" by (simp add: demo_addresses_def)
  note load_config_repeats [OF demo_boost_laws demo_config_law this, of 2 1 demo_entries "''h1:1''"]
  moreover have "peers_of demo_config_api 1 demo_addresses = [(2, ''h2:2'')]" by code_simp
  moreover have "new_srv demo_config_api 1 ''h1:1'' = (1, ''h1:1'')" by code_simp
  ultimately show ?thesis by (simp add: numeral_2_eq_2)
qed

text \<open>The two consensus options are crossed: asking for asynchronous snapshots selects the
  asynchronous reply handler and synchronous snapshots, asking for the handler alone selects
  asynchronous snapshots, and the handler is ignored when both are asked for.\<close>

theorem flags_crossed:
  "init_flags \<lparr>asyncSnapshotCreation = True, asyncHandler = h\<rparr> = (async_handler, False)
    \<and> init_flags \<lparr>asyncSnapshotCreation = False, asyncHandler = True\<rparr> = (blocking, True)"
  by (simp add: init_flags_def)

lemma wait_initialized_cases:
  "wait_initialized n polls 0 =
    (if \<exists>i < n. polls i then (True, 250 * (LEAST i. polls i)) else (False, 250 * n))"
proof (cases "\<exists>i < n. polls i")
  case True
  then obtain i where i: "i < n" "polls i" by blast
  let ?l = "LEAST i. polls i"
  have "polls ?l" using i(2) by (rule LeastI)
  moreover have "?l < n" using Least_le [of polls i] i by simp
  moreover have "\<not> polls j" if "j < ?l" for j using that by (rule not_less_Least)
  ultimately have "wait_initialized n polls 0 = (True, 0 + 250 * ?l)"
    by (intro wait_initialized_first)
  with True show ?thesis by (simp only: if_True add_0)
next
  case False
  then have "wait_initialized n polls 0 = (False, 0 + 250 * n)"
    by (intro wait_initialized_never) blast
  with False show ?thesis by (simp only: if_False add_0)
qed

text \<open>The wait for the Raft server polls at most 100 times: it succeeds at the first poll that
  answers yes, after 250 ms for each poll before it, and gives up after 25 seconds if none of
  the 100 does.\<close>

theorem init_raft_waits:
  "wait_initialized MAX_TRY polls 0 =
    (if \<exists>i < MAX_TRY. polls i then (True, 250 * (LEAST i. polls i)) else (False, 25000))"
proof -
  have "250 * MAX_TRY = 25000" by (simp add: MAX_TRY_def)
  then show ?thesis by (simp only: wait_initialized_cases)
qed

section \<open>Utilities\<close>

text \<open>The prompt's tokenizer returns exactly the non-empty pieces of the line between
  separators, in order: with the empty pieces they join to the line, and no piece has a
  separator.\<close>

theorem tokenize_pieces:
  "tokenize s c = filter (\<lambda>t. t \<noteq> []) (split_on c s) \<and> join_with c (split_on c s) = s
    \<and> list_all (\<lambda>t. c \<notin> set t \<and> t \<noteq> []) (tokenize s c)"
  using split_on_sep_free [of _ c s] by (auto simp: tokenize_split join_split list_all_iff)



end
