(* ===== verification/LoggerText.thy ===== *)
theory LoggerText
  imports Utility
begin

text \<open>
  The text functions of the logger, \<^verbatim>\<open>src/consensus/debugger.cc\<close>: replacing a substring, the
  names of the log files and the revision numbers read back from them, the broken-down time,
  and the bounded formatting of a record. \<^verbatim>\<open>localtime_r\<close>, \<^verbatim>\<open>gmtime\<close> and the directory
  listing are arguments.
\<close>

section \<open>Replacing substrings\<close>

text \<open>\<^verbatim>\<open>std::string::find(pat, pos)\<close>; \<open>None\<close> is \<^verbatim>\<open>npos\<close>.\<close>

definition find_from :: "string \<Rightarrow> string \<Rightarrow> nat \<Rightarrow> nat option" where
  "find_from s pat pos =
     find (\<lambda>i. take (length pat) (drop i s) = pat) [pos..<Suc (length s) - length pat]"

text \<open>The loop restarts after the match; without progress it does not end, hence the option.\<close>

partial_function (option) replace_loop ::
    "string \<Rightarrow> string \<Rightarrow> string \<Rightarrow> nat \<Rightarrow> string \<Rightarrow> string option" where
  "replace_loop src before after last' ret =
     (case find_from src before last' of
        None \<Rightarrow> Some (if last' < length src then ret @ drop last' src else ret)
      | Some pos \<Rightarrow>
          replace_loop src before after (pos + length before)
            (ret @ take (pos - last') (drop last' src) @ after))"

definition replaceString :: "string \<Rightarrow> string \<Rightarrow> string \<Rightarrow> string option" where
  "replaceString src before after = replace_loop src before after 0 []"

text \<open>The reference: matches from left to right that do not overlap.\<close>

function replace_all :: "string \<Rightarrow> string \<Rightarrow> string \<Rightarrow> string" where
  "replace_all before after [] = []"
| "replace_all before after (c # s) =
     (if before \<noteq> [] \<and> take (length before) (c # s) = before
      then after @ replace_all before after (drop (length before - 1) s)
      else c # replace_all before after s)"
  by pat_completeness auto
termination by (relation "measure (\<lambda>(b, a, s). length s)") auto

lemma find_from_Some:
  assumes "find_from s pat pos = Some i"
  shows "pos \<le> i" and "i + length pat \<le> length s" and "take (length pat) (drop i s) = pat"
    and "\<And>j. pos \<le> j \<Longrightarrow> j < i \<Longrightarrow> take (length pat) (drop j s) \<noteq> pat"
proof -
  let ?is = "[pos..<Suc (length s) - length pat]"
  from assms obtain k where k: "k < length ?is" "i = ?is ! k"
    "take (length pat) (drop i s) = pat"
    "\<And>j. j < k \<Longrightarrow> take (length pat) (drop (?is ! j) s) \<noteq> pat"
    unfolding find_from_def by (auto simp: find_Some_iff)
  show "pos \<le> i" "i + length pat \<le> length s" "take (length pat) (drop i s) = pat"
    using k(1-3) by auto
  show "take (length pat) (drop j s) \<noteq> pat" if "pos \<le> j" "j < i" for j
    using k(4) [of "j - pos"] k(1,2) that by auto
qed

lemma find_from_None:
  assumes "find_from s pat pos = None" and "pos \<le> j"
  shows "take (length pat) (drop j s) \<noteq> pat \<or> length s < j + length pat"
proof (cases "j + length pat \<le> length s")
  case True
  with assms(2) have "j \<in> set [pos..<Suc (length s) - length pat]" by simp
  with assms(1) show ?thesis by (auto simp: find_from_def find_None_iff simp del: upt_Suc)
qed simp

lemma replace_all_skip:
  assumes "\<And>j. j < k \<Longrightarrow> take (length before) (drop j s) \<noteq> before" and "k \<le> length s"
  shows "replace_all before after s = take k s @ replace_all before after (drop k s)"
  using assms
proof (induction k arbitrary: s)
  case (Suc k)
  then obtain c t where s: "s = c # t" by (cases s) auto
  have "take (length before) (c # t) \<noteq> before" using Suc.prems(1) [of 0] s by simp
  moreover have "replace_all before after t = take k t @ replace_all before after (drop k t)"
    using Suc.prems(1) [of "Suc _"] Suc.prems(2) s by (intro Suc.IH) auto
  ultimately show ?case using s by simp
qed simp

lemma replace_all_none:
  assumes "\<And>j. take (length before) (drop j s) \<noteq> before \<or> length s < j + length before"
  shows "replace_all before after s = s"
proof -
  have "take (length before) (drop j s) \<noteq> before" if "j < length s" "before \<noteq> []" for j
  proof
    assume *: "take (length before) (drop j s) = before"
    then have "length before \<le> length s - j" by (metis length_drop length_take min.cobounded1)
    with * assms [of j] that show False by auto
  qed
  then show ?thesis
  proof (cases "before = []")
    case True
    show ?thesis unfolding True by (induction s) auto
  qed (use replace_all_skip [of "length s" before s after] in auto)
qed

lemma replace_loop_reference:
  assumes "before \<noteq> []"
  shows "last' \<le> length src \<Longrightarrow>
    replace_loop src before after last' ret = Some (ret @ replace_all before after (drop last' src))"
proof (induction "length src - last'" arbitrary: last' ret rule: less_induct)
  case less
  show ?case
  proof (cases "find_from src before last'")
    case None
    have "take (length before) (drop j (drop last' src)) \<noteq> before
        \<or> length (drop last' src) < j + length before" for j
      using find_from_None [OF None, of "last' + j"] less.prems by (auto simp: add.commute)
    then have "replace_all before after (drop last' src) = drop last' src" by (rule replace_all_none)
    with None show ?thesis by (subst replace_loop.simps) simp
  next
    case (Some pos)
    note f = find_from_Some [OF this]
    let ?k = "pos - last'" and ?next = "pos + length before"
    have len: "0 < length before" using assms by simp
    have "replace_all before after (drop last' src) =
        take ?k (drop last' src) @ replace_all before after (drop pos src)"
      using f less.prems replace_all_skip [of ?k before "drop last' src" after] by (auto simp: add.commute)
    also have "replace_all before after (drop pos src) = after @ replace_all before after (drop ?next src)"
    proof -
      obtain c s where "drop pos src = c # s" using f(2) len by (cases "drop pos src") (auto simp del: length_greater_0_conv)
      then have "s = drop (Suc pos) src" by (metis drop_Suc tl_drop list.sel(3))
      with \<open>drop pos src = c # s\<close> f(3) assms show ?thesis by (cases "length before") (auto simp: add.commute)
    qed
    moreover have "replace_loop src before after ?next (ret @ take ?k (drop last' src) @ after) =
        Some ((ret @ take ?k (drop last' src) @ after) @ replace_all before after (drop ?next src))"
      using f(1,2) len less.prems by (intro less.hyps) (auto simp del: length_greater_0_conv)
    ultimately show ?thesis using Some by (subst replace_loop.simps) simp
  qed
qed

lemma find_from_empty: "last' \<le> length s \<Longrightarrow> find_from s [] last' = Some last'"
  by (simp add: find_from_def upt_conv_Cons del: upt_Suc)

lemma replace_loop_result:
  "replace_loop src before after last' ret = Some r \<Longrightarrow> \<not> (before = [] \<and> last' \<le> length src)"
proof (erule replace_loop.raw_induct [rotated])
  fix f src before after last' ret r
  assume IH: "\<And>src before after last' ret r.
      f src before after last' ret = Some r \<Longrightarrow> \<not> (before = [] \<and> last' \<le> length src)"
    and "(case find_from src before last' of
        None \<Rightarrow> Some (if last' < length src then ret @ drop last' src else ret)
      | Some pos \<Rightarrow> f src before after (pos + length before) (ret @ take (pos - last') (drop last' src) @ after)) = Some r"
  then show "\<not> (before = [] \<and> last' \<le> length src)"
    using find_from_empty by (auto split: option.splits)
qed

lemma replace_loop_empty: "last' \<le> length src \<Longrightarrow> replace_loop src [] after last' ret = None"
  using replace_loop_result by (metis option.exhaust)

section \<open>Revisions\<close>

definition getLogFilePath :: "string \<Rightarrow> nat \<Rightarrow> string" where
  "getLogFilePath filePath file_num =
     (if file_num \<noteq> 0 then filePath @ ''.'' @ digits_of file_num else filePath)"

text \<open>The revision of a name, as \<^verbatim>\<open>size_t\<close>, and whether the file is compressed.\<close>

definition revision_of :: "string \<Rightarrow> (nat \<times> bool) option" where
  "revision_of f_name =
     (case rfind (CHR ''.'') f_name of
        None \<Rightarrow> None
      | Some (_, ext) \<Rightarrow>
          if ext = ''gz'' \<and> length f_name > 7
          then (case rfind (CHR ''.'') (take (length f_name - 7) f_name) of
                  None \<Rightarrow> None
                | Some (_, ext') \<Rightarrow> Some (nat (atoi ext' mod 2 ^ 64), True))
          else Some (nat (atoi ext mod 2 ^ 64), False))"

text \<open>The accumulator: whether a minimum is known, the minimum, the maximum.\<close>

fun findMinMaxRevNumInternal :: "bool \<times> nat \<times> nat \<Rightarrow> string \<Rightarrow> bool \<times> nat \<times> nat" where
  "findMinMaxRevNumInternal (initialized, min_revnum, max_revnum) f_name =
     (case revision_of f_name of
        None \<Rightarrow> (initialized, min_revnum, max_revnum)
      | Some (revnum, comp_file) \<Rightarrow>
          (True, min (if initialized then min_revnum else revnum) revnum,
           max max_revnum (if comp_file then revnum + 1 else revnum)))"

text \<open>\<open>readdir\<close> gives the names in a directory, in the order of the operating system.\<close>

definition findMinMaxRevNum :: "(string \<Rightarrow> string list) \<Rightarrow> string \<Rightarrow> nat \<times> nat" where
  "findMinMaxRevNum readdir filePath =
     (let (dir_path, file_name_only) =
            (case rfind (CHR ''/'') filePath of None \<Rightarrow> (''./'', filePath) | Some (d, f) \<Rightarrow> (d, f));
          names = filter (\<lambda>f. find_from f file_name_only 0 \<noteq> None) (readdir dir_path)
      in snd (foldl findMinMaxRevNumInternal (False, 0, 0) names))"

section \<open>Time\<close>

text \<open>\<^verbatim>\<open>std::tm\<close> and the logger's own broken-down time.\<close>

record tm =
  tm_year :: int
  tm_mon :: int
  tm_mday :: int
  tm_hour :: int
  tm_min :: int
  tm_sec :: int

record TimeInfo =
  year :: int
  month :: int
  day :: int
  hour :: int
  minute :: int
  sec :: int
  msec :: int
  usec :: int

definition TimeInfo_of_tm :: "tm \<Rightarrow> TimeInfo" where
  "TimeInfo_of_tm src =
     \<lparr>year = tm_year src + 1900, month = tm_mon src + 1, day = tm_mday src, hour = tm_hour src,
      minute = tm_min src, sec = tm_sec src, msec = 0, usec = 0\<rparr>"

text \<open>\<open>us_epoch\<close> is the time in microseconds, a \<^verbatim>\<open>size_t\<close>.\<close>

definition TimeInfo_of_time :: "(nat \<Rightarrow> tm) \<Rightarrow> nat \<Rightarrow> TimeInfo" where
  "TimeInfo_of_time localtime us_epoch =
     (TimeInfo_of_tm (localtime (us_epoch div 1000000)))
       \<lparr>msec := int (us_epoch div 1000 mod 1000), usec := int (us_epoch mod 1000)\<rparr>"

definition getTzGap :: "(nat \<Rightarrow> tm) \<Rightarrow> (nat \<Rightarrow> tm) \<Rightarrow> nat \<Rightarrow> int" where
  "getTzGap localtime gmtime raw_time =
     (let lt = TimeInfo_of_tm (localtime raw_time); gmt = TimeInfo_of_tm (gmtime raw_time)
      in (day lt * 60 * 24 + hour lt * 60 + minute lt) - (day gmt * 60 * 24 + hour gmt * 60 + minute gmt))"

section \<open>Formatting a record\<close>

text \<open>\<^verbatim>\<open>%0wd\<close> and \<^verbatim>\<open>%wu\<close>.\<close>

definition zero_padded :: "nat \<Rightarrow> int \<Rightarrow> string" where
  "zero_padded w i =
     (if i < 0 then CHR ''-'' # replicate (w - 1 - length (digits_of (nat (- i)))) (CHR ''0'') @ digits_of (nat (- i))
      else replicate (w - length (digits_of (nat i))) (CHR ''0'') @ digits_of (nat i))"

definition space_padded :: "nat \<Rightarrow> nat \<Rightarrow> string" where
  "space_padded w n = replicate (w - length (digits_of n)) (CHR '' '') @ digits_of n"

definition lv_names :: "string list" where
  "lv_names = [''===='', ''FATL'', ''ERRO'', ''WARN'', ''INFO'', ''DEBG'', ''TRAC'']"

definition record_header :: "TimeInfo \<Rightarrow> int \<Rightarrow> nat \<Rightarrow> nat \<Rightarrow> nat \<Rightarrow> string" where
  "record_header lt tz tid_width tid level =
     (let tz_gap_abs = (if tz < 0 then - tz else tz)
      in zero_padded 4 (year lt) @ ''-'' @ zero_padded 2 (month lt) @ ''-'' @ zero_padded 2 (day lt) @ ''T'' @
         zero_padded 2 (hour lt) @ '':'' @ zero_padded 2 (minute lt) @ '':'' @ zero_padded 2 (sec lt) @ ''.'' @
         zero_padded 3 (msec lt) @ ''_'' @ zero_padded 3 (usec lt) @
         (if tz \<ge> 0 then ''+'' else ''-'') @ zero_padded 2 (tz_gap_abs div 60) @ '':'' @
         zero_padded 2 (tz_gap_abs mod 60) @ '' [''  @ space_padded tid_width tid @ ''] ['' @
         lv_names ! level @ ''] '')"

text \<open>The file's name after its last slash; a slash at the very start stays.\<close>

definition last_slash :: "string \<Rightarrow> nat" where
  "last_slash source_file =
     foldl (\<lambda>l i. if source_file ! i = CHR ''/'' \<or> source_file ! i = char_of (92 :: nat) then i else l) 0
       [0..<length source_file]"

definition record_suffix :: "(string \<times> string) option \<Rightarrow> nat \<Rightarrow> string" where
  "record_suffix site line_number =
     (case site of
        None \<Rightarrow> [char_of (10 :: nat)]
      | Some (source_file, func_name) \<Rightarrow>
          char_of (9 :: nat) # ''['' @
          drop (if last_slash source_file \<noteq> 0 then last_slash source_file + 1 else 0) source_file @
          '':'' @ digits_of line_number @ '', '' @ func_name @ ''()]'' @ [char_of (10 :: nat)])"

text \<open>
  The macro \<^verbatim>\<open>_snprintf\<close> on the buffer, \<open>avail_len\<close> and \<open>cur_len\<close>: \<open>snprintf\<close> writes at most
  \<open>avail_len - 1\<close> characters and a NUL at \<open>cur_len\<close>, nothing when no space is left.
\<close>

type_synonym msg_buffer = "string \<times> nat \<times> nat"

definition NUL :: char where "NUL = char_of (0 :: nat)"

definition overwrite :: "nat \<Rightarrow> string \<Rightarrow> string \<Rightarrow> string" where
  "overwrite pos new buf = take pos buf @ new @ drop (pos + length new) buf"

fun snprintf_macro :: "string \<Rightarrow> msg_buffer \<Rightarrow> msg_buffer" where
  "snprintf_macro text (buf, avail_len, cur_len) =
     (let avail = (if avail_len > cur_len then avail_len - cur_len else 0);
          msg_len = length text
      in (if avail = 0 then buf else overwrite cur_len (take (avail - 1) text @ [NUL]) buf,
          avail, cur_len + (if avail > msg_len then msg_len else avail)))"

definition MSG_SIZE :: nat where "MSG_SIZE = 4096"

text \<open>\<open>buf\<close> is the uninitialised stack buffer; \<open>format_record\<close> is what \<^verbatim>\<open>put\<close> gives the ring.\<close>

definition format_buffer :: "string \<Rightarrow> string \<Rightarrow> string \<Rightarrow> string \<Rightarrow> msg_buffer" where
  "format_buffer buf header body suffix =
     snprintf_macro suffix (snprintf_macro body (snprintf_macro header (buf, MSG_SIZE, 0)))"

definition format_record :: "string \<Rightarrow> string \<Rightarrow> string \<Rightarrow> string \<Rightarrow> string" where
  "format_record buf header body suffix =
     (case format_buffer buf header body suffix of (msg, avail_len, cur_len) \<Rightarrow> take cur_len msg)"

section \<open>Lemmas\<close>

text \<open>The name of a compressed log file; its revision and that of the plain file read back.\<close>

definition archive_name :: "string \<Rightarrow> nat \<Rightarrow> string" where
  "archive_name filePath n = getLogFilePath filePath n @ ''.tar.gz''"

text \<open>A base name whose own extension is not a number, as in \<^verbatim>\<open>1.log\<close>.\<close>

definition log_base :: "string \<Rightarrow> bool" where
  "log_base base \<longleftrightarrow>
     (case rfind (CHR ''.'') base of None \<Rightarrow> False | Some (_, ext) \<Rightarrow> atoi ext = 0 \<and> ext \<noteq> ''gz'')"

lemma dot_not_in_digits: "CHR ''.'' \<notin> set (digits_of n)"
  using digits_of_digits [of "CHR ''.''" n] by (auto simp: is_digit_def)

lemma rfind_revision:
  assumes "log_base base" and "n < 2 ^ 64"
  obtains d ext where "rfind (CHR ''.'') (getLogFilePath base n) = Some (d, ext)"
    and "ext \<noteq> ''gz''" and "nat (atoi ext mod 2 ^ 64) = n"
proof (cases "n = 0")
  case True
  with assms(1) that show thesis by (auto simp: log_base_def getLogFilePath_def split: option.splits)
next
  case False
  have "digits_of n \<noteq> ''gz''" using digits_of_digits [of "CHR ''g''" n] by (auto simp: is_digit_def)
  moreover have "rfind (CHR ''.'') (getLogFilePath base n) = Some (base, digits_of n)"
    using False rfind_append [OF dot_not_in_digits] by (simp add: getLogFilePath_def)
  moreover have "int n mod 2 ^ 64 = int n"
    using assms(2) by (intro mod_pos_pos_trivial) simp_all
  then have "nat (atoi (digits_of n) mod 2 ^ 64) = n" by (simp only: atoi_digits_of nat_int)
  ultimately show thesis using that by blast
qed

lemma revision_of_plain:
  assumes "log_base base" and "n < 2 ^ 64"
  shows "revision_of (getLogFilePath base n) = Some (n, False)"
proof -
  obtain d ext where "rfind (CHR ''.'') (getLogFilePath base n) = Some (d, ext)" "ext \<noteq> ''gz''"
    "nat (atoi ext mod 2 ^ 64) = n"
    using rfind_revision [OF assms] .
  then show ?thesis by (simp add: revision_of_def)
qed

lemma revision_of_archive:
  assumes "log_base base" and "n < 2 ^ 64"
  shows "revision_of (archive_name base n) = Some (n, True)"
proof -
  have "CHR ''.'' \<notin> set ''gz''" by simp
  from rfind_append [OF this, of "getLogFilePath base n @ ''.tar''"]
  have gz: "rfind (CHR ''.'') (archive_name base n) = Some (getLogFilePath base n @ ''.tar'', ''gz'')"
    by (simp add: archive_name_def)
  obtain d ext where e: "rfind (CHR ''.'') (getLogFilePath base n) = Some (d, ext)"
    "nat (atoi ext mod 2 ^ 64) = n"
    using rfind_revision [OF assms] .
  have "getLogFilePath base n \<noteq> []" using e(1) by (auto simp: rfind_def)
  then show ?thesis using gz e by (simp add: revision_of_def archive_name_def)
qed

text \<open>A record never leaves the buffer, and is whole as long as it is short enough.\<close>

lemma snprintf_macro_bounds:
  assumes "snprintf_macro text (buf, avail_len, cur_len) = (buf', avail, cur')"
    and "length buf = N" and "cur_len + (avail_len - cur_len) \<le> N"
  shows "length buf' = N" and "cur' + (avail - cur') \<le> N"
  using assms by (auto simp: Let_def overwrite_def split: if_splits)

lemma format_record_length: "length (format_record buf header body suffix) \<le> MSG_SIZE"
proof -
  obtain b1 a1 c1 where 1: "snprintf_macro header (buf, MSG_SIZE, 0) = (b1, a1, c1)" by (rule prod_cases3)
  obtain b2 a2 c2 where 2: "snprintf_macro body (b1, a1, c1) = (b2, a2, c2)" by (rule prod_cases3)
  obtain b3 a3 c3 where 3: "snprintf_macro suffix (b2, a2, c2) = (b3, a3, c3)" by (rule prod_cases3)
  have "c1 + (a1 - c1) \<le> MSG_SIZE" using 1 by (auto simp: Let_def split: if_splits)
  then have "c2 + (a2 - c2) \<le> MSG_SIZE" using 2 by (auto simp: Let_def split: if_splits)
  then have "c3 \<le> MSG_SIZE" using 3 by (auto simp: Let_def split: if_splits)
  with 1 2 3 show ?thesis by (simp add: format_record_def format_buffer_def)
qed

lemma snprintf_macro_fits:
  assumes "cur_len + length text < length buf" and "cur_len + length text < avail_len"
  shows "snprintf_macro text (buf, avail_len, cur_len) =
      (take cur_len buf @ text @ NUL # drop (cur_len + length text + 1) buf,
       avail_len - cur_len, cur_len + length text)"
proof -
  have "cur_len < avail_len" "length text < avail_len - cur_len" "length text \<le> avail_len - Suc cur_len"
    using assms(2) by simp_all
  then show ?thesis by (simp add: Let_def overwrite_def)
qed

text \<open>What does not fit is cut to leave room for the NUL, and the NUL counts as text.\<close>

lemma snprintf_macro_cut:
  assumes "cur_len < avail_len" and "avail_len - cur_len \<le> length text"
  shows "snprintf_macro text (buf, avail_len, cur_len) =
      (overwrite cur_len (take (avail_len - cur_len - 1) text @ [NUL]) buf, avail_len - cur_len, avail_len)"
  using assms by (simp add: Let_def)

lemma snprintf_macro_full:
  "avail_len \<le> cur_len \<Longrightarrow> snprintf_macro text (buf, avail_len, cur_len) = (buf, 0, cur_len)"
  by (simp add: Let_def)

lemma format_record_outcome:
  assumes "length buf = MSG_SIZE" and h: "length header < MSG_SIZE"
  shows "format_record buf header body suffix =
    (if length header + length body < MSG_SIZE
     then if 2 * length header + length body + length suffix < MSG_SIZE then header @ body @ suffix
          else if 2 * length header + length body < MSG_SIZE
          then header @ body @ take (MSG_SIZE - 2 * length header - length body - 1) suffix @ [NUL]
          else header @ body
     else header @ take (MSG_SIZE - length header - 1) body @ [NUL])"
proof -
  let ?h = "length header" and ?b = "length body"
  note [simp del] = snprintf_macro.simps
  obtain r1 where H: "snprintf_macro header (buf, MSG_SIZE, 0) = (header @ r1, MSG_SIZE, ?h)"
    "length r1 = MSG_SIZE - ?h"
    using assms by (simp add: snprintf_macro_fits)
  show ?thesis
  proof (cases "?h + ?b < MSG_SIZE")
    case True
    obtain r2 where B: "snprintf_macro body (header @ r1, MSG_SIZE, ?h) = (header @ body @ r2, MSG_SIZE - ?h, ?h + ?b)"
      "length r2 = MSG_SIZE - ?h - ?b"
      using True H(2) by (simp add: snprintf_macro_fits)
    consider "2 * ?h + ?b + length suffix < MSG_SIZE"
      | "2 * ?h + ?b < MSG_SIZE" "MSG_SIZE - ?h - (?h + ?b) \<le> length suffix" | "MSG_SIZE \<le> 2 * ?h + ?b" by linarith
    then show ?thesis
    proof cases
      case 1
      have "snprintf_macro suffix (header @ body @ r2, MSG_SIZE - ?h, ?h + ?b) =
          (header @ body @ suffix @ NUL # drop (length suffix + 1) r2, MSG_SIZE - ?h - (?h + ?b), ?h + ?b + length suffix)"
        using 1 B(2) by (simp add: snprintf_macro_fits)
      with True 1 H(1) B(1) show ?thesis by (simp add: format_record_def format_buffer_def)
    next
      case 2
      then have "snprintf_macro suffix (header @ body @ r2, MSG_SIZE - ?h, ?h + ?b) =
          (overwrite (?h + ?b) (take (MSG_SIZE - ?h - (?h + ?b) - 1) suffix @ [NUL]) (header @ body @ r2),
           MSG_SIZE - ?h - (?h + ?b), MSG_SIZE - ?h)"
        by (intro snprintf_macro_cut) simp_all
      moreover have "take (MSG_SIZE - ?h) (overwrite (?h + ?b) (take (MSG_SIZE - ?h - (?h + ?b) - 1) suffix @ [NUL]) (header @ body @ r2))
          = header @ body @ take (MSG_SIZE - 2 * ?h - ?b - 1) suffix @ [NUL]"
        using 2 by (simp add: overwrite_def mult_2 add.assoc)
      moreover have "\<not> 2 * ?h + ?b + length suffix < MSG_SIZE" using 2 by linarith
      ultimately show ?thesis
        using True 2(1) H(1) B(1) by (simp add: format_record_def format_buffer_def)
    next
      case 3
      then have "snprintf_macro suffix (header @ body @ r2, MSG_SIZE - ?h, ?h + ?b) = (header @ body @ r2, 0, ?h + ?b)"
        by (intro snprintf_macro_full) simp
      with True 3 H(1) B(1) show ?thesis by (simp add: format_record_def format_buffer_def)
    qed
  next
    case False
    let ?cut = "take (MSG_SIZE - ?h - 1) body @ [NUL]"
    have "snprintf_macro body (header @ r1, MSG_SIZE, ?h) = (overwrite ?h ?cut (header @ r1), MSG_SIZE - ?h, MSG_SIZE)"
      using False h by (intro snprintf_macro_cut) simp_all
    moreover have "overwrite ?h ?cut (header @ r1) = header @ ?cut"
      using False h H(2) by (simp add: overwrite_def)
    moreover have "length (header @ ?cut) = MSG_SIZE" using False h by simp
    ultimately show ?thesis
      using False H(1) by (simp add: format_record_def format_buffer_def snprintf_macro_full)
  qed
qed

end
