(* ===== verification/Options.thy ===== *)
theory Options
  imports Paths Utility LoggerText
begin

text \<open>
  The options of the program, \<^verbatim>\<open>parse_options\<close> of \<^verbatim>\<open>src/utility.cc\<close> with the schema it
  declares, the prompt loop, and the clock text. Parsing a command line or a file against a
  schema, and \<^verbatim>\<open>po::store\<close>, are boost's and are arguments; \<open>store_law\<close> is what its
  documentation says of \<^verbatim>\<open>store\<close>.
\<close>

section \<open>Values and schemas\<close>

datatype po_value =
    PString string
  | PStrings "string list"
  | PInt int
  | PShort u16
  | PBool bool
  | PMode Mode

record option_spec =
  spec_name :: string
  spec_default :: "po_value option"

text \<open>A variable's value, and whether it is a default.\<close>

type_synonym variables = "string \<Rightarrow> (bool \<times> po_value) option"

abbreviation opt :: "string \<Rightarrow> po_value option \<Rightarrow> option_spec" where
  "opt n d \<equiv> \<lparr>spec_name = n, spec_default = d\<rparr>"

definition generic_options :: "option_spec list" where
  "generic_options =
     [opt ''help'' None, opt ''config'' None, opt ''mode'' None, opt ''flag.debug'' (Some (PBool False))]"

text \<open>\<open>data_dir\<close> is \<^verbatim>\<open>tmp\<close> below the working directory.\<close>

definition app_options :: "string \<Rightarrow> option_spec list" where
  "app_options data_dir =
     [opt ''port'' (Some (PShort 8000)), opt ''directory'' (Some (PString data_dir)),
      opt ''cluster.address'' None, opt ''flag.leader'' (Some (PBool False)),
      opt ''flag.local_ubuntu'' (Some (PBool False)), opt ''flag.timeout'' (Some (PInt 1000)),
      opt ''flag.failrate'' (Some (PInt 0)), opt ''flag.latency'' (Some (PBool False)),
      opt ''flag.election'' (Some (PBool True)), opt ''consensus.server-id'' (Some (PInt 1)),
      opt ''consensus.endpoint'' (Some (PString ''127.0.1.1:9000'')),
      opt ''consensus.async-snapshot-creation'' (Some (PBool False)),
      opt ''consensus.async-handler'' (Some (PBool False))]"

definition test_options :: "option_spec list" where
  "test_options =
     [opt ''command'' (Some (PString ''get'')), opt ''key'' (Some (PString ''default-key'')),
      opt ''value'' (Some (PString ''default-value'')), opt ''target'' (Some (PString ''127.0.1.1:8000''))]"

definition default_of :: "option_spec list \<Rightarrow> string \<Rightarrow> po_value option" where
  "default_of specs k = Option.bind (map_of (map (\<lambda>s. (spec_name s, s)) specs) k) spec_default"

section \<open>The library\<close>

text \<open>
  \<open>None\<close> is a \<^verbatim>\<open>po::error\<close>. Files are given by name; one that does not open is \<open>None\<close> for
  \<open>po_open\<close>.
\<close>

record po_api =
  po_cmd :: "option_spec list \<Rightarrow> string list \<Rightarrow> (string \<times> po_value) list option"
  po_open :: "string \<Rightarrow> string option"
  po_file :: "option_spec list \<Rightarrow> string \<Rightarrow> (string \<times> po_value) list option"
  po_store :: "option_spec list \<Rightarrow> (string \<times> po_value) list \<Rightarrow> variables \<Rightarrow> variables"

definition store_law :: "po_api \<Rightarrow> bool" where
  "store_law P \<longleftrightarrow>
     (\<forall>specs found vars k. po_store P specs found vars k =
        (case vars k of
           Some (False, v) \<Rightarrow> Some (False, v)
         | old \<Rightarrow>
             (case map_of found k of
                Some v \<Rightarrow> Some (False, v)
              | None \<Rightarrow>
                  (case old of
                     Some x \<Rightarrow> Some x
                   | None \<Rightarrow> map_option (Pair True) (default_of specs k)))))"

section \<open>The configuration\<close>

record config_options =
  opt_config :: string
  opt_ip :: string
  opt_port :: u16
  opt_directory :: string
  opt_cluster :: "string list"
  opt_mode :: Mode
  flag_debug :: bool
  flag_leader :: bool
  flag_local_ubuntu :: bool
  flag_latency :: bool
  flag_election :: bool
  flag_timeout :: int
  flag_failrate :: int
  opt_serverId :: int
  opt_endpoint :: string
  opt_consensus_port :: int
  opt_consensus_address :: string
  opt_asyncSnapshotCreation :: bool
  opt_asyncHandler :: bool

definition get_string :: "variables \<Rightarrow> string \<Rightarrow> string \<Rightarrow> string" where
  "get_string vars k old = (case vars k of Some (_, PString s) \<Rightarrow> s | _ \<Rightarrow> old)"

definition get_strings :: "variables \<Rightarrow> string \<Rightarrow> string list \<Rightarrow> string list" where
  "get_strings vars k old = (case vars k of Some (_, PStrings s) \<Rightarrow> s | _ \<Rightarrow> old)"

definition get_int :: "variables \<Rightarrow> string \<Rightarrow> int \<Rightarrow> int" where
  "get_int vars k old = (case vars k of Some (_, PInt i) \<Rightarrow> i | _ \<Rightarrow> old)"

definition get_short :: "variables \<Rightarrow> string \<Rightarrow> u16 \<Rightarrow> u16" where
  "get_short vars k old = (case vars k of Some (_, PShort i) \<Rightarrow> i | _ \<Rightarrow> old)"

definition get_bool :: "variables \<Rightarrow> string \<Rightarrow> bool \<Rightarrow> bool" where
  "get_bool vars k old = (case vars k of Some (_, PBool b) \<Rightarrow> b | _ \<Rightarrow> old)"

text \<open>\<^verbatim>\<open>po::notify\<close> writes the variables that have a place in the configuration.\<close>

definition notify_app :: "variables \<Rightarrow> config_options \<Rightarrow> config_options" where
  "notify_app vars c =
     c\<lparr>opt_port := get_short vars ''port'' (opt_port c),
       opt_directory := get_string vars ''directory'' (opt_directory c),
       opt_cluster := get_strings vars ''cluster.address'' (opt_cluster c),
       flag_leader := get_bool vars ''flag.leader'' (flag_leader c),
       flag_local_ubuntu := get_bool vars ''flag.local_ubuntu'' (flag_local_ubuntu c),
       flag_timeout := get_int vars ''flag.timeout'' (flag_timeout c),
       flag_failrate := get_int vars ''flag.failrate'' (flag_failrate c),
       flag_latency := get_bool vars ''flag.latency'' (flag_latency c),
       flag_election := get_bool vars ''flag.election'' (flag_election c),
       opt_serverId := get_int vars ''consensus.server-id'' (opt_serverId c),
       opt_endpoint := get_string vars ''consensus.endpoint'' (opt_endpoint c),
       opt_asyncSnapshotCreation :=
         get_bool vars ''consensus.async-snapshot-creation'' (opt_asyncSnapshotCreation c),
       opt_asyncHandler := get_bool vars ''consensus.async-handler'' (opt_asyncHandler c)\<rparr>"

text \<open>\<^verbatim>\<open>getAddress\<close> of the only service there is.\<close>

definition getAddress :: "config_options \<Rightarrow> Address" where
  "getAddress c = \<lparr>address = opt_ip c, port = opt_port c\<rparr>"

text \<open>
  \<^verbatim>\<open>validate\<close>: the names that \<^verbatim>\<open>parse_options<GENERIC>\<close> puts into \<^verbatim>\<open>param_map\<close>; any other
  one is a \<^verbatim>\<open>validation_error\<close>.
\<close>

definition mode_names :: "(string \<times> Mode) list" where
  "mode_names =
     [(''empty'', EMPTY), (''app'', APP), (''consensus'', CONSENSUS), (''test'', TEST),
      (''benchmark'', BENCHMARK), (''interactive'', INTERACTIVE)]"

definition validate :: "string \<Rightarrow> po_value result" where
  "validate valueAsString =
     (case map_of mode_names valueAsString of
        None \<Rightarrow> Inl ValidationError
      | Some m \<Rightarrow> Inr (PMode m))"

section \<open>Parsing\<close>

text \<open>
  The result: whether help is asked for, the configuration and the variables; \<open>None\<close> is the
  process ending with \<^verbatim>\<open>exit(1)\<close>.
\<close>

definition parse_generic ::
    "po_api \<Rightarrow> string list \<Rightarrow> config_options \<Rightarrow> variables \<Rightarrow> (config_options \<times> variables) option" where
  "parse_generic P argv c vars =
     (case po_cmd P generic_options argv of
        None \<Rightarrow> None
      | Some found \<Rightarrow>
          (let vars' = po_store P generic_options found vars;
               c' = c\<lparr>flag_debug := get_bool vars' ''flag.debug'' (flag_debug c)\<rparr>
           in Some (case vars' ''mode'' of Some (_, PMode m) \<Rightarrow> c'\<lparr>opt_mode := m\<rparr> | _ \<Rightarrow> c', vars')))"

text \<open>Storing what the configuration file holds, if there is one and it opens.\<close>

definition store_file ::
    "po_api \<Rightarrow> option_spec list \<Rightarrow> (string \<Rightarrow> string) \<Rightarrow> variables \<Rightarrow> variables option" where
  "store_file P specs locate vars =
     (case vars ''config'' of
        None \<Rightarrow> Some vars
      | Some _ \<Rightarrow>
          (case po_open P (locate (get_string vars ''config'' [])) of
             None \<Rightarrow> Some vars
           | Some contents \<Rightarrow>
               map_option (\<lambda>found. po_store P specs found vars) (po_file P specs contents)))"

definition parse_app ::
    "po_api \<Rightarrow> string \<Rightarrow> string \<Rightarrow> string list \<Rightarrow> config_options \<Rightarrow> variables \<Rightarrow>
     (bool \<times> config_options \<times> variables) option" where
  "parse_app P cwd executablePath argv c vars =
     (let specs = app_options (concatenatePath cwd cwd ''tmp'') in
      case po_cmd P specs argv of
        None \<Rightarrow> None
      | Some found \<Rightarrow>
          (let vars1 = po_store P specs found vars in
           case store_file P specs (concatenatePath cwd executablePath) vars1 of
             None \<Rightarrow> None
           | Some vars2 \<Rightarrow>
               (let c1 = c\<lparr>opt_config := get_string vars1 ''config'' (opt_config c)\<rparr>;
                    c2 = notify_app vars2 c1;
                    c3 = (if opt_mode c2 = EMPTY then c2\<lparr>opt_mode := APP\<rparr> else c2)
                in case parse_consensus (opt_serverId c3) (opt_endpoint c3) of
                     None \<Rightarrow> None
                   | Some k \<Rightarrow>
                       Some (vars2 ''help'' \<noteq> None,
                         c3\<lparr>opt_consensus_port := consensus_port k, opt_consensus_address := consensus_address k\<rparr>,
                         vars2))))"

text \<open>The options of the tests; their file name is taken as it is.\<close>

definition parse_test ::
    "po_api \<Rightarrow> string list \<Rightarrow> config_options \<Rightarrow> variables \<Rightarrow> (bool \<times> config_options \<times> variables) option" where
  "parse_test P argv c vars =
     (case po_cmd P test_options argv of
        None \<Rightarrow> None
      | Some found \<Rightarrow>
          (case store_file P test_options (\<lambda>f. f) (po_store P test_options found vars) of
             None \<Rightarrow> None
           | Some vars2 \<Rightarrow>
               Some (vars2 ''help'' \<noteq> None, if opt_mode c = EMPTY then c\<lparr>opt_mode := TEST\<rparr> else c, vars2)))"

text \<open>
  The first part of \<^verbatim>\<open>main\<close>: all options, and \<^verbatim>\<open>argv\<close> without the mode. \<open>c\<close> is the fresh
  configuration, whose mode is not initialised.
\<close>

definition main_options ::
    "po_api \<Rightarrow> string \<Rightarrow> string \<Rightarrow> string list \<Rightarrow> config_options \<Rightarrow>
     (bool \<times> config_options \<times> int \<times> string list) result option" where
  "main_options P cwd executablePath argv c =
     Option.bind (parse_generic P argv c (\<lambda>_. None)) (\<lambda>(c1, vars1).
     Option.bind (parse_app P cwd executablePath argv c1 vars1) (\<lambda>(help, c2, vars2).
       Some (map_sum id (\<lambda>(argc, argv'). (help, c2, argc, argv'))
         (remove_command_argument (vars2 ''mode'' \<noteq> None) (int (length argv)) argv argv))))"

section \<open>The prompt and the clock\<close>

text \<open>
  \<^verbatim>\<open>loop\<close> over the lines typed; \<^verbatim>\<open>getline\<close> fails at the end and at a line that does not fit
  \<^verbatim>\<open>cmd\<close>. The results are the prompts printed and the state.
\<close>

fun prompt_loop ::
    "string \<Rightarrow> (string list \<Rightarrow> 's \<Rightarrow> bool \<times> 's) \<Rightarrow> string list \<Rightarrow> 's \<Rightarrow> nat \<times> 's" where
  "prompt_loop prompt command_switch [] s = (1, s)"
| "prompt_loop prompt command_switch (cmd # lines) s =
     (if length cmd \<ge> 1000 then (1, s)
      else case command_switch (tokenize cmd (CHR '' '')) s of
             (cont, s') \<Rightarrow>
               if \<not> cont then (1, s')
               else case prompt_loop prompt command_switch lines s' of (n, s'') \<Rightarrow> (Suc n, s''))"

definition prompt_text :: "string \<Rightarrow> int \<Rightarrow> string" where
  "prompt_text title i = title @ '' '' @ to_string i @ ''> ''"

text \<open>
  \<open>us\<close> is the clock in microseconds, \<open>ms\<close> that of the system clock in milliseconds;
  \<^verbatim>\<open>substr(10, ...)\<close> of a shorter text throws.
\<close>

definition getClockTime :: "(nat \<Rightarrow> tm) \<Rightarrow> nat \<Rightarrow> nat \<Rightarrow> string result" where
  "getClockTime localtime us ms =
     (let t = localtime (ms div 1000); frac = digits_of (ms mod 1000000)
      in if length (digits_of us) < 10 then Inl LengthError
         else Inr (zero_padded 2 (tm_hour t) @ '':'' @ zero_padded 2 (tm_min t) @ '':'' @ zero_padded 2 (tm_sec t) @
                ''.'' @ replicate (3 - length frac) (CHR ''0'') @ frac @ '' '' @ [char_of (206 :: nat), char_of (188 :: nat)] @
                ''='' @ drop 10 (digits_of us) @ '' ''))"

end
