(* ===== verification/OptionsProperties.thy ===== *)
theory OptionsProperties
  imports Options
begin

text \<open>The properties of the options: which source of an option wins, and when parsing succeeds.\<close>

section \<open>Storing\<close>

lemma store_lookup:
  assumes "store_law P"
  shows "map_option snd (po_store P specs found vars k) =
    (case vars k of
       Some (False, v) \<Rightarrow> Some v
     | old \<Rightarrow> (case map_of found k of Some v \<Rightarrow> Some v | None \<Rightarrow>
         (case old of Some x \<Rightarrow> Some (snd x) | None \<Rightarrow> default_of specs k)))"
proof -
  have "po_store P specs found vars k =
      (case vars k of
         Some (False, v) \<Rightarrow> Some (False, v)
       | old \<Rightarrow> (case map_of found k of Some v \<Rightarrow> Some (False, v) | None \<Rightarrow>
           (case old of Some x \<Rightarrow> Some x | None \<Rightarrow> map_option (Pair True) (default_of specs k))))"
    using assms unfolding store_law_def by blast
  then show ?thesis by (cases "default_of specs k") (auto split: option.split bool.split prod.split)
qed

lemma store_given:
  assumes "store_law P" and "vars k = None"
  shows "po_store P specs found vars k =
    (case map_of found k of Some v \<Rightarrow> Some (False, v) | None \<Rightarrow> map_option (Pair True) (default_of specs k))"
proof -
  have "po_store P specs found vars k =
      (case vars k of
         Some (False, v) \<Rightarrow> Some (False, v)
       | old \<Rightarrow> (case map_of found k of Some v \<Rightarrow> Some (False, v) | None \<Rightarrow>
           (case old of Some x \<Rightarrow> Some x | None \<Rightarrow> map_option (Pair True) (default_of specs k))))"
    using assms(1) unfolding store_law_def by blast
  with assms(2) show ?thesis by (simp split: option.split)
qed

text \<open>What the file adds, when it is there and parses; nothing otherwise.\<close>

definition file_values :: "po_api \<Rightarrow> option_spec list \<Rightarrow> (string \<Rightarrow> string) \<Rightarrow> variables \<Rightarrow> (string \<times> po_value) list option" where
  "file_values P specs locate vars =
     (case vars ''config'' of
        None \<Rightarrow> Some []
      | Some _ \<Rightarrow> (case po_open P (locate (get_string vars ''config'' [])) of
          None \<Rightarrow> Some [] | Some contents \<Rightarrow> po_file P specs contents))"

text \<open>The option \<open>k\<close> on the command line, else in the file, else by default.\<close>

definition prioritised :: "option_spec list \<Rightarrow> (string \<times> po_value) list \<Rightarrow> (string \<times> po_value) list \<Rightarrow> string \<Rightarrow> po_value option" where
  "prioritised specs cmd file k =
     (case map_of cmd k of Some v \<Rightarrow> Some v | None \<Rightarrow>
        (case map_of file k of Some v \<Rightarrow> Some v | None \<Rightarrow> default_of specs k))"

lemma stored_both:
  assumes "store_law P" and "vars k = None"
  shows "map_option snd (po_store P specs file (po_store P specs cmd vars) k) = prioritised specs cmd file k"
  unfolding store_lookup [OF assms(1)] store_given [where vars = vars and k = k, OF assms] prioritised_def
  by (auto split: option.split)

lemma stored_once:
  assumes "store_law P" and "vars k = None"
  shows "map_option snd (po_store P specs cmd vars k) = prioritised specs cmd [] k"
  unfolding store_given [where vars = vars and k = k, OF assms] prioritised_def
  by (cases "default_of specs k") (auto split: option.split)

lemma store_file_values:
  "store_file P specs locate vars =
    (case file_values P specs locate vars of
       None \<Rightarrow> None
     | Some found \<Rightarrow> Some (if vars ''config'' = None \<or> po_open P (locate (get_string vars ''config'' [])) = None
         then vars else po_store P specs found vars))"
  by (auto simp: store_file_def file_values_def split: option.split)

lemma stored_file:
  assumes "store_law P" and "vars k = None"
    and "store_file P specs locate (po_store P specs cmd vars) = Some vars2"
    and "file_values P specs locate (po_store P specs cmd vars) = Some file"
  shows "map_option snd (vars2 k) = prioritised specs cmd file k"
proof -
  let ?v = "po_store P specs cmd vars"
  show ?thesis
  proof (cases "?v ''config'' = None \<or> po_open P (locate (get_string ?v ''config'' [])) = None")
    case True
    then have "file = []" using assms(4) by (auto simp: file_values_def split: option.splits)
    with True assms(3,4) have "vars2 = ?v" by (simp add: store_file_values)
    then show ?thesis using stored_once [where vars = vars and k = k, OF assms(1,2)] \<open>file = []\<close> by simp
  next
    case False
    with assms(3,4) have "vars2 = po_store P specs file ?v" by (simp add: store_file_values)
    then show ?thesis using stored_both [where vars = vars and k = k, OF assms(1,2)] by simp
  qed
qed

section \<open>Properties\<close>


text \<open>A library that does what is documented, and a file that loses against the command line.\<close>

definition demo_store :: "option_spec list \<Rightarrow> (string \<times> po_value) list \<Rightarrow> variables \<Rightarrow> variables" where
  "demo_store specs found vars k =
     (case vars k of
        Some (False, v) \<Rightarrow> Some (False, v)
      | old \<Rightarrow>
          (case map_of found k of
             Some v \<Rightarrow> Some (False, v)
           | None \<Rightarrow> (case old of Some x \<Rightarrow> Some x | None \<Rightarrow> map_option (Pair True) (default_of specs k))))"

definition demo_po :: po_api where
  "demo_po =
     \<lparr>po_cmd = (\<lambda>_ _. Some [(''port'', PShort 9001)]), po_open = (\<lambda>_. Some []),
      po_file = (\<lambda>_ _. Some [(''port'', PShort 7), (''consensus.server-id'', PInt 3)]), po_store = demo_store\<rparr>"

definition demo_vars :: variables where
  "demo_vars k = (if k = ''config'' then Some (False, PString ''node.ini'') else None)"


end
