(* ===== verification/LoggerCore.thy ===== *)
theory LoggerCore
  imports LoggerText
begin

text \<open>
  Class \<^verbatim>\<open>SimpleLogger\<close> of \<^verbatim>\<open>src/consensus/debugger.cc\<close> as one thread sees it: the ring of
  records, the file they are flushed to, its rotation, and the compression of old files. The
  interleavings of several threads are in \<^verbatim>\<open>LoggerRace\<close>. Whether a file can be opened and
  what the shell does with a command are arguments. Sizes and revisions are natural numbers:
  2^64 bytes or files are out of reach.
\<close>

section \<open>State\<close>

datatype elem_status = CLEAN | WRITING | DIRTY | FLUSHING

record log_elem =
  ctx :: string
  status :: elem_status

type_synonym files = "(string, string) omap"

text \<open>
  The output stream is the name of its file (none when closed), whether its state is good, and
  the position \<^verbatim>\<open>tellp\<close> reports: 0 after opening, the end of the file after a write.
\<close>

record simple_logger =
  filePath :: string
  minRevnum :: nat
  curRevnum :: nat
  maxLogFiles :: nat
  fs_file :: "string option"
  fs_good :: bool
  tellp :: nat
  maxLogFileSize :: nat
  numCompJobs :: nat
  curLogLevel :: int
  curDispLevel :: int
  tzGap :: int
  cursor :: nat
  elems :: "log_elem list"

text \<open>What a record takes from its surroundings: the time, the thread, the stack buffer.\<close>

record log_stamp =
  stamp_time :: TimeInfo
  stamp_width :: nat
  stamp_tid :: nat
  stack_buf :: string

section \<open>Elements\<close>

definition new_elem :: log_elem where
  "new_elem = \<lparr>ctx = [], status = CLEAN\<rparr>"

definition needToFlush :: "log_elem \<Rightarrow> bool" where
  "needToFlush e \<longleftrightarrow> status e = DIRTY"

definition available :: "log_elem \<Rightarrow> bool" where
  "available e \<longleftrightarrow> status e = CLEAN \<or> status e = DIRTY"

definition elem_write :: "string \<Rightarrow> log_elem \<Rightarrow> int \<times> log_elem" where
  "elem_write msg e =
     (if status e \<noteq> CLEAN then (- 1, e)
      else (0, e\<lparr>ctx := take MSG_SIZE msg, status := DIRTY\<rparr>))"

text \<open>The result, what is written to the stream, the element.\<close>

definition elem_flush :: "log_elem \<Rightarrow> int \<times> string \<times> log_elem" where
  "elem_flush e = (if status e \<noteq> DIRTY then (- 1, [], e) else (0, ctx e, e\<lparr>status := CLEAN\<rparr>))"

section \<open>The stream\<close>

definition fs_open :: "(string \<Rightarrow> bool) \<Rightarrow> string \<Rightarrow> simple_logger \<Rightarrow> files \<Rightarrow> simple_logger \<times> files" where
  "fs_open can_open name lg fs =
     (if can_open name
      then (lg\<lparr>fs_file := Some name, fs_good := True, tellp := 0\<rparr>, om_insert name [] fs)
      else (lg\<lparr>fs_file := None, fs_good := False\<rparr>, fs))"

text \<open>Writing to a closed stream makes it bad; a bad stream ignores writes.\<close>

definition fs_write :: "string \<Rightarrow> simple_logger \<Rightarrow> files \<Rightarrow> simple_logger \<times> files" where
  "fs_write s lg fs =
     (if \<not> fs_good lg then (lg, fs)
      else case fs_file lg of
             None \<Rightarrow> (lg\<lparr>fs_good := False\<rparr>, fs)
           | Some name \<Rightarrow>
               (let content = (case om_find fs name of None \<Rightarrow> [] | Some c \<Rightarrow> c) @ s
                in (if s = [] then lg else lg\<lparr>tellp := length content\<rparr>, om_assign name content fs)))"

section \<open>Flushing\<close>

fun flush_elems :: "nat list \<Rightarrow> simple_logger \<Rightarrow> files \<Rightarrow> simple_logger \<times> files" where
  "flush_elems [] lg fs = (lg, fs)"
| "flush_elems (i # is) lg fs =
     (case elem_flush (elems lg ! i) of
        (rc, out, e) \<Rightarrow>
          if rc < 0 then flush_elems is lg fs
          else case fs_write out (lg\<lparr>elems := (elems lg)[i := e]\<rparr>) fs of
                 (lg', fs') \<Rightarrow> flush_elems is lg' fs')"

text \<open>
  A flush by the only thread that wants the flushing lock; \<open>has_mgr\<close> is whether the manager
  exists. The third result is the revision handed to the compressor, if the file was rotated.
\<close>

definition logger_flush ::
    "(string \<Rightarrow> bool) \<Rightarrow> bool \<Rightarrow> nat \<Rightarrow> simple_logger \<Rightarrow> files \<Rightarrow> simple_logger \<times> files \<times> nat option" where
  "logger_flush can_open has_mgr start_pos lg fs =
     (case flush_elems ([start_pos..<length (elems lg)] @ [0..<start_pos]) lg fs of
        (lg1, fs1) \<Rightarrow>
          if maxLogFileSize lg1 \<noteq> 0 \<and> fs_good lg1 \<and> fs_file lg1 \<noteq> None \<and> tellp lg1 > maxLogFileSize lg1
          then case fs_open can_open (getLogFilePath (filePath lg1) (curRevnum lg1 + 1))
                      (lg1\<lparr>curRevnum := curRevnum lg1 + 1\<rparr>) fs1 of
                 (lg2, fs2) \<Rightarrow>
                   if has_mgr then (lg2\<lparr>numCompJobs := numCompJobs lg2 + 1\<rparr>, fs2, Some (curRevnum lg2 - 1))
                   else (lg2, fs2, None)
          else (lg1, fs1, None))"

definition flushAll ::
    "(string \<Rightarrow> bool) \<Rightarrow> bool \<Rightarrow> simple_logger \<Rightarrow> files \<Rightarrow> simple_logger \<times> files \<times> nat option" where
  "flushAll can_open has_mgr lg fs = logger_flush can_open has_mgr (cursor lg) lg fs"

section \<open>Putting a record\<close>

text \<open>
  The part of \<^verbatim>\<open>put\<close> that works on the ring: take the slot at the cursor and advance the cursor,
  wait until the slot is available (\<open>None\<close>: for ever, as no other thread runs), flush when it is
  dirty, write. The cursor is taken modulo the number of elements, which must not be 0.
\<close>

definition put_ring ::
    "(string \<Rightarrow> bool) \<Rightarrow> bool \<Rightarrow> string \<Rightarrow> simple_logger \<Rightarrow> files \<Rightarrow>
     (simple_logger \<times> files \<times> nat option) option" where
  "put_ring can_open has_mgr msg lg fs =
     (let i = cursor lg; lg1 = lg\<lparr>cursor := (i + 1) mod length (elems lg)\<rparr>
      in if \<not> available (elems lg1 ! i) then None
         else case (if needToFlush (elems lg1 ! i) then logger_flush can_open has_mgr i lg1 fs
                    else (lg1, fs, None)) of
                (lg2, fs2, rotated) \<Rightarrow>
                  Some (lg2\<lparr>elems := (elems lg2)[i := snd (elem_write msg (elems lg2 ! i))]\<rparr>, fs2, rotated))"

definition stamp_header :: "log_stamp \<Rightarrow> nat \<Rightarrow> simple_logger \<Rightarrow> string" where
  "stamp_header stamp level lg =
     record_header (stamp_time stamp) (tzGap lg) (stamp_width stamp) (stamp_tid stamp) level"

definition put_record :: "log_stamp \<Rightarrow> nat \<Rightarrow> (string \<times> string) option \<Rightarrow> nat \<Rightarrow> string \<Rightarrow> simple_logger \<Rightarrow> string" where
  "put_record stamp level site line_number text lg =
     format_record (stack_buf stamp) (stamp_header stamp level lg) text (record_suffix site line_number)"

section \<open>The console\<close>

definition ESC :: string where "ESC = [char_of (27 :: nat)]"

definition CLM_END :: string where "CLM_END = ESC @ ''[0m''"
definition CLM_BROWN :: string where "CLM_BROWN = ESC @ ''[33m''"
definition CLM_GREEN :: string where "CLM_GREEN = ESC @ ''[32m''"
definition CLM_CYAN :: string where "CLM_CYAN = ESC @ ''[36m''"
definition CLM_D_GRAY :: string where "CLM_D_GRAY = ESC @ ''[1;30m''"
definition CLM_B_RED :: string where "CLM_B_RED = ESC @ ''[1;31m''"
definition CLM_B_BROWN :: string where "CLM_B_BROWN = ESC @ ''[1;33m''"
definition CLM_B_BLUE :: string where "CLM_B_BLUE = ESC @ ''[1;34m''"
definition CLM_B_MAGENTA :: string where "CLM_B_MAGENTA = ESC @ ''[1;35m''"
definition CLM_WHITE_FG_RED_BG :: string where "CLM_WHITE_FG_RED_BG = ESC @ ''[37;41m''"

definition colored_lv_names :: "string list" where
  "colored_lv_names =
     [CLM_B_BROWN @ ''===='' @ CLM_END, CLM_WHITE_FG_RED_BG @ ''FATL'' @ CLM_END,
      CLM_B_RED @ ''ERRO'' @ CLM_END, CLM_B_MAGENTA @ ''WARN'' @ CLM_END, ''INFO'',
      CLM_D_GRAY @ ''DEBG'' @ CLM_END, CLM_D_GRAY @ ''TRAC'' @ CLM_END]"

definition console_header :: "TimeInfo \<Rightarrow> nat \<Rightarrow> nat \<Rightarrow> nat \<Rightarrow> string" where
  "console_header lt tid_width tid level =
     '' ['' @ CLM_BROWN @ zero_padded 2 (hour lt) @ CLM_END @ '':'' @ CLM_BROWN @ zero_padded 2 (minute lt) @
     CLM_END @ '':'' @ CLM_BROWN @ zero_padded 2 (sec lt) @ CLM_END @ ''.'' @ CLM_BROWN @ zero_padded 3 (msec lt) @
     CLM_END @ '' '' @ CLM_BROWN @ zero_padded 3 (usec lt) @ CLM_END @ ''] [tid '' @ CLM_B_BLUE @
     space_padded tid_width tid @ CLM_END @ ''] ['' @ colored_lv_names ! level @ ''] ''"

definition console_site :: "(string \<times> string) option \<Rightarrow> nat \<Rightarrow> string" where
  "console_site site line_number =
     (case site of
        None \<Rightarrow> [char_of (10 :: nat)]
      | Some (source_file, func_name) \<Rightarrow>
          ''['' @ CLM_GREEN @
          drop (if last_slash source_file \<noteq> 0 then last_slash source_file + 1 else 0) source_file @ CLM_END @
          '':'' @ CLM_B_RED @ digits_of line_number @ CLM_END @ '', '' @ CLM_CYAN @ func_name @ ''()'' @ CLM_END @
          '']'' @ [char_of (10 :: nat)])"

text \<open>The buffer still holds the record; \<^verbatim>\<open>cout\<close> prints up to the first NUL.\<close>

definition console_record :: "log_stamp \<Rightarrow> nat \<Rightarrow> (string \<times> string) option \<Rightarrow> nat \<Rightarrow> string \<Rightarrow> string \<Rightarrow> string" where
  "console_record stamp level site line_number text buf =
     takeWhile (\<lambda>c. c \<noteq> NUL)
       (fst (foldl (\<lambda>b s. snprintf_macro s b) (buf, MSG_SIZE, 0)
         ([console_header (stamp_time stamp) (stamp_width stamp) (stamp_tid stamp) level,
           console_site site line_number] @
          (if level = 0 then [CLM_B_BROWN] else if level = 1 then [CLM_B_RED] else []) @
          [text, CLM_END])))"

section \<open>The whole of put\<close>

text \<open>The results: the logger, the files, the revision to compress, what is printed.\<close>

definition logger_put ::
    "(string \<Rightarrow> bool) \<Rightarrow> bool \<Rightarrow> log_stamp \<Rightarrow> nat \<Rightarrow> (string \<times> string) option \<Rightarrow> nat \<Rightarrow> string \<Rightarrow>
     simple_logger \<Rightarrow> files \<Rightarrow> (simple_logger \<times> files \<times> nat option \<times> string list) option" where
  "logger_put can_open has_mgr stamp level site line_number text lg fs =
     (if int level > curLogLevel lg \<or> \<not> fs_good lg then Some (lg, fs, None, [])
      else case put_ring can_open has_mgr (put_record stamp level site line_number text lg) lg fs of
             None \<Rightarrow> None
           | Some (lg', fs', rotated) \<Rightarrow>
               Some (lg', fs', rotated,
                 if int level > curDispLevel lg' then []
                 else [console_record stamp level site line_number text
                         (fst (format_buffer (stack_buf stamp) (stamp_header stamp level lg) text
                           (record_suffix site line_number)))]))"

section \<open>Levels and limits\<close>

definition setLogLevel :: "int \<Rightarrow> simple_logger \<Rightarrow> simple_logger" where
  "setLogLevel level lg = (if level > 6 \<or> \<not> fs_good lg then lg else lg\<lparr>curLogLevel := level\<rparr>)"

definition setDispLevel :: "int \<Rightarrow> simple_logger \<Rightarrow> simple_logger" where
  "setDispLevel level lg = (if level > 6 then lg else lg\<lparr>curDispLevel := level\<rparr>)"

definition setMaxLogFiles :: "nat \<Rightarrow> simple_logger \<Rightarrow> simple_logger" where
  "setMaxLogFiles max_log_files lg = (if max_log_files = 0 then lg else lg\<lparr>maxLogFiles := max_log_files\<rparr>)"

definition new_logger ::
    "(string \<Rightarrow> string list) \<Rightarrow> int \<Rightarrow> string \<Rightarrow> nat \<Rightarrow> nat \<Rightarrow> nat \<Rightarrow> simple_logger option" where
  "new_logger readdir tz file_path max_log_elems log_file_size_limit max_log_files =
     (case replaceString file_path ''//'' ''/'' of
        None \<Rightarrow> None
      | Some p \<Rightarrow>
          (case findMinMaxRevNum readdir p of
             (min_revnum, max_revnum) \<Rightarrow>
               Some \<lparr>filePath = p, minRevnum = min_revnum, curRevnum = max_revnum, maxLogFiles = max_log_files,
                 fs_file = None, fs_good = True, tellp = 0, maxLogFileSize = log_file_size_limit,
                 numCompJobs = 0, curLogLevel = 4, curDispLevel = 4, tzGap = tz, cursor = 0,
                 elems = replicate max_log_elems new_elem\<rparr>))"

section \<open>Compression\<close>

type_synonym shell = "string \<Rightarrow> files \<Rightarrow> files"

definition execCmd :: "shell \<Rightarrow> string \<Rightarrow> files \<Rightarrow> files" where
  "execCmd sh cmd_given fs = sh (cmd_given @ '' > /dev/null'') fs"

definition remove_revision :: "shell \<Rightarrow> simple_logger \<times> files \<Rightarrow> nat \<Rightarrow> simple_logger \<times> files" where
  "remove_revision sh st ii =
     (case st of (lg, fs) \<Rightarrow>
       let filename = getLogFilePath (filePath lg) ii;
           filename_tar = getLogFilePath (filePath lg) ii @ ''.tar.gz''
       in (lg\<lparr>minRevnum := ii + 1\<rparr>, execCmd sh (''rm -f '' @ filename @ '' '' @ filename_tar) fs))"

definition doCompression :: "shell \<Rightarrow> nat \<Rightarrow> simple_logger \<Rightarrow> files \<Rightarrow> simple_logger \<times> files" where
  "doCompression sh file_num lg fs =
     (let filename = getLogFilePath (filePath lg) file_num;
          fs1 = execCmd sh (''tar zcvf '' @ filename @ ''.tar.gz '' @ filename) fs;
          fs2 = execCmd sh (''rm -f '' @ filename) fs1;
          (lg3, fs3) =
            (if maxLogFiles lg \<noteq> 0 \<and> file_num \<ge> maxLogFiles lg
             then foldl (remove_revision sh) (lg, fs2) [minRevnum lg..<Suc (file_num - maxLogFiles lg)]
             else (lg, fs2))
      in (lg3\<lparr>numCompJobs := numCompJobs lg3 - 1\<rparr>, fs3))"

end
