(* ===== verification/LoggerRing.thy ===== *)
theory LoggerRing
  imports LoggerCore
begin

text \<open>
  The ring and the files of a logger hold one text: what was flushed, file after file, and
  then the dirty elements in the order of the ring. Putting a record appends it to that text
  and flushing keeps it, whatever the size of the ring, the rotation of files included. The
  interface \<open>text_sink\<close> states that, and sequences of calls follow from it.
\<close>

section \<open>The interface\<close>

locale text_sink =
  fixes put :: "string \<Rightarrow> 's \<Rightarrow> 's option"
    and sync :: "'s \<Rightarrow> 's"
    and whole :: "'s \<Rightarrow> string"
    and valid :: "'s \<Rightarrow> bool"
  assumes put_appends: "valid s \<Longrightarrow> length m \<le> MSG_SIZE \<Longrightarrow>
      \<exists>s'. put m s = Some s' \<and> valid s' \<and> whole s' = whole s @ m"
    and sync_keeps: "valid s \<Longrightarrow> valid (sync s) \<and> whole (sync s) = whole s"
begin

text \<open>A call: \<open>Some m\<close> puts \<open>m\<close>, \<open>None\<close> flushes.\<close>

fun run :: "string option list \<Rightarrow> 's \<Rightarrow> 's option" where
  "run [] s = Some s"
| "run (Some m # cs) s = Option.bind (put m s) (run cs)"
| "run (None # cs) s = run cs (sync s)"

lemma run_appends:
  "valid s \<Longrightarrow> \<forall>m. Some m \<in> set cs \<longrightarrow> length m \<le> MSG_SIZE \<Longrightarrow>
    \<exists>s'. run cs s = Some s' \<and> valid s' \<and> whole s' = whole s @ concat (List.map_filter id cs)"
proof (induction cs s rule: run.induct)
  case (2 m cs s)
  then obtain s' where s': "put m s = Some s'" "valid s'" "whole s' = whole s @ m"
    using put_appends by (metis list.set_intros(1))
  with "2.IH" [OF this(1)] "2.prems" show ?case by (auto simp: map_filter_simps)
next
  case (3 cs s)
  then show ?case using sync_keeps [of s] by (auto simp: map_filter_simps)
qed (simp add: map_filter_simps)

end

section \<open>The text of a logger\<close>

definition file_text :: "files \<Rightarrow> string \<Rightarrow> string" where
  "file_text fs name = (case om_find fs name of None \<Rightarrow> [] | Some c \<Rightarrow> c)"

definition pending :: "simple_logger \<Rightarrow> string" where
  "pending lg = concat (map ctx (filter needToFlush (rotate (cursor lg) (elems lg))))"

text \<open>From revision \<open>first\<close> on.\<close>

definition log_text :: "nat \<Rightarrow> simple_logger \<times> files \<Rightarrow> string" where
  "log_text first st =
     (case st of (lg, fs) \<Rightarrow>
       concat (map (\<lambda>r. file_text fs (getLogFilePath (filePath lg) r)) [first..<Suc (curRevnum lg)]) @ pending lg)"

definition ring_ok :: "simple_logger \<Rightarrow> bool" where
  "ring_ok lg \<longleftrightarrow> cursor lg < length (elems lg) \<and> (\<forall>e \<in> set (elems lg). available e)"

definition stream_ok :: "simple_logger \<Rightarrow> files \<Rightarrow> bool" where
  "stream_ok lg fs \<longleftrightarrow>
     fs_good lg \<and> fs_file lg = Some (getLogFilePath (filePath lg) (curRevnum lg)) \<and>
     (\<forall>r > curRevnum lg. om_find fs (getLogFilePath (filePath lg) r) = None)"

definition logger_ok :: "nat \<Rightarrow> simple_logger \<times> files \<Rightarrow> bool" where
  "logger_ok first st = (case st of (lg, fs) \<Rightarrow> ring_ok lg \<and> stream_ok lg fs \<and> first \<le> curRevnum lg)"

lemma getLogFilePath_inject: "getLogFilePath p m = getLogFilePath p n \<longleftrightarrow> m = n"
  by (auto simp: getLogFilePath_def digits_of_inject)

section \<open>Flushing\<close>

definition cleaned :: "log_elem \<Rightarrow> log_elem" where
  "cleaned e = (if needToFlush e then e\<lparr>status := CLEAN\<rparr> else e)"

lemma file_text_assign: "file_text (om_assign n c fs) m = (if m = n then c else file_text fs m)"
  by (simp add: file_text_def find_assign)

lemma fs_write_open:
  assumes "fs_good lg" and "fs_file lg = Some name"
  obtains t where "fs_write s lg fs = (lg\<lparr>tellp := t\<rparr>, om_assign name (file_text fs name @ s) fs)"
proof (cases "s = []")
  case True
  with assms that [of "tellp lg"] show thesis by (simp add: fs_write_def file_text_def)
next
  case False
  with assms that [of "length (file_text fs name @ s)"] show thesis
    by (simp add: fs_write_def file_text_def Let_def)
qed

text \<open>The elements of \<open>is\<close> are cleaned and the dirty ones written, in that order.\<close>

lemma flush_elems_effect:
  assumes "fs_good lg" and "fs_file lg = Some name" and "distinct is" and "set is \<subseteq> {..<length (elems lg)}"
  shows "\<exists>es t fs'. flush_elems is lg fs = (lg\<lparr>elems := es, tellp := t\<rparr>, fs')
    \<and> es = map (\<lambda>j. if j \<in> set is then cleaned (elems lg ! j) else elems lg ! j) [0..<length (elems lg)]
    \<and> file_text fs' name = file_text fs name @ concat (map ctx (filter needToFlush (map ((!) (elems lg)) is)))
    \<and> (\<forall>m. m \<noteq> name \<longrightarrow> om_find fs' m = om_find fs m)"
  using assms
proof (induction "is" arbitrary: lg fs)
  case Nil
  have "lg = lg\<lparr>elems := map ((!) (elems lg)) [0..<length (elems lg)], tellp := tellp lg\<rparr>"
    by (simp add: map_nth)
  then show ?case by (auto intro!: exI [of _ "tellp lg"])
next
  case (Cons i "is")
  let ?E = "elems lg"
  show ?case
  proof (cases "needToFlush (?E ! i)")
    case False
    then have "cleaned (?E ! i) = ?E ! i" by (simp add: cleaned_def)
    then have "(\<lambda>j. if j \<in> set (i # is) then cleaned (?E ! j) else ?E ! j) =
        (\<lambda>j. if j \<in> set is then cleaned (?E ! j) else ?E ! j)" by auto
    with False Cons show ?thesis by (simp add: elem_flush_def needToFlush_def)
  next
    case True
    let ?lg = "lg\<lparr>elems := ?E[i := cleaned (?E ! i)]\<rparr>"
    obtain t where w: "fs_write (ctx (?E ! i)) ?lg fs =
        (?lg\<lparr>tellp := t\<rparr>, om_assign name (file_text fs name @ ctx (?E ! i)) fs)"
      using fs_write_open [of ?lg name] Cons.prems(1,2) by auto
    let ?lg1 = "?lg\<lparr>tellp := t\<rparr>" and ?fs1 = "om_assign name (file_text fs name @ ctx (?E ! i)) fs"
    have step: "flush_elems (i # is) lg fs = flush_elems is ?lg1 ?fs1"
      using True w by (simp add: elem_flush_def needToFlush_def cleaned_def)
    obtain es t' fs' where ih: "flush_elems is ?lg1 ?fs1 = (?lg1\<lparr>elems := es, tellp := t'\<rparr>, fs')"
      "es = map (\<lambda>j. if j \<in> set is then cleaned (elems ?lg1 ! j) else elems ?lg1 ! j) [0..<length (elems ?lg1)]"
      "file_text fs' name = file_text ?fs1 name @ concat (map ctx (filter needToFlush (map ((!) (elems ?lg1)) is)))"
      "\<forall>m. m \<noteq> name \<longrightarrow> om_find fs' m = om_find ?fs1 m"
      using Cons.IH [of ?lg1 ?fs1] Cons.prems by auto
    have same: "concat (map ctx (filter needToFlush (map ((!) (elems ?lg1)) is))) =
        concat (map ctx (filter needToFlush (map ((!) ?E) is)))"
      by (intro arg_cong [where f = "\<lambda>xs. concat (map ctx (filter needToFlush xs))"] map_cong refl)
        (use Cons.prems(3) in \<open>auto intro!: nth_list_update_neq\<close>)
    have "flush_elems (i # is) lg fs = (lg\<lparr>elems := es, tellp := t'\<rparr>, fs')"
      using step ih(1) by simp
    moreover have "es = map (\<lambda>j. if j \<in> set (i # is) then cleaned (?E ! j) else ?E ! j) [0..<length ?E]"
      unfolding ih(2) using Cons.prems(3,4) by (auto simp: nth_list_update)
    moreover have "file_text fs' name =
        file_text fs name @ concat (map ctx (filter needToFlush (map ((!) ?E) (i # is))))"
      using ih(3) same True by (simp add: file_text_assign)
    moreover have "\<forall>m. m \<noteq> name \<longrightarrow> om_find fs' m = om_find fs m"
      using ih(4) by (simp add: find_assign)
    ultimately show ?thesis by (intro exI [of _ es] exI [of _ t'] exI [of _ fs'] conjI)
  qed
qed

lemma ring_order:
  assumes "s < length xs"
  shows "map ((!) xs) ([s..<length xs] @ [0..<s]) = rotate s xs"
proof -
  have "map ((!) xs) [s..<length xs] = drop s xs"
    by (metis drop_map drop_upt map_nth add_0)
  moreover have "map ((!) xs) [0..<s] = take s xs"
    using assms by (metis take_map take_upt map_nth add_0 less_imp_le)
  ultimately show ?thesis using assms by (simp add: rotate_drop_take)
qed

text \<open>What a flush from slot \<open>s\<close> does: it writes the pending text as seen from \<open>s\<close>.\<close>

lemma logger_flush_effect:
  assumes ok: "stream_ok lg fs" "\<forall>e \<in> set (elems lg). available e" "s < length (elems lg)"
    and first: "first \<le> curRevnum lg" and "\<And>n. can_open n"
    and fl: "logger_flush can_open has_mgr s lg fs = (lg', fs', rotated)"
  shows "elems lg' = map cleaned (elems lg)" and "cursor lg' = cursor lg" and "stream_ok lg' fs'"
    and "first \<le> curRevnum lg'"
    and "log_text first (lg', fs') = log_text first (lg\<lparr>cursor := s\<rparr>, fs)"
proof -
  let ?name = "getLogFilePath (filePath lg) (curRevnum lg)"
  let ?order = "[s..<length (elems lg)] @ [0..<s]"
  have st: "fs_good lg" "fs_file lg = Some ?name"
    "\<And>r. r > curRevnum lg \<Longrightarrow> om_find fs (getLogFilePath (filePath lg) r) = None"
    using ok(1) by (auto simp: stream_ok_def)
  obtain es t fs1 where fe: "flush_elems ?order lg fs = (lg\<lparr>elems := es, tellp := t\<rparr>, fs1)"
    "es = map (\<lambda>j. if j \<in> set ?order then cleaned (elems lg ! j) else elems lg ! j) [0..<length (elems lg)]"
    "file_text fs1 ?name = file_text fs ?name @ concat (map ctx (filter needToFlush (map ((!) (elems lg)) ?order)))"
    "\<And>m. m \<noteq> ?name \<Longrightarrow> om_find fs1 m = om_find fs m"
  proof -
    have "distinct ?order" "set ?order \<subseteq> {..<length (elems lg)}" using ok(3) by auto
    from flush_elems_effect [OF st(1,2) this, of fs] that show thesis by blast
  qed
  have es: "es = map cleaned (elems lg)"
    unfolding fe(2) by (rule nth_equalityI) (use ok(3) in auto)
  let ?lg1 = "lg\<lparr>elems := es, tellp := t\<rparr>"
  have clean: "filter needToFlush (rotate k es) = []" for k
    using ok(2) es by (auto simp: filter_empty_conv cleaned_def needToFlush_def)
  have body: "concat (map (\<lambda>r. file_text fs1 (getLogFilePath (filePath lg) r)) [first..<Suc (curRevnum lg)])
      = log_text first (lg\<lparr>cursor := s\<rparr>, fs)"
  proof -
    have "concat (map (\<lambda>r. file_text fs1 (getLogFilePath (filePath lg) r)) [first..<curRevnum lg]) =
        concat (map (\<lambda>r. file_text fs (getLogFilePath (filePath lg) r)) [first..<curRevnum lg])"
      by (intro arg_cong [where f = concat] map_cong refl)
        (simp add: file_text_def fe(4) getLogFilePath_inject)
    then show ?thesis
      using first fe(3) [unfolded ring_order [OF ok(3)]] by (simp add: log_text_def pending_def)
  qed
  show "elems lg' = map cleaned (elems lg)" "cursor lg' = cursor lg" "stream_ok lg' fs'" "first \<le> curRevnum lg'"
    "log_text first (lg', fs') = log_text first (lg\<lparr>cursor := s\<rparr>, fs)"
  proof -
    let ?new = "getLogFilePath (filePath lg) (Suc (curRevnum lg))"
    have fresh: "om_find fs1 (getLogFilePath (filePath lg) r) = None" if "r > curRevnum lg" for r
      using that fe(4) st(3) by (simp add: getLogFilePath_inject)
    show "elems lg' = map cleaned (elems lg)" "cursor lg' = cursor lg" "first \<le> curRevnum lg'"
      using fl fe(1) es first assms(5)
      by (auto simp: logger_flush_def fs_open_def split: if_splits prod.splits)
    show "stream_ok lg' fs'"
      using fl fe(1) st fresh assms(5)
      by (auto simp: logger_flush_def fs_open_def stream_ok_def find_insert getLogFilePath_inject split: if_splits)
    consider "fs' = fs1" "filePath lg' = filePath lg" "curRevnum lg' = curRevnum lg" "elems lg' = es"
      | "fs' = om_insert ?new [] fs1" "filePath lg' = filePath lg" "curRevnum lg' = Suc (curRevnum lg)" "elems lg' = es"
      using fl fe(1) assms(5) by (auto simp: logger_flush_def fs_open_def split: if_splits)
    then show "log_text first (lg', fs') = log_text first (lg\<lparr>cursor := s\<rparr>, fs)"
    proof cases
      case 1
      then show ?thesis using body clean first by (simp add: log_text_def pending_def)
    next
      case 2
      have "file_text fs' m = file_text fs1 m" for m
        using 2(1) fresh [of "Suc (curRevnum lg)"] by (auto simp: file_text_def find_insert)
      moreover have "file_text fs1 ?new = []" using fresh by (simp add: file_text_def)
      ultimately have "log_text first (lg', fs') =
          concat (map (\<lambda>r. file_text fs1 (getLogFilePath (filePath lg) r)) [first..<Suc (curRevnum lg)])"
        using 2 first clean by (simp add: log_text_def pending_def)
      then show ?thesis using body by simp
    qed
  qed
qed

section \<open>Putting\<close>

lemma rotate_put:
  assumes "i < length es" and "\<not> needToFlush (es ! i)" and "needToFlush e"
  shows "filter needToFlush (rotate ((i + 1) mod length es) (es[i := e])) =
    filter needToFlush (rotate i es) @ [e]"
proof -
  have "rotate i es = es ! i # drop (Suc i) es @ take i es"
    using assms(1) by (simp add: rotate_drop_take Cons_nth_drop_Suc)
  moreover have "rotate i (es[i := e]) = e # drop (Suc i) es @ take i es"
  proof -
    have "drop i (es[i := e]) = e # drop (Suc i) es"
      using assms(1) by (metis Cons_nth_drop_Suc drop_update_cancel length_list_update lessI nth_list_update_eq)
    then show ?thesis using assms(1) by (simp add: rotate_drop_take)
  qed
  then have "rotate (i + 1) (es[i := e]) = drop (Suc i) es @ take i es @ [e]" by simp
  then have "rotate ((i + 1) mod length es) (es[i := e]) = drop (Suc i) es @ take i es @ [e]"
    by (metis length_list_update rotate_conv_mod)
  ultimately show ?thesis using assms(2,3) by simp
qed

lemma put_ring_step:
  assumes "available (elems lg ! cursor lg)"
    and f: "(if needToFlush (elems lg ! cursor lg)
      then logger_flush can_open has_mgr (cursor lg) (lg\<lparr>cursor := (cursor lg + 1) mod length (elems lg)\<rparr>) fs
      else (lg\<lparr>cursor := (cursor lg + 1) mod length (elems lg)\<rparr>, fs, None)) = (lg2, fs2, rotated)"
  shows "put_ring can_open has_mgr msg lg fs =
    Some (lg2\<lparr>elems := (elems lg2)[cursor lg := snd (elem_write msg (elems lg2 ! cursor lg))]\<rparr>, fs2, rotated)"
proof -
  have "elems (lg\<lparr>cursor := c\<rparr>) = elems lg" for c by simp
  then show ?thesis
    unfolding put_ring_def Let_def using assms(1) by (simp only: f prod.case not_True_eq_False if_False)
qed

lemma put_ring_appends:
  assumes ok: "logger_ok first (lg, fs)" and can: "\<And>n. can_open n" and len: "length msg \<le> MSG_SIZE"
  shows "\<exists>lg' fs' rotated. put_ring can_open has_mgr msg lg fs = Some (lg', fs', rotated)
    \<and> logger_ok first (lg', fs') \<and> log_text first (lg', fs') = log_text first (lg, fs) @ msg"
proof -
  let ?i = "cursor lg" and ?n = "length (elems lg)"
  let ?lg1 = "lg\<lparr>cursor := (?i + 1) mod ?n\<rparr>"
  let ?e = "\<lambda>e. \<lparr>ctx = msg, status = DIRTY\<rparr>"
  have i: "?i < ?n" "available (elems lg ! ?i)"
    and av: "\<forall>e \<in> set (elems lg). available e" and st: "stream_ok lg fs" and first: "first \<le> curRevnum lg"
    using ok by (auto simp: logger_ok_def ring_ok_def)
  have n: "(?i + 1) mod ?n < ?n" using i(1) by (intro mod_less_divisor) linarith
  have st1: "stream_ok ?lg1 fs" using st by (simp add: stream_ok_def)
  obtain lg2 fs2 rotated where f: "(if needToFlush (elems lg ! ?i) then logger_flush can_open has_mgr ?i ?lg1 fs
      else (?lg1, fs, None)) = (lg2, fs2, rotated)" by (rule prod_cases3)
  let ?w = "snd (elem_write msg (elems lg2 ! ?i))"
  let ?lg3 = "lg2\<lparr>elems := (elems lg2)[?i := ?w]\<rparr>"
  have put: "put_ring can_open has_mgr msg lg fs = Some (?lg3, fs2, rotated)"
    using put_ring_step [OF i(2) f] .
  have eff: "length (elems lg2) = ?n \<and> (\<forall>e \<in> set (elems lg2). available e) \<and> status (elems lg2 ! ?i) = CLEAN
      \<and> cursor lg2 = (?i + 1) mod ?n \<and> stream_ok lg2 fs2 \<and> first \<le> curRevnum lg2
      \<and> log_text first (lg2\<lparr>cursor := ?i\<rparr>, fs2) = log_text first (lg, fs)"
  proof (cases "needToFlush (elems lg ! ?i)")
    case True
    then have fl: "logger_flush can_open has_mgr ?i ?lg1 fs = (lg2, fs2, rotated)" using f by simp
    have st1': "stream_ok ?lg1 fs" "\<forall>e \<in> set (elems ?lg1). available e" "?i < length (elems ?lg1)" "first \<le> curRevnum ?lg1"
      using st1 av i first by simp_all
    note eff = logger_flush_effect [OF st1' can fl]
    have clean: "status (cleaned e) = CLEAN" if "available e" for e
      using that by (auto simp: cleaned_def needToFlush_def available_def)
    have "log_text first (lg2\<lparr>cursor := ?i\<rparr>, fs2) = log_text first (lg2, fs2)"
      using eff(1) av by (auto simp: log_text_def pending_def filter_empty_conv needToFlush_def clean)
    then show ?thesis
      using eff i av clean by (simp add: available_def)
  next
    case False
    then have "lg2 = ?lg1" "fs2 = fs" using f by simp_all
    then show ?thesis
      using False i av st1 first by (auto simp: available_def needToFlush_def)
  qed
  have w: "?w = ?e (elems lg2 ! ?i)" using eff len by (simp add: elem_write_def)
  have "filter needToFlush (rotate ((?i + 1) mod length (elems lg2)) ((elems lg2)[?i := ?w])) =
      filter needToFlush (rotate ?i (elems lg2)) @ [?w]"
    using eff i(1) w by (intro rotate_put) (simp_all add: needToFlush_def)
  then have "log_text first (?lg3, fs2) = log_text first (lg2\<lparr>cursor := ?i\<rparr>, fs2) @ msg"
    using eff w by (simp add: log_text_def pending_def)
  moreover have "logger_ok first (?lg3, fs2)"
  proof -
    have "\<forall>e \<in> set ((elems lg2)[?i := ?w]). available e"
      using eff w set_update_subset_insert [of "elems lg2" ?i ?w] by (auto simp: available_def)
    then show ?thesis using eff n by (simp add: logger_ok_def ring_ok_def stream_ok_def)
  qed
  ultimately show ?thesis using put eff by auto
qed

lemma flushAll_keeps:
  assumes "logger_ok first (lg, fs)" and "\<And>n. can_open n"
    and "flushAll can_open has_mgr lg fs = (lg', fs', rotated)"
  shows "logger_ok first (lg', fs') \<and> log_text first (lg', fs') = log_text first (lg, fs)"
proof -
  have ok: "stream_ok lg fs" "\<forall>e \<in> set (elems lg). available e" "cursor lg < length (elems lg)"
    "first \<le> curRevnum lg"
    using assms(1) by (simp_all add: logger_ok_def ring_ok_def)
  note eff = logger_flush_effect [OF ok assms(2) assms(3) [unfolded flushAll_def]]
  have "available (cleaned e)" if "available e" for e
    using that by (auto simp: cleaned_def available_def)
  with eff ok show ?thesis by (simp add: logger_ok_def ring_ok_def)
qed

text \<open>The logger as a sink, with a file system in which files can be opened.\<close>

definition sink_put :: "bool \<Rightarrow> string \<Rightarrow> simple_logger \<times> files \<Rightarrow> (simple_logger \<times> files) option" where
  "sink_put has_mgr msg st =
     map_option (\<lambda>(lg, fs, _). (lg, fs)) (put_ring (\<lambda>_. True) has_mgr msg (fst st) (snd st))"

definition sink_sync :: "bool \<Rightarrow> simple_logger \<times> files \<Rightarrow> simple_logger \<times> files" where
  "sink_sync has_mgr st = (case flushAll (\<lambda>_. True) has_mgr (fst st) (snd st) of (lg, fs, _) \<Rightarrow> (lg, fs))"

interpretation sink: text_sink "sink_put has_mgr" "sink_sync has_mgr" "log_text first" "logger_ok first"
  for has_mgr first
proof
  show "\<exists>s'. sink_put has_mgr m s = Some s' \<and> logger_ok first s' \<and> log_text first s' = log_text first s @ m"
    if "logger_ok first s" "length m \<le> MSG_SIZE" for s m
    using put_ring_appends [of first "fst s" "snd s" "\<lambda>_. True" m has_mgr] that by (auto simp: sink_put_def)
  show "logger_ok first (sink_sync has_mgr s) \<and> log_text first (sink_sync has_mgr s) = log_text first s"
    if "logger_ok first s" for s
    using flushAll_keeps [of first "fst s" "snd s" "\<lambda>_. True" has_mgr] that
    by (auto simp: sink_sync_def split: prod.splits)
qed

end
