(* ===== verification/LoggerFiles.thy ===== *)
theory LoggerFiles
  imports LoggerRing
begin

text \<open>
  The files of a logger over time: which compressed files remain after compressions, and the
  revisions a new logger finds in the directory of an old one. What \<^verbatim>\<open>rm -f\<close> and \<^verbatim>\<open>tar\<close> do
  through the shell is the hypothesis \<open>shell_law\<close>, for names the shell takes as they are.
\<close>

section \<open>The shell\<close>

definition shell_plain :: "string \<Rightarrow> bool" where
  "shell_plain f \<longleftrightarrow>
     f \<noteq> [] \<and> hd f \<noteq> CHR ''-'' \<and>
     list_all (\<lambda>c. is_digit c \<or> c \<in> set ''/._-'' \<or>
       (97 \<le> (of_char c :: nat) \<and> (of_char c :: nat) \<le> 122) \<or> (65 \<le> (of_char c :: nat) \<and> (of_char c :: nat) \<le> 90)) f"

definition shell_law :: "shell \<Rightarrow> bool" where
  "shell_law sh \<longleftrightarrow>
     (\<forall>f fs. shell_plain f \<longrightarrow> om_find (sh (''rm -f '' @ f @ '' > /dev/null'') fs) = (om_find fs)(f := None)) \<and>
     (\<forall>f g fs. shell_plain f \<and> shell_plain g \<longrightarrow>
        om_find (sh (''rm -f '' @ f @ '' '' @ g @ '' > /dev/null'') fs) = (om_find fs)(f := None, g := None)) \<and>
     (\<forall>a f fs. shell_plain a \<and> shell_plain f \<and> om_find fs f \<noteq> None \<longrightarrow>
        (\<exists>c. om_find (sh (''tar zcvf '' @ a @ '' '' @ f @ '' > /dev/null'') fs) = (om_find fs)(a \<mapsto> c)))"

lemma plain_digits: "list_all (\<lambda>c. is_digit c \<or> P c) (digits_of n)"
  by (simp add: list_all_iff digits_of_digits)

lemma plain_names:
  assumes "shell_plain p"
  shows "shell_plain (getLogFilePath p n)" and "shell_plain (archive_name p n)"
proof -
  show plain: "shell_plain (getLogFilePath p n)"
    using assms plain_digits by (auto simp: getLogFilePath_def shell_plain_def)
  have "list_all (\<lambda>c. 97 \<le> (of_char c :: nat) \<and> (of_char c :: nat) \<le> 122) ''targz''" by code_simp
  with plain show "shell_plain (archive_name p n)"
    by (auto simp: archive_name_def shell_plain_def)
qed

section \<open>Names\<close>

lemma archive_inject: "archive_name p m = archive_name p n \<longleftrightarrow> m = n"
  by (simp add: archive_name_def getLogFilePath_inject)

lemma archive_not_plain: "archive_name p m \<noteq> getLogFilePath p n"
proof
  assume eq: "archive_name p m = getLogFilePath p n"
  have t: "CHR ''t'' \<notin> set (digits_of n)" using digits_of_digits [of "CHR ''t''" n] by (auto simp: is_digit_def)
  show False
  proof (cases "n = 0")
    case True
    with eq have "length (archive_name p m) = length p" by (simp add: getLogFilePath_def)
    then show False by (auto simp: archive_name_def getLogFilePath_def split: if_splits)
  next
    case False
    obtain r where "getLogFilePath p m = p @ r"
      by (cases "m = 0") (simp_all add: getLogFilePath_def)
    then have "archive_name p m = p @ r @ ''.tar.gz''" by (simp add: archive_name_def)
    with eq False have "r @ ''.tar.gz'' = CHR ''.'' # digits_of n" by (simp add: getLogFilePath_def)
    then have "set (r @ ''.tar.gz'') = set (CHR ''.'' # digits_of n)" by (rule arg_cong)
    then have "CHR ''t'' \<in> set (CHR ''.'' # digits_of n)" by (metis Un_iff list.set_intros set_append)
    with t show False by simp
  qed
qed

lemmas log_names = archive_inject archive_not_plain archive_not_plain [symmetric] getLogFilePath_inject

section \<open>Compression\<close>

lemma execCmd_rm: "shell_law sh \<Longrightarrow> shell_plain f \<Longrightarrow>
    om_find (execCmd sh (''rm -f '' @ f) fs) = (om_find fs)(f := None)"
  unfolding shell_law_def execCmd_def append_assoc by blast

lemma execCmd_rm2: "shell_law sh \<Longrightarrow> shell_plain f \<Longrightarrow> shell_plain g \<Longrightarrow>
    om_find (execCmd sh (''rm -f '' @ f @ '' '' @ g) fs) = (om_find fs)(f := None, g := None)"
  unfolding shell_law_def execCmd_def append_assoc by blast

lemma execCmd_tar: "shell_law sh \<Longrightarrow> shell_plain a \<Longrightarrow> shell_plain f \<Longrightarrow> om_find fs f \<noteq> None \<Longrightarrow>
    \<exists>c. om_find (execCmd sh (''tar zcvf '' @ a @ '' '' @ f) fs) = (om_find fs)(a \<mapsto> c)"
  unfolding shell_law_def execCmd_def append_assoc by blast

text \<open>The files of revision \<open>r\<close>, and removing the revisions from \<open>a\<close> to \<open>b\<close>.\<close>

definition of_revision :: "string \<Rightarrow> nat \<Rightarrow> string \<Rightarrow> bool" where
  "of_revision p r f \<longleftrightarrow> f = getLogFilePath p r \<or> f = archive_name p r"

lemma of_revision_names:
  "of_revision p r (getLogFilePath p n) \<longleftrightarrow> r = n" "of_revision p r (archive_name p n) \<longleftrightarrow> r = n"
  by (auto simp: of_revision_def log_names)

lemma remove_revision_step:
  assumes "shell_law sh" and "shell_plain (filePath lg)"
  obtains fs' where "remove_revision sh (lg, fs) b = (lg\<lparr>minRevnum := b + 1\<rparr>, fs')"
    and "om_find fs' = (\<lambda>f. if of_revision (filePath lg) b f then None else om_find fs f)"
proof -
  let ?p = "getLogFilePath (filePath lg) b" and ?a = "archive_name (filePath lg) b"
  define fs' where "fs' = execCmd sh (''rm -f '' @ ?p @ '' '' @ ?a) fs"
  have "remove_revision sh (lg, fs) b = (lg\<lparr>minRevnum := b + 1\<rparr>, fs')"
    unfolding remove_revision_def Let_def archive_name_def fs'_def by simp
  moreover have "om_find fs' = (om_find fs)(?p := None, ?a := None)"
    unfolding fs'_def using execCmd_rm2 [OF assms(1) plain_names [OF assms(2)]] .
  ultimately show thesis by (intro that) (auto simp: of_revision_def)
qed

lemma remove_revisions:
  assumes "shell_law sh" and "shell_plain (filePath lg)"
  shows "\<exists>fs'. foldl (remove_revision sh) (lg, fs) [a..<b] =
      (lg\<lparr>minRevnum := (if a < b then b else minRevnum lg)\<rparr>, fs') \<and>
    om_find fs' = (\<lambda>f. if \<exists>r. a \<le> r \<and> r < b \<and> of_revision (filePath lg) r f then None else om_find fs f)"
proof (induction b)
  case (Suc b)
  show ?case
  proof (cases "a \<le> b")
    case True
    obtain fs1 where ih: "foldl (remove_revision sh) (lg, fs) [a..<b] =
        (lg\<lparr>minRevnum := (if a < b then b else minRevnum lg)\<rparr>, fs1)"
      "om_find fs1 = (\<lambda>f. if \<exists>r. a \<le> r \<and> r < b \<and> of_revision (filePath lg) r f then None else om_find fs f)"
      using Suc.IH by blast
    let ?lg = "lg\<lparr>minRevnum := (if a < b then b else minRevnum lg)\<rparr>"
    have "shell_plain (filePath ?lg)" using assms(2) by simp
    then obtain fs2 where step: "remove_revision sh (?lg, fs1) b = (?lg\<lparr>minRevnum := b + 1\<rparr>, fs2)"
      "om_find fs2 = (\<lambda>f. if of_revision (filePath ?lg) b f then None else om_find fs1 f)"
      using remove_revision_step [OF assms(1)] by blast
    have split: "(\<exists>r. a \<le> r \<and> r < Suc b \<and> of_revision (filePath lg) r f) \<longleftrightarrow>
        of_revision (filePath lg) b f \<or> (\<exists>r. a \<le> r \<and> r < b \<and> of_revision (filePath lg) r f)" for f
      using True by (metis less_Suc_eq)
    have "om_find fs2 = (\<lambda>f. if \<exists>r. a \<le> r \<and> r < Suc b \<and> of_revision (filePath lg) r f then None else om_find fs f)"
      unfolding split step(2) ih(2) by (rule ext) auto
    moreover have "foldl (remove_revision sh) (lg, fs) [a..<Suc b] = (lg\<lparr>minRevnum := Suc b\<rparr>, fs2)"
      using True ih(1) step(1) by simp
    ultimately show ?thesis using True by (intro exI [of _ fs2]) simp
  next
    case False
    then show ?thesis by (intro exI [of _ fs]) (auto simp: fun_eq_iff)
  qed
qed simp

lemma doCompression_effect:
  assumes law: "shell_law sh" "shell_plain (filePath lg)" and there: "om_find fs (getLogFilePath (filePath lg) n) \<noteq> None"
    and "0 < maxLogFiles lg"
  obtains lg' fs' where "doCompression sh n lg fs = (lg', fs')" and "filePath lg' = filePath lg"
    and "maxLogFiles lg' = maxLogFiles lg"
    and "minRevnum lg' = (if maxLogFiles lg \<le> n then max (minRevnum lg) (Suc (n - maxLogFiles lg)) else minRevnum lg)"
    and "\<And>r. om_find fs' (archive_name (filePath lg) r) \<noteq> None \<longleftrightarrow>
      (r = n \<or> om_find fs (archive_name (filePath lg) r) \<noteq> None) \<and> \<not> (minRevnum lg \<le> r \<and> r + maxLogFiles lg \<le> n)"
    and "\<And>r. om_find fs' (getLogFilePath (filePath lg) r) =
      (if r = n \<or> (minRevnum lg \<le> r \<and> r + maxLogFiles lg \<le> n) then None
       else om_find fs (getLogFilePath (filePath lg) r))"
proof -
  let ?p = "getLogFilePath (filePath lg) n" and ?a = "archive_name (filePath lg) n" and ?k = "maxLogFiles lg"
  define fs1 where "fs1 = execCmd sh (''tar zcvf '' @ ?a @ '' '' @ ?p) fs"
  define fs2 where "fs2 = execCmd sh (''rm -f '' @ ?p) fs1"
  obtain c where "om_find fs1 = (om_find fs)(?a \<mapsto> c)"
    using execCmd_tar [OF law(1) plain_names(2) [OF law(2)] plain_names(1) [OF law(2)] there] fs1_def by metis
  moreover have "om_find fs2 = (om_find fs1)(?p := None)"
    unfolding fs2_def by (rule execCmd_rm [OF law(1) plain_names(1) [OF law(2)]])
  ultimately have fs2: "om_find fs2 = (om_find fs)(?a \<mapsto> c, ?p := None)" by simp
  have blank: "''.tar.gz '' @ s = ''.tar.gz'' @ '' '' @ s" for s by simp
  have dc: "doCompression sh n lg fs =
      (case (if ?k \<noteq> 0 \<and> n \<ge> ?k then foldl (remove_revision sh) (lg, fs2) [minRevnum lg..<Suc (n - ?k)] else (lg, fs2)) of
         (lg3, fs3) \<Rightarrow> (lg3\<lparr>numCompJobs := numCompJobs lg3 - 1\<rparr>, fs3))"
    unfolding doCompression_def Let_def fs1_def fs2_def archive_name_def append_assoc blank by (rule refl)
  show thesis
  proof (cases "?k \<le> n")
    case True
    obtain fs3 where r: "foldl (remove_revision sh) (lg, fs2) [minRevnum lg..<Suc (n - ?k)] =
        (lg\<lparr>minRevnum := (if minRevnum lg < Suc (n - ?k) then Suc (n - ?k) else minRevnum lg)\<rparr>, fs3)"
      "om_find fs3 = (\<lambda>f. if \<exists>r. minRevnum lg \<le> r \<and> r < Suc (n - ?k) \<and> of_revision (filePath lg) r f
        then None else om_find fs2 f)"
      using remove_revisions [OF law] by blast
    have le: "r < Suc (n - ?k) \<longleftrightarrow> r + ?k \<le> n" for r using True by auto
    have "doCompression sh n lg fs = (lg\<lparr>minRevnum := max (minRevnum lg) (Suc (n - ?k)), numCompJobs := numCompJobs lg - 1\<rparr>, fs3)"
      using True r(1) assms(4) by (auto simp: dc simp del: upt_Suc)
    then show thesis
      by (rule that) (use True assms(4) in \<open>auto simp: r(2) le fs2 of_revision_names log_names\<close>)
  next
    case False
    then have "doCompression sh n lg fs = (lg\<lparr>numCompJobs := numCompJobs lg - 1\<rparr>, fs2)"
      by (simp add: dc)
    then show thesis by (rule that) (use False in \<open>auto simp: fs2 log_names\<close>)
  qed
qed

section \<open>Retention\<close>

text \<open>The compressor takes the rotated files one after the other.\<close>

definition compress_all :: "shell \<Rightarrow> nat list \<Rightarrow> simple_logger \<times> files \<Rightarrow> simple_logger \<times> files" where
  "compress_all sh ns st = foldl (\<lambda>(lg, fs) n. doCompression sh n lg fs) st ns"

lemma compress_all_retains:
  assumes law: "shell_law sh" "shell_plain (filePath lg)" and k: "0 < maxLogFiles lg"
    and none: "\<And>r. om_find fs (archive_name (filePath lg) r) = None"
  shows "minRevnum lg \<le> b \<Longrightarrow>
    \<forall>r. minRevnum lg \<le> r \<and> r < b \<longrightarrow> om_find fs (getLogFilePath (filePath lg) r) \<noteq> None \<Longrightarrow>
    \<exists>lg' fs'. compress_all sh [minRevnum lg..<b] (lg, fs) = (lg', fs') \<and> filePath lg' = filePath lg \<and>
      maxLogFiles lg' = maxLogFiles lg \<and> minRevnum lg' = max (minRevnum lg) (b - maxLogFiles lg) \<and>
      (\<forall>r. om_find fs' (archive_name (filePath lg) r) \<noteq> None \<longleftrightarrow> minRevnum lg \<le> r \<and> r < b \<and> b \<le> r + maxLogFiles lg) \<and>
      (\<forall>r. b \<le> r \<longrightarrow> om_find fs' (getLogFilePath (filePath lg) r) = om_find fs (getLogFilePath (filePath lg) r))"
proof (induction b rule: dec_induct)
  case base
  then show ?case using none by (auto simp: compress_all_def)
next
  case (step b)
  have before: "\<forall>r. minRevnum lg \<le> r \<and> r < b \<longrightarrow> om_find fs (getLogFilePath (filePath lg) r) \<noteq> None"
    using step.prems by simp
  obtain lg1 fs1 where ih: "compress_all sh [minRevnum lg..<b] (lg, fs) = (lg1, fs1)" "filePath lg1 = filePath lg"
    "maxLogFiles lg1 = maxLogFiles lg" "minRevnum lg1 = max (minRevnum lg) (b - maxLogFiles lg)"
    "\<forall>r. om_find fs1 (archive_name (filePath lg) r) \<noteq> None \<longleftrightarrow> minRevnum lg \<le> r \<and> r < b \<and> b \<le> r + maxLogFiles lg"
    "\<forall>r. b \<le> r \<longrightarrow> om_find fs1 (getLogFilePath (filePath lg) r) = om_find fs (getLogFilePath (filePath lg) r)"
    using step.IH [OF before] by (elim exE conjE)
  have "om_find fs1 (getLogFilePath (filePath lg1) b) \<noteq> None"
    using ih(2,6) step.hyps step.prems by simp
  moreover have "shell_plain (filePath lg1)" "0 < maxLogFiles lg1" using law(2) k ih(2,3) by simp_all
  ultimately obtain lg2 fs2 where c: "doCompression sh b lg1 fs1 = (lg2, fs2)" "filePath lg2 = filePath lg"
    "maxLogFiles lg2 = maxLogFiles lg"
    "minRevnum lg2 = (if maxLogFiles lg \<le> b then max (minRevnum lg1) (Suc (b - maxLogFiles lg)) else minRevnum lg1)"
    "\<And>r. om_find fs2 (archive_name (filePath lg) r) \<noteq> None \<longleftrightarrow>
      (r = b \<or> om_find fs1 (archive_name (filePath lg) r) \<noteq> None) \<and> \<not> (minRevnum lg1 \<le> r \<and> r + maxLogFiles lg \<le> b)"
    "\<And>r. om_find fs2 (getLogFilePath (filePath lg) r) =
      (if r = b \<or> (minRevnum lg1 \<le> r \<and> r + maxLogFiles lg \<le> b) then None
       else om_find fs1 (getLogFilePath (filePath lg) r))"
    using doCompression_effect [OF law(1), of lg1 fs1 b, unfolded ih(2,3)] unfolding ih(2,3) by blast
  have "compress_all sh [minRevnum lg..<Suc b] (lg, fs) = (lg2, fs2)"
    using step.hyps ih(1) c(1) by (simp add: compress_all_def)
  moreover have "minRevnum lg2 = max (minRevnum lg) (Suc b - maxLogFiles lg)"
    using c(4) ih(4) k by (auto simp: max_def)
  moreover have "om_find fs2 (archive_name (filePath lg) r) \<noteq> None \<longleftrightarrow>
      minRevnum lg \<le> r \<and> r < Suc b \<and> Suc b \<le> r + maxLogFiles lg" for r
    unfolding c(5) ih(5) [rule_format] ih(4) using step.hyps k by auto
  moreover have "om_find fs2 (getLogFilePath (filePath lg) r) = om_find fs (getLogFilePath (filePath lg) r)"
    if "Suc b \<le> r" for r
    using that c(6) ih(6) k by simp
  ultimately show ?case using c(2,3) by blast
qed

section \<open>Finding the revisions again\<close>

text \<open>Over names that all have a revision, the scan finds the least and the greatest.\<close>

definition next_revision :: "nat \<times> bool \<Rightarrow> nat" where
  "next_revision rc = (if snd rc then fst rc + 1 else fst rc)"

lemma scan_revisions:
  assumes "\<forall>f \<in> set names. revision_of f = Some (rv f)"
  shows "foldl findMinMaxRevNumInternal (True, lo, hi) names =
    (True, fold min (map (fst \<circ> rv) names) lo, fold max (map (next_revision \<circ> rv) names) hi)"
  using assms
proof (induction names arbitrary: lo hi)
  case (Cons f names)
  then show ?case
    by (cases "rv f") (simp add: next_revision_def min.commute max.commute)
qed simp

lemma scan_revisions_start:
  assumes "\<forall>f \<in> set names. revision_of f = Some (rv f)" and "names \<noteq> []"
  shows "foldl findMinMaxRevNumInternal (False, 0, 0) names =
    (True, Min (fst ` rv ` set names), Max (next_revision ` rv ` set names))"
proof -
  obtain f fs where names: "names = f # fs" using assms(2) by (cases names) auto
  have "findMinMaxRevNumInternal (False, 0, 0) f = (True, fst (rv f), next_revision (rv f))"
    using assms(1) names by (cases "rv f") (simp add: next_revision_def)
  then have "foldl findMinMaxRevNumInternal (False, 0, 0) names =
      (True, fold min (map (fst \<circ> rv) fs) (fst (rv f)), fold max (map (next_revision \<circ> rv) fs) (next_revision (rv f)))"
    using scan_revisions assms(1) names by simp
  moreover have "Min (set (x # xs)) = fold min xs x" "Max (set (x # xs)) = fold max xs x" for x :: nat and xs
    by (simp_all only: Min.set_eq_fold Max.set_eq_fold)
  ultimately show ?thesis
    using names by (simp flip: set_map add: image_comp)
qed

lemma find_from_prefix: "find_from (p @ s) p 0 \<noteq> None"
  by (auto simp: find_from_def find_None_iff intro: exI [of _ 0])

lemma restart_scan:
  assumes base: "log_base base" and lo: "lo \<le> cur" and cur: "cur < 2 ^ 64"
    and names: "set names = archive_name base ` {lo..<cur} \<union> {getLogFilePath base cur}"
  shows "snd (foldl findMinMaxRevNumInternal (False, 0, 0) (filter (\<lambda>f. find_from f base 0 \<noteq> None) names)) = (lo, cur)"
proof -
  have plain: "find_from (getLogFilePath base n @ s) base 0 \<noteq> None" for n s
    using find_from_prefix [of base s] find_from_prefix [of base "''.'' @ digits_of n @ s"]
    unfolding getLogFilePath_def append_assoc by (cases "n = 0") (simp_all only: if_True if_False append_assoc simp_thms not_False_eq_True)
  from this [of _ "[]"] this [of _ "''.tar.gz''"]
  have "find_from f base 0 \<noteq> None" if "f \<in> set names" for f
    using that unfolding names archive_name_def append_Nil2 by blast
  then have all: "filter (\<lambda>f. find_from f base 0 \<noteq> None) names = names" by (simp add: filter_id_conv)
  define rv where "rv = (\<lambda>f. the (revision_of f))"
  have arch: "revision_of (archive_name base r) = Some (r, True)" if "r < cur" for r
    using that cur revision_of_archive [OF base, of r] by simp
  have plain: "revision_of (getLogFilePath base cur) = Some (cur, False)"
    using cur revision_of_plain [OF base] by simp
  have rv: "\<forall>f \<in> set names. revision_of f = Some (rv f)"
    unfolding rv_def names using arch plain by auto
  have img: "rv ` set names = (\<lambda>r. (r, True)) ` {lo..<cur} \<union> {(cur, False)}"
    unfolding names rv_def using arch plain by (force simp: image_Un image_image)
  have ne: "names \<noteq> []" using names by auto
  have "Min (fst ` rv ` set names) = lo"
    unfolding img using lo by (intro Min_eqI) (auto simp: image_Un image_image)
  moreover have "Max (next_revision ` rv ` set names) = cur"
    unfolding img by (intro Max_eqI) (auto simp: image_Un image_image next_revision_def)
  ultimately show ?thesis using scan_revisions_start [OF rv ne] all by simp
qed

end
