(* ===== verification/LoggerRace.thy ===== *)
theory LoggerRace
  imports LoggerCore "HOL-Library.Multiset"
begin

text \<open>
  Several threads in \<^verbatim>\<open>SimpleLogger::put\<close> and \<^verbatim>\<open>flush\<close> at once. Every atomic access of the
  code is a step: the exchange that takes a slot, each load and compare-and-swap of a slot's
  status, the copy, the write to the file, the try-lock. A thread that spins has no step. The
  rotation of files is left out: it happens under the lock of \<^verbatim>\<open>flush\<close>.
\<close>

section \<open>Threads\<close>

text \<open>
  Where a thread is. \<open>Scan\<close>, \<open>FlushCopy\<close> and \<open>FlushDone\<close> hold the lock, with the slots still to
  visit and the record to write afterwards, if the flush is part of a put.
\<close>

datatype pc =
    Idle
  | Start string
  | Await nat string
  | Check nat string
  | Try nat string
  | TryAll nat
  | Scan "nat list" "(nat \<times> string) option"
  | FlushCopy nat "nat list" "(nat \<times> string) option"
  | FlushDone nat "nat list" "(nat \<times> string) option"
  | WaitClean nat string
  | Write nat string
  | Copy nat string
  | Publish nat

text \<open>\<open>rdropped\<close> records the messages whose \<^verbatim>\<open>write\<close> found the slot taken and returned -1.\<close>

record race =
  relems :: "log_elem list"
  rcursor :: nat
  rout :: "string list"
  rlock :: "nat option"
  rpcs :: "pc list"
  rdropped :: "string list"

definition race_init :: "nat \<Rightarrow> nat \<Rightarrow> race" where
  "race_init n k =
     \<lparr>relems = replicate n new_elem, rcursor = 0, rout = [], rlock = None, rpcs = replicate k Idle, rdropped = []\<rparr>"

definition goto :: "nat \<Rightarrow> pc \<Rightarrow> race \<Rightarrow> race" where
  "goto t p s = s\<lparr>rpcs := (rpcs s)[t := p]\<rparr>"

definition set_status :: "nat \<Rightarrow> elem_status \<Rightarrow> race \<Rightarrow> race" where
  "set_status i st s = s\<lparr>relems := (relems s)[i := (relems s ! i)\<lparr>status := st\<rparr>]\<rparr>"

definition scan_order :: "nat \<Rightarrow> race \<Rightarrow> nat list" where
  "scan_order start s = [start..<length (relems s)] @ [0..<start]"

definition thread_step :: "nat \<Rightarrow> race \<Rightarrow> race option" where
  "thread_step t s =
     (case rpcs s ! t of
        Idle \<Rightarrow> None
      | Start m \<Rightarrow>
          Some (goto t (Await (rcursor s) m) (s\<lparr>rcursor := (rcursor s + 1) mod length (relems s)\<rparr>))
      | Await i m \<Rightarrow> if available (relems s ! i) then Some (goto t (Check i m) s) else None
      | Check i m \<Rightarrow> Some (goto t (if needToFlush (relems s ! i) then Try i m else Write i m) s)
      | Try i m \<Rightarrow>
          if rlock s = None then Some (goto t (Scan (scan_order i s) (Some (i, m))) (s\<lparr>rlock := Some t\<rparr>))
          else Some (goto t (WaitClean i m) s)
      | TryAll start \<Rightarrow>
          if rlock s = None then Some (goto t (Scan (scan_order start s) None) (s\<lparr>rlock := Some t\<rparr>))
          else Some (goto t Idle s)
      | Scan [] cont \<Rightarrow>
          Some (goto t (case cont of None \<Rightarrow> Idle | Some (i, m) \<Rightarrow> Write i m) (s\<lparr>rlock := None\<rparr>))
      | Scan (j # js) cont \<Rightarrow>
          if needToFlush (relems s ! j) then Some (goto t (FlushCopy j js cont) (set_status j FLUSHING s))
          else Some (goto t (Scan js cont) s)
      | FlushCopy j js cont \<Rightarrow> Some (goto t (FlushDone j js cont) (s\<lparr>rout := rout s @ [ctx (relems s ! j)]\<rparr>))
      | FlushDone j js cont \<Rightarrow> Some (goto t (Scan js cont) (set_status j CLEAN s))
      | WaitClean i m \<Rightarrow> if needToFlush (relems s ! i) then None else Some (goto t (Write i m) s)
      | Write i m \<Rightarrow>
          if status (relems s ! i) = CLEAN then Some (goto t (Copy i m) (set_status i WRITING s))
          else Some (goto t Idle (s\<lparr>rdropped := m # rdropped s\<rparr>))
      | Copy i m \<Rightarrow>
          Some (goto t (Publish i) (s\<lparr>relems := (relems s)[i := (relems s ! i)\<lparr>ctx := take MSG_SIZE m\<rparr>]\<rparr>))
      | Publish i \<Rightarrow> Some (goto t Idle (set_status i DIRTY s)))"

text \<open>The states of \<open>k\<close> threads on \<open>n\<close> slots, with the messages put so far.\<close>

inductive race_reachable :: "nat \<Rightarrow> nat \<Rightarrow> race \<Rightarrow> string list \<Rightarrow> bool" for n k where
  init: "race_reachable n k (race_init n k) []"
| call_put: "race_reachable n k s ms \<Longrightarrow> t < k \<Longrightarrow> rpcs s ! t = Idle \<Longrightarrow> length m \<le> MSG_SIZE \<Longrightarrow>
    race_reachable n k (goto t (Start m) s) (m # ms)"
| call_flush: "race_reachable n k s ms \<Longrightarrow> t < k \<Longrightarrow> rpcs s ! t = Idle \<Longrightarrow>
    race_reachable n k (goto t (TryAll (rcursor s)) s) ms"
| step: "race_reachable n k s ms \<Longrightarrow> t < k \<Longrightarrow> thread_step t s = Some s' \<Longrightarrow> race_reachable n k s' ms"

section \<open>The invariant\<close>

fun works_on :: "pc \<Rightarrow> nat option" where
  "works_on (Copy i m) = Some i"
| "works_on (Publish i) = Some i"
| "works_on (FlushCopy j js c) = Some j"
| "works_on (FlushDone j js c) = Some j"
| "works_on _ = None"

fun work_status :: "pc \<Rightarrow> elem_status" where
  "work_status (FlushCopy j js c) = FLUSHING"
| "work_status (FlushDone j js c) = FLUSHING"
| "work_status _ = WRITING"

fun holds_lock :: "pc \<Rightarrow> bool" where
  "holds_lock (Scan js c) = True"
| "holds_lock (FlushCopy j js c) = True"
| "holds_lock (FlushDone j js c) = True"
| "holds_lock _ = False"

fun pc_ok :: "nat \<Rightarrow> pc \<Rightarrow> bool" where
  "pc_ok n Idle = True"
| "pc_ok n (Start m) = (length m \<le> MSG_SIZE)"
| "pc_ok n (Await i m) = (i < n \<and> length m \<le> MSG_SIZE)"
| "pc_ok n (Check i m) = (i < n \<and> length m \<le> MSG_SIZE)"
| "pc_ok n (Try i m) = (i < n \<and> length m \<le> MSG_SIZE)"
| "pc_ok n (TryAll i) = (i < n)"
| "pc_ok n (Scan js c) = (set js \<subseteq> {..<n} \<and> (\<forall>i m. c = Some (i, m) \<longrightarrow> i < n \<and> length m \<le> MSG_SIZE))"
| "pc_ok n (FlushCopy j js c) = (j < n \<and> set js \<subseteq> {..<n} \<and> (\<forall>i m. c = Some (i, m) \<longrightarrow> i < n \<and> length m \<le> MSG_SIZE))"
| "pc_ok n (FlushDone j js c) = (j < n \<and> set js \<subseteq> {..<n} \<and> (\<forall>i m. c = Some (i, m) \<longrightarrow> i < n \<and> length m \<le> MSG_SIZE))"
| "pc_ok n (WaitClean i m) = (i < n \<and> length m \<le> MSG_SIZE)"
| "pc_ok n (Write i m) = (i < n \<and> length m \<le> MSG_SIZE)"
| "pc_ok n (Copy i m) = (i < n \<and> length m \<le> MSG_SIZE)"
| "pc_ok n (Publish i) = (i < n)"

definition race_shape :: "nat \<Rightarrow> nat \<Rightarrow> race \<Rightarrow> bool" where
  "race_shape n k s \<longleftrightarrow>
     length (relems s) = n \<and> length (rpcs s) = k \<and> rcursor s < n \<and> (\<forall>t < k. pc_ok n (rpcs s ! t))"

definition race_inv :: "nat \<Rightarrow> nat \<Rightarrow> race \<Rightarrow> bool" where
  "race_inv n k s \<longleftrightarrow> race_shape n k s \<and>
     (\<forall>t < k. \<forall>i. works_on (rpcs s ! t) = Some i \<longrightarrow> status (relems s ! i) = work_status (rpcs s ! t)) \<and>
     (\<forall>t < k. \<forall>u < k. \<forall>i. works_on (rpcs s ! t) = Some i \<and> works_on (rpcs s ! u) = Some i \<longrightarrow> t = u) \<and>
     (\<forall>t < k. holds_lock (rpcs s ! t) \<longleftrightarrow> rlock s = Some t)"

lemmas race_defs = goto_def set_status_def scan_order_def available_def needToFlush_def

lemma shape_goto:
  "race_shape n k s \<Longrightarrow> t < k \<Longrightarrow> pc_ok n p \<Longrightarrow> race_shape n k (goto t p s)"
  by (auto simp: race_shape_def goto_def nth_list_update)

lemma shape_set_status: "race_shape n k s \<Longrightarrow> race_shape n k (set_status i st s)"
  by (simp add: race_shape_def set_status_def)

lemma race_invI:
  assumes "race_shape n k s"
    and "\<And>t i. t < k \<Longrightarrow> works_on (rpcs s ! t) = Some i \<Longrightarrow> status (relems s ! i) = work_status (rpcs s ! t)"
    and "\<And>t u i. t < k \<Longrightarrow> u < k \<Longrightarrow> works_on (rpcs s ! t) = Some i \<Longrightarrow> works_on (rpcs s ! u) = Some i \<Longrightarrow> t = u"
    and "\<And>t. t < k \<Longrightarrow> holds_lock (rpcs s ! t) \<longleftrightarrow> rlock s = Some t"
  shows "race_inv n k s"
  using assms unfolding race_inv_def by blast

lemma race_invD:
  assumes "race_inv n k s"
  shows "race_shape n k s"
    and "\<And>t i. t < k \<Longrightarrow> works_on (rpcs s ! t) = Some i \<Longrightarrow> status (relems s ! i) = work_status (rpcs s ! t)"
    and "\<And>t u i. t < k \<Longrightarrow> u < k \<Longrightarrow> works_on (rpcs s ! t) = Some i \<Longrightarrow> works_on (rpcs s ! u) = Some i \<Longrightarrow> t = u"
    and "\<And>t. t < k \<Longrightarrow> holds_lock (rpcs s ! t) \<longleftrightarrow> rlock s = Some t"
  using assms unfolding race_inv_def by blast+

lemma goto_pcs: "race_shape n k s \<Longrightarrow> t < k \<Longrightarrow> rpcs (goto t p s) ! u = (if u = t then p else rpcs s ! u)"
  by (simp add: goto_def race_shape_def)

lemma goto_rest [simp]:
  "relems (goto t p s) = relems s" "rlock (goto t p s) = rlock s" "rout (goto t p s) = rout s"
  "rdropped (goto t p s) = rdropped s" "rcursor (goto t p s) = rcursor s"
  by (simp_all add: goto_def)

lemma set_status_rest [simp]:
  "rpcs (set_status i st s) = rpcs s" "rlock (set_status i st s) = rlock s" "rout (set_status i st s) = rout s"
  "rdropped (set_status i st s) = rdropped s" "rcursor (set_status i st s) = rcursor s"
  "length (relems (set_status i st s)) = length (relems s)"
  by (simp_all add: set_status_def)

lemma set_status_nth:
  "i < length (relems s) \<Longrightarrow> relems (set_status i st s) ! j = (if j = i then (relems s ! i)\<lparr>status := st\<rparr> else relems s ! j)"
  by (simp add: set_status_def)

lemma work_status_busy: "\<not> available e \<longleftrightarrow> status e = WRITING \<or> status e = FLUSHING"
  by (cases "status e") (auto simp: available_def)

lemma work_status_cases: "work_status p = WRITING \<or> work_status p = FLUSHING"
  by (cases p) auto

lemma works_on_bound: "pc_ok n p \<Longrightarrow> works_on p = Some i \<Longrightarrow> i < n"
  by (cases p) auto

text \<open>A thread that takes no slot and touches no status.\<close>

lemma inv_goto:
  assumes inv: "race_inv n k s" and t: "t < k" and "pc_ok n p"
    and w: "works_on p = None \<or> works_on p = works_on (rpcs s ! t) \<and> work_status p = work_status (rpcs s ! t)"
    and h: "holds_lock p = holds_lock (rpcs s ! t)"
  shows "race_inv n k (goto t p s)"
proof (rule race_invI)
  note sh = race_invD(1) [OF inv]
  show "race_shape n k (goto t p s)" using shape_goto [OF sh] t assms(3) .
  fix u
  assume u: "u < k"
  show "holds_lock (rpcs (goto t p s) ! u) \<longleftrightarrow> rlock (goto t p s) = Some u"
    using race_invD(4) [OF inv] u t h by (simp add: goto_pcs [OF sh])
  fix i
  assume i: "works_on (rpcs (goto t p s) ! u) = Some i"
  then have i': "works_on (rpcs s ! u) = Some i"
    using w by (auto simp: goto_pcs [OF sh t] split: if_splits)
  show "status (relems (goto t p s) ! i) = work_status (rpcs (goto t p s) ! u)"
    using race_invD(2) [OF inv u i'] i w by (auto simp: goto_pcs [OF sh t] split: if_splits)
  fix v
  assume v: "v < k" "works_on (rpcs (goto t p s) ! v) = Some i"
  then have "works_on (rpcs s ! v) = Some i"
    using w by (auto simp: goto_pcs [OF sh t] split: if_splits)
  then show "u = v" using race_invD(3) [OF inv u v(1) i'] by simp
qed

text \<open>A thread that takes a free slot, or frees its own.\<close>

lemma inv_take:
  assumes inv: "race_inv n k s" and t: "t < k" and "pc_ok n p"
    and none: "works_on (rpcs s ! t) = None" and p: "works_on p = Some i" and av: "available (relems s ! i)"
    and h: "holds_lock p = holds_lock (rpcs s ! t)"
  shows "race_inv n k (goto t p (set_status i (work_status p) s))"
proof (rule race_invI)
  let ?s = "set_status i (work_status p) s"
  note sh = race_invD(1) [OF inv]
  have shs: "race_shape n k ?s" using sh by (rule shape_set_status)
  have i: "i < length (relems s)" using sh works_on_bound [OF assms(3) p] by (simp add: race_shape_def)
  have free: "works_on (rpcs s ! u) \<noteq> Some i" if "u < k" for u
  proof
    assume "works_on (rpcs s ! u) = Some i"
    with race_invD(2) [OF inv that] work_status_cases [of "rpcs s ! u"] av
    show False by (metis work_status_busy)
  qed
  show "race_shape n k (goto t p ?s)" using shape_goto [OF shs] t assms(3) .
  fix u
  assume u: "u < k"
  show "holds_lock (rpcs (goto t p ?s) ! u) \<longleftrightarrow> rlock (goto t p ?s) = Some u"
    using race_invD(4) [OF inv] u t h by (simp add: goto_pcs [OF shs])
  fix j
  assume j: "works_on (rpcs (goto t p ?s) ! u) = Some j"
  show "status (relems (goto t p ?s) ! j) = work_status (rpcs (goto t p ?s) ! u)"
    using race_invD(2) [OF inv u] j p free [OF u]
    by (auto simp: goto_pcs [OF shs t] set_status_nth [OF i] split: if_splits)
  fix v
  assume v: "v < k" "works_on (rpcs (goto t p ?s) ! v) = Some j"
  show "u = v"
    using race_invD(3) [OF inv u v(1)] j v p free [OF u] free [OF v(1)]
    by (auto simp: goto_pcs [OF shs t] split: if_splits)
qed

lemma inv_release:
  assumes inv: "race_inv n k s" and t: "t < k" and "pc_ok n p"
    and own: "works_on (rpcs s ! t) = Some i" and none: "works_on p = None"
    and h: "holds_lock p = holds_lock (rpcs s ! t)"
  shows "race_inv n k (goto t p (set_status i st s))"
proof (rule race_invI)
  let ?s = "set_status i st s"
  note sh = race_invD(1) [OF inv]
  have shs: "race_shape n k ?s" using sh by (rule shape_set_status)
  have "pc_ok n (rpcs s ! t)" using sh t by (simp add: race_shape_def)
  then have i: "i < length (relems s)" using sh works_on_bound own by (simp add: race_shape_def)
  show "race_shape n k (goto t p ?s)" using shape_goto [OF shs] t assms(3) .
  fix u
  assume u: "u < k"
  show "holds_lock (rpcs (goto t p ?s) ! u) \<longleftrightarrow> rlock (goto t p ?s) = Some u"
    using race_invD(4) [OF inv] u t h by (simp add: goto_pcs [OF shs])
  fix j
  assume j: "works_on (rpcs (goto t p ?s) ! u) = Some j"
  then have u': "u \<noteq> t" "works_on (rpcs s ! u) = Some j" using none by (auto simp: goto_pcs [OF shs t] split: if_splits)
  then have "j \<noteq> i" using race_invD(3) [OF inv u t] own by blast
  then show "status (relems (goto t p ?s) ! j) = work_status (rpcs (goto t p ?s) ! u)"
    using race_invD(2) [OF inv u] u' by (simp add: goto_pcs [OF shs t] set_status_nth [OF i])
  fix v
  assume v: "v < k" "works_on (rpcs (goto t p ?s) ! v) = Some j"
  then have "works_on (rpcs s ! v) = Some j" using none by (auto simp: goto_pcs [OF shs t] split: if_splits)
  then show "u = v" using race_invD(3) [OF inv u v(1)] u' by simp
qed

text \<open>Taking and giving back the lock.\<close>

lemma inv_relock:
  assumes inv: "race_inv n k s" and t: "t < k" and "pc_ok n p" and none: "works_on p = None"
    and l: "\<And>u. u < k \<Longrightarrow> holds_lock (if u = t then p else rpcs s ! u) \<longleftrightarrow> l = Some u"
  shows "race_inv n k (goto t p (s\<lparr>rlock := l\<rparr>))"
proof (rule race_invI)
  let ?s = "s\<lparr>rlock := l\<rparr>"
  note sh = race_invD(1) [OF inv]
  have shs: "race_shape n k ?s" using sh by (simp add: race_shape_def)
  show "race_shape n k (goto t p ?s)" using shape_goto [OF shs] t assms(3) .
  fix u
  assume u: "u < k"
  show "holds_lock (rpcs (goto t p ?s) ! u) \<longleftrightarrow> rlock (goto t p ?s) = Some u"
    using l [OF u] by (auto simp: goto_pcs [OF shs t] split: if_splits)
  fix j
  assume "works_on (rpcs (goto t p ?s) ! u) = Some j"
  then have u': "u \<noteq> t" "works_on (rpcs s ! u) = Some j" using none by (auto simp: goto_pcs [OF shs t] split: if_splits)
  then show "status (relems (goto t p ?s) ! j) = work_status (rpcs (goto t p ?s) ! u)"
    using race_invD(2) [OF inv u] by (simp add: goto_pcs [OF shs t])
  fix v
  assume v: "v < k" "works_on (rpcs (goto t p ?s) ! v) = Some j"
  then have "works_on (rpcs s ! v) = Some j" using none by (auto simp: goto_pcs [OF shs t] split: if_splits)
  then show "u = v" using race_invD(3) [OF inv u v(1)] u' by simp
qed

lemma inv_lock:
  assumes "race_inv n k s" and "t < k" and "pc_ok n p" and "rlock s = None"
    and "works_on p = None" and "holds_lock p"
  shows "race_inv n k (goto t p (s\<lparr>rlock := Some t\<rparr>))"
  using assms race_invD(4) [OF assms(1)] by (intro inv_relock) auto

lemma inv_unlock:
  assumes "race_inv n k s" and "t < k" and "pc_ok n p"
    and "works_on p = None" and "holds_lock (rpcs s ! t)" and "\<not> holds_lock p"
  shows "race_inv n k (goto t p (s\<lparr>rlock := None\<rparr>))"
  using assms race_invD(4) [OF assms(1)] by (intro inv_relock) auto

text \<open>Changes that the invariant does not see.\<close>

lemma inv_fields:
  "race_inv n k (s\<lparr>rout := x\<rparr>) \<longleftrightarrow> race_inv n k s" "race_inv n k (s\<lparr>rdropped := y\<rparr>) \<longleftrightarrow> race_inv n k s"
  "c < n \<Longrightarrow> race_inv n k s \<Longrightarrow> race_inv n k (s\<lparr>rcursor := c\<rparr>)"
  by (simp_all add: race_inv_def race_shape_def)

lemma inv_ctx:
  assumes "race_inv n k s"
  shows "race_inv n k (s\<lparr>relems := (relems s)[i := (relems s ! i)\<lparr>ctx := m\<rparr>]\<rparr>)"
proof -
  have "status ((relems s)[i := (relems s ! i)\<lparr>ctx := m\<rparr>] ! j) = status (relems s ! j)" for j
    by (cases "i < length (relems s)") (auto simp: nth_list_update list_update_beyond)
  with assms show ?thesis by (simp add: race_inv_def race_shape_def)
qed

lemma thread_step_inv:
  assumes inv: "race_inv n k s" and t: "t < k" and step: "thread_step t s = Some s'"
  shows "race_inv n k s'"
proof -
  have sh: "length (relems s) = n" "rcursor s < n" and ok: "pc_ok n (rpcs s ! t)"
    using race_invD(1) [OF inv] t by (auto simp: race_shape_def)
  have order: "set (scan_order i s) \<subseteq> {..<n}" if "i < n" for i
    using that sh(1) by (auto simp: scan_order_def)
  have next_slot: "(rcursor s + 1) mod length (relems s) < n" using sh by (intro mod_less_divisor [THEN order_less_le_trans]) simp_all
  show ?thesis
  proof (cases "rpcs s ! t")
    case (Start m)
    have inv': "race_inv n k (s\<lparr>rcursor := (rcursor s + 1) mod length (relems s)\<rparr>)"
      using inv_fields(3) [OF next_slot inv] .
    show ?thesis using step Start ok sh inv_goto [OF inv' t, of "Await (rcursor s) m"]
      by (simp add: thread_step_def)
  next
    case (Await i m)
    then show ?thesis using step ok by (auto simp: thread_step_def split: if_splits intro!: inv_goto [OF inv t])
  next
    case (Check i m)
    then show ?thesis using step ok
      by (cases "needToFlush (relems s ! i)") (auto simp: thread_step_def intro!: inv_goto [OF inv t])
  next
    case (Try i m)
    then show ?thesis using step ok order
      by (auto simp: thread_step_def split: if_splits intro!: inv_goto [OF inv t] inv_lock [OF inv t])
  next
    case (TryAll i)
    then show ?thesis using step ok order
      by (auto simp: thread_step_def split: if_splits intro!: inv_goto [OF inv t] inv_lock [OF inv t])
  next
    case (Scan js c)
    show ?thesis
    proof (cases js)
      case Nil
      have p: "pc_ok n (case c of None \<Rightarrow> Idle | Some (i, m) \<Rightarrow> Write i m)"
        "works_on (case c of None \<Rightarrow> Idle | Some (i, m) \<Rightarrow> Write i m) = None"
        "\<not> holds_lock (case c of None \<Rightarrow> Idle | Some (i, m) \<Rightarrow> Write i m)"
        using ok Scan by (auto split: option.splits)
      have "s' = goto t (case c of None \<Rightarrow> Idle | Some (i, m) \<Rightarrow> Write i m) (s\<lparr>rlock := None\<rparr>)"
        using step Scan Nil by (simp add: thread_step_def)
      then show ?thesis using inv_unlock [OF inv t p(1,2)] p(3) Scan by simp
    next
      case (Cons j js')
      show ?thesis
      proof (cases "needToFlush (relems s ! j)")
        case True
        then have "s' = goto t (FlushCopy j js' c) (set_status j FLUSHING s)" "available (relems s ! j)"
          using step Scan Cons by (simp_all add: thread_step_def available_def needToFlush_def)
        then show ?thesis using inv_take [OF inv t, of "FlushCopy j js' c" j] ok Scan Cons by simp
      next
        case False
        then show ?thesis using step ok Scan Cons
          by (auto simp: thread_step_def intro!: inv_goto [OF inv t])
      qed
    qed
  next
    case (FlushCopy j js c)
    have "race_inv n k (goto t (FlushDone j js c) s)"
      using ok FlushCopy by (auto intro!: inv_goto [OF inv t])
    then have "race_inv n k ((goto t (FlushDone j js c) s)\<lparr>rout := rout s @ [ctx (relems s ! j)]\<rparr>)"
      by (simp add: inv_fields)
    moreover have "s' = (goto t (FlushDone j js c) s)\<lparr>rout := rout s @ [ctx (relems s ! j)]\<rparr>"
      using step FlushCopy by (cases s) (auto simp: thread_step_def goto_def)
    ultimately show ?thesis by simp
  next
    case (FlushDone j js c)
    then show ?thesis using step ok by (auto simp: thread_step_def intro!: inv_release [OF inv t])
  next
    case (WaitClean i m)
    then show ?thesis using step ok by (auto simp: thread_step_def split: if_splits intro!: inv_goto [OF inv t])
  next
    case (Write i m)
    show ?thesis
    proof (cases "status (relems s ! i) = CLEAN")
      case True
      then have "s' = goto t (Copy i m) (set_status i WRITING s)" "available (relems s ! i)"
        using step Write by (simp_all add: thread_step_def available_def)
      then show ?thesis using inv_take [OF inv t, of "Copy i m" i] ok Write by simp
    next
      case False
      have "race_inv n k (goto t Idle s)" using Write by (auto intro!: inv_goto [OF inv t])
      moreover have "s' = (goto t Idle s)\<lparr>rdropped := m # rdropped s\<rparr>"
        using step Write False by (cases s) (auto simp: thread_step_def goto_def)
      ultimately show ?thesis by (simp add: inv_fields)
    qed
  next
    case (Copy i m)
    have inv': "race_inv n k (goto t (Publish i) s)" using ok Copy by (auto intro!: inv_goto [OF inv t])
    have "s' = (goto t (Publish i) s)\<lparr>relems := (relems (goto t (Publish i) s))[i := (relems (goto t (Publish i) s) ! i)\<lparr>ctx := take MSG_SIZE m\<rparr>]\<rparr>"
      using step Copy by (cases s) (auto simp: thread_step_def goto_def)
    then show ?thesis using inv_ctx [OF inv'] by simp
  next
    case (Publish i)
    then show ?thesis using step ok by (auto simp: thread_step_def intro!: inv_release [OF inv t])
  qed (use step in \<open>simp add: thread_step_def\<close>)
qed

lemma race_init_inv: "0 < n \<Longrightarrow> race_inv n k (race_init n k)"
  by (rule race_invI) (simp_all add: race_init_def race_shape_def)

lemma reachable_race_inv:
  assumes "race_reachable n k s ms" and "0 < n"
  shows "race_inv n k s"
  using assms
proof (induction rule: race_reachable.induct)
  case (call_put s ms t m)
  then show ?case by (intro inv_goto) simp_all
next
  case (call_flush s ms t)
  then have "rcursor s < n" by (simp add: race_inv_def race_shape_def)
  with call_flush show ?case by (intro inv_goto) simp_all
next
  case (step s ms t s')
  then show ?case using thread_step_inv by blast
qed (simp add: race_init_inv)

section \<open>Where the messages are\<close>

text \<open>The message a dirty slot holds, and those a thread has in hand.\<close>

definition elem_msgs :: "log_elem \<Rightarrow> string multiset" where
  "elem_msgs e = (if needToFlush e then {#ctx e#} else {#})"

definition cont_msgs :: "(nat \<times> string) option \<Rightarrow> string multiset" where
  "cont_msgs c = (case c of None \<Rightarrow> {#} | Some (i, m) \<Rightarrow> {#m#})"

fun pc_msgs :: "log_elem list \<Rightarrow> pc \<Rightarrow> string multiset" where
  "pc_msgs es Idle = {#}"
| "pc_msgs es (Start m) = {#m#}"
| "pc_msgs es (Await i m) = {#m#}"
| "pc_msgs es (Check i m) = {#m#}"
| "pc_msgs es (Try i m) = {#m#}"
| "pc_msgs es (TryAll i) = {#}"
| "pc_msgs es (Scan js c) = cont_msgs c"
| "pc_msgs es (FlushCopy j js c) = {#ctx (es ! j)#} + cont_msgs c"
| "pc_msgs es (FlushDone j js c) = cont_msgs c"
| "pc_msgs es (WaitClean i m) = {#m#}"
| "pc_msgs es (Write i m) = {#m#}"
| "pc_msgs es (Copy i m) = {#m#}"
| "pc_msgs es (Publish i) = {#ctx (es ! i)#}"

definition accounted :: "race \<Rightarrow> string multiset" where
  "accounted s =
     mset (rout s) + sum_list (map elem_msgs (relems s)) + sum_list (map (pc_msgs (relems s)) (rpcs s)) +
     mset (rdropped s)"

lemma sum_list_update_mset:
  fixes f :: "'a \<Rightarrow> 'b multiset"
  shows "i < length xs \<Longrightarrow> sum_list (map f (xs[i := x])) + f (xs ! i) = sum_list (map f xs) + f x"
proof (induction xs arbitrary: i)
  case (Cons a xs)
  show ?case
  proof (cases i)
    case 0
    then show ?thesis by (simp add: ac_simps)
  next
    case (Suc j)
    with Cons show ?thesis by (simp add: add.assoc)
  qed
qed simp

lemma pc_msgs_cong:
  assumes "\<And>i. works_on p = Some i \<Longrightarrow> ctx (es' ! i) = ctx (es ! i)"
  shows "pc_msgs es' p = pc_msgs es p"
  using assms by (cases p) auto

text \<open>A step of thread \<open>t\<close> that changes at most slot \<open>i\<close> accounts for its own messages.\<close>

lemma accounted_step:
  assumes sh: "race_shape n k s" and t: "t < k" and i: "i < n"
    and upd: "relems s' = (relems s)[i := e]" "rpcs s' = (rpcs s)[t := p]"
    and others: "\<And>u. u < k \<Longrightarrow> u \<noteq> t \<Longrightarrow> works_on (rpcs s ! u) = Some i \<Longrightarrow> ctx e = ctx (relems s ! i)"
    and balance: "mset (rout s') + elem_msgs e + pc_msgs (relems s') p + mset (rdropped s') =
      mset (rout s) + elem_msgs (relems s ! i) + pc_msgs (relems s) (rpcs s ! t) + mset (rdropped s)"
  shows "accounted s' = accounted s"
proof -
  let ?E = "sum_list (map elem_msgs (relems s))" and ?P = "sum_list (map (pc_msgs (relems s)) (rpcs s))"
  have len: "i < length (relems s)" "t < length (rpcs s)" "length (rpcs s) = k"
    using sh t i by (auto simp: race_shape_def)
  have E: "sum_list (map elem_msgs (relems s')) + elem_msgs (relems s ! i) = ?E + elem_msgs e"
    unfolding upd(1) using sum_list_update_mset [OF len(1)] .
  have "map (pc_msgs (relems s')) ((rpcs s)[t := p]) = (map (pc_msgs (relems s)) (rpcs s))[t := pc_msgs (relems s') p]"
  proof (rule nth_equalityI)
    fix u
    assume "u < length (map (pc_msgs (relems s')) ((rpcs s)[t := p]))"
    then have u: "u < length (rpcs s)" by simp
    show "map (pc_msgs (relems s')) ((rpcs s)[t := p]) ! u =
        (map (pc_msgs (relems s)) (rpcs s))[t := pc_msgs (relems s') p] ! u"
    proof (cases "u = t")
      case False
      have "ctx (relems s' ! j) = ctx (relems s ! j)" if "works_on (rpcs s ! u) = Some j" for j
        using that others [of u] u len False by (cases "j = i") (simp_all add: upd(1))
      then have "pc_msgs (relems s') (rpcs s ! u) = pc_msgs (relems s) (rpcs s ! u)" by (rule pc_msgs_cong)
      with u False show ?thesis by simp
    qed (use u in simp)
  qed simp
  then have P: "sum_list (map (pc_msgs (relems s')) (rpcs s')) + pc_msgs (relems s) (rpcs s ! t) =
      ?P + pc_msgs (relems s') p"
    using sum_list_update_mset [of t "map (pc_msgs (relems s)) (rpcs s)" "\<lambda>x. x" "pc_msgs (relems s') p"] len
    by (simp add: upd(2))
  have "accounted s' + (elem_msgs (relems s ! i) + pc_msgs (relems s) (rpcs s ! t)) =
      (mset (rout s') + mset (rdropped s')) + (?E + elem_msgs e) + (?P + pc_msgs (relems s') p)"
    unfolding accounted_def E [symmetric] P [symmetric] by (simp add: ac_simps)
  also have "\<dots> = ?E + ?P + (mset (rout s') + elem_msgs e + pc_msgs (relems s') p + mset (rdropped s'))"
    by (simp add: ac_simps)
  also have "\<dots> = accounted s + (elem_msgs (relems s ! i) + pc_msgs (relems s) (rpcs s ! t))"
    unfolding balance accounted_def by (simp add: ac_simps)
  finally show ?thesis by simp
qed

text \<open>The same for a step that leaves the slots alone.\<close>

lemma accounted_move:
  assumes sh: "race_shape n k s" and t: "t < k"
    and upd: "relems s' = relems s" "rpcs s' = (rpcs s)[t := p]"
    and balance: "mset (rout s') + pc_msgs (relems s) p + mset (rdropped s') =
      mset (rout s) + pc_msgs (relems s) (rpcs s ! t) + mset (rdropped s)"
  shows "accounted s' = accounted s"
proof (rule accounted_step [OF sh t])
  show "0 < n" using sh by (auto simp: race_shape_def)
  show "relems s' = (relems s)[0 := relems s ! 0]" using upd(1) by simp
  have "mset (rout s') + elem_msgs (relems s ! 0) + pc_msgs (relems s') p + mset (rdropped s') =
      elem_msgs (relems s ! 0) + (mset (rout s') + pc_msgs (relems s) p + mset (rdropped s'))"
    by (simp add: upd(1) ac_simps)
  then show "mset (rout s') + elem_msgs (relems s ! 0) + pc_msgs (relems s') p + mset (rdropped s') =
      mset (rout s) + elem_msgs (relems s ! 0) + pc_msgs (relems s) (rpcs s ! t) + mset (rdropped s)"
    unfolding balance by (simp add: ac_simps)
qed (use upd(2) in simp_all)

lemma thread_step_accounted:
  assumes inv: "race_inv n k s" and t: "t < k" and step: "thread_step t s = Some s'"
  shows "accounted s' = accounted s"
proof -
  note sh = race_invD(1) [OF inv]
  have ok: "pc_ok n (rpcs s ! t)" and n: "length (relems s) = n" using sh t by (auto simp: race_shape_def)
  note move = accounted_move [OF sh t] and change = accounted_step [OF sh t]
  note defs = thread_step_def goto_def cont_msgs_def
  have alone: "works_on (rpcs s ! u) \<noteq> Some i" if "works_on (rpcs s ! t) = Some i" "u < k" "u \<noteq> t" for u i
    using race_invD(3) [OF inv t that(2)] that by blast
  show ?thesis
  proof (cases "rpcs s ! t")
    case (Check i m)
    then show ?thesis using step
      by (intro move [where p = "if needToFlush (relems s ! i) then Try i m else Write i m"]) (auto simp: defs)
  next
    case (Scan js c)
    show ?thesis
    proof (cases js)
      case Nil
      then show ?thesis using step Scan
        by (intro move [where p = "case c of None \<Rightarrow> Idle | Some (i, m) \<Rightarrow> Write i m"])
          (auto simp: defs split: option.splits)
    next
      case (Cons j js')
      show ?thesis
      proof (cases "needToFlush (relems s ! j)")
        case True
        have "s' = goto t (FlushCopy j js' c) (set_status j FLUSHING s)"
          using step Scan Cons True by (simp add: thread_step_def)
        then show ?thesis using ok Scan Cons True n
          by (intro change [where i = j and e = "(relems s ! j)\<lparr>status := FLUSHING\<rparr>" and p = "FlushCopy j js' c"])
            (auto simp: goto_def set_status_def elem_msgs_def needToFlush_def)
      next
        case False
        then show ?thesis using step Scan Cons by (intro move [where p = "Scan js' c"]) (auto simp: defs)
      qed
    qed
  next
    case (FlushCopy j js c)
    then show ?thesis using step by (intro move [where p = "FlushDone j js c"]) (auto simp: defs)
  next
    case (FlushDone j js c)
    have st: "status (relems s ! j) = FLUSHING" using race_invD(2) [OF inv t, of j] FlushDone by simp
    have "s' = goto t (Scan js c) (set_status j CLEAN s)"
      using step FlushDone by (simp add: thread_step_def)
    then show ?thesis using ok FlushDone n st
      by (intro change [where i = j and e = "(relems s ! j)\<lparr>status := CLEAN\<rparr>" and p = "Scan js c"])
        (auto simp: goto_def set_status_def elem_msgs_def needToFlush_def)
  next
    case (Write i m)
    show ?thesis
    proof (cases "status (relems s ! i) = CLEAN")
      case True
      have "s' = goto t (Copy i m) (set_status i WRITING s)"
        using step Write True by (simp add: thread_step_def)
      then show ?thesis using ok Write True n
        by (intro change [where i = i and e = "(relems s ! i)\<lparr>status := WRITING\<rparr>" and p = "Copy i m"])
          (auto simp: goto_def set_status_def elem_msgs_def needToFlush_def)
    next
      case False
      then show ?thesis using step Write by (intro move [where p = Idle]) (auto simp: defs)
    qed
  next
    case (Copy i m)
    have st: "status (relems s ! i) = WRITING" using race_invD(2) [OF inv t, of i] Copy by simp
    have "s' = goto t (Publish i) (s\<lparr>relems := (relems s)[i := (relems s ! i)\<lparr>ctx := take MSG_SIZE m\<rparr>]\<rparr>)"
      using step Copy by (simp add: thread_step_def)
    then show ?thesis using ok Copy n st alone
      by (intro change [where i = i and e = "(relems s ! i)\<lparr>ctx := take MSG_SIZE m\<rparr>" and p = "Publish i"])
        (auto simp: goto_def elem_msgs_def needToFlush_def)
  next
    case (Publish i)
    have st: "status (relems s ! i) = WRITING" using race_invD(2) [OF inv t, of i] Publish by simp
    have "s' = goto t Idle (set_status i DIRTY s)" using step Publish by (simp add: thread_step_def)
    then show ?thesis using ok Publish n st
      by (intro change [where i = i and e = "(relems s ! i)\<lparr>status := DIRTY\<rparr>" and p = Idle])
        (auto simp: goto_def set_status_def elem_msgs_def needToFlush_def)
  next
    case (Start m)
    then show ?thesis using step by (intro move [where p = "Await (rcursor s) m"]) (auto simp: defs)
  next
    case (Await i m)
    then show ?thesis using step by (intro move [where p = "Check i m"]) (auto simp: defs split: if_splits)
  next
    case (Try i m)
    then show ?thesis using step
      by (intro move [where p = "if rlock s = None then Scan (scan_order i s) (Some (i, m)) else WaitClean i m"])
        (auto simp: defs split: if_splits)
  next
    case (TryAll i)
    then show ?thesis using step
      by (intro move [where p = "if rlock s = None then Scan (scan_order i s) None else Idle"])
        (auto simp: defs split: if_splits)
  next
    case (WaitClean i m)
    then show ?thesis using step by (intro move [where p = "Write i m"]) (auto simp: defs split: if_splits)
  qed (use step in \<open>simp add: thread_step_def\<close>)
qed

lemma sum_list_empty: "sum_list (replicate j {#}) = {#}"
  by (induction j) simp_all

lemma reachable_accounted:
  assumes "race_reachable n k s ms" and "0 < n"
  shows "accounted s = mset ms"
  using assms
proof (induction rule: race_reachable.induct)
  case init
  show ?case by (simp add: accounted_def race_init_def sum_list_empty elem_msgs_def needToFlush_def new_elem_def)
next
  case (call_put s ms t m)
  have sh: "race_shape n k s" using reachable_race_inv [OF call_put.hyps(1)] call_put.prems race_invD(1) by blast
  let ?s = "s\<lparr>rdropped := m # rdropped s\<rparr>"
  have "accounted (goto t (Start m) s) = accounted ?s"
    using sh call_put.hyps(2,3) accounted_move [of n k "?s" t "goto t (Start m) s" "Start m"]
    by (simp add: race_shape_def goto_def)
  also have "accounted ?s = add_mset m (accounted s)" by (simp add: accounted_def)
  finally show ?case using call_put.IH call_put.prems by simp
next
  case (call_flush s ms t)
  have sh: "race_shape n k s" using reachable_race_inv [OF call_flush.hyps(1)] call_flush.prems race_invD(1) by blast
  have "accounted (goto t (TryAll (rcursor s)) s) = accounted s"
    using call_flush.hyps(3) by (intro accounted_move [OF sh call_flush.hyps(2), where p = "TryAll (rcursor s)"]) (simp_all add: goto_def)
  with call_flush show ?case by simp
next
  case (step s ms t s')
  then show ?case using thread_step_accounted reachable_race_inv by metis
qed

end
