(* ===== verification/LoggerProperties.thy ===== *)
theory LoggerProperties
  imports LoggerFiles LoggerRace
begin

text \<open>
  The properties of the logger: what it writes is what was put, in order; the bounds of a
  record; substring replacement; which files are kept and found again; and several threads
  on the ring at once.
\<close>

section \<open>One thread\<close>

text \<open>A sequence of calls; \<open>log_run\<close> is their composition on a file system that can be written.\<close>

datatype log_call =
    PutCall log_stamp nat "(string \<times> string) option" nat string
  | FlushCall

fun log_run :: "bool \<Rightarrow> log_call list \<Rightarrow> simple_logger \<times> files \<Rightarrow> (simple_logger \<times> files) option" where
  "log_run has_mgr [] st = Some st"
| "log_run has_mgr (PutCall stamp level site line_number text # cs) (lg, fs) =
     (case logger_put (\<lambda>_. True) has_mgr stamp level site line_number text lg fs of
        None \<Rightarrow> None
      | Some (lg', fs', rotated, out) \<Rightarrow> log_run has_mgr cs (lg', fs'))"
| "log_run has_mgr (FlushCall # cs) (lg, fs) =
     (case flushAll (\<lambda>_. True) has_mgr lg fs of (lg', fs', rotated) \<Rightarrow> log_run has_mgr cs (lg', fs'))"

text \<open>The record of a call, if its level is logged.\<close>

fun call_record :: "simple_logger \<Rightarrow> log_call \<Rightarrow> string option list" where
  "call_record lg FlushCall = [None]"
| "call_record lg (PutCall stamp level site line_number text) =
     (if int level > curLogLevel lg then [] else [Some (put_record stamp level site line_number text lg)])"

definition records :: "simple_logger \<Rightarrow> log_call list \<Rightarrow> string list" where
  "records lg cs = List.map_filter id (concat (map (call_record lg) cs))"

definition same_settings :: "simple_logger \<Rightarrow> simple_logger \<Rightarrow> bool" where
  "same_settings lg lg' \<longleftrightarrow> curLogLevel lg' = curLogLevel lg \<and> tzGap lg' = tzGap lg"

lemma fs_write_settings: "fs_write s lg fs = (lg', fs') \<Longrightarrow> same_settings lg lg'"
  by (auto simp: fs_write_def same_settings_def Let_def split: if_splits option.splits)

lemma flush_elems_settings: "flush_elems is lg fs = (lg', fs') \<Longrightarrow> same_settings lg lg'"
proof (induction "is" lg fs rule: flush_elems.induct)
  case (2 i "is" lg fs)
  show ?case
  proof (cases "status (elems lg ! i) = DIRTY")
    case True
    obtain lg1 fs1 where w: "fs_write (ctx (elems lg ! i))
        (lg\<lparr>elems := (elems lg)[i := (elems lg ! i)\<lparr>status := CLEAN\<rparr>]\<rparr>) fs = (lg1, fs1)" by fastforce
    have "same_settings lg lg1" using fs_write_settings [OF w] by (simp add: same_settings_def)
    moreover have "same_settings lg1 lg'"
      using "2.IH"(2) "2.prems" w True by (simp add: elem_flush_def)
    ultimately show ?thesis by (simp add: same_settings_def)
  next
    case False
    with 2 show ?thesis by (simp add: elem_flush_def)
  qed
qed (simp add: same_settings_def)

lemma logger_flush_settings:
  assumes "logger_flush can_open has_mgr s lg fs = (lg', fs', rotated)"
  shows "same_settings lg lg'"
proof -
  obtain lg1 fs1 where f: "flush_elems ([s..<length (elems lg)] @ [0..<s]) lg fs = (lg1, fs1)" by fastforce
  from flush_elems_settings [OF f] assms f show ?thesis
    by (auto simp: logger_flush_def fs_open_def same_settings_def split: if_splits)
qed

lemma put_ring_settings:
  assumes "put_ring can_open has_mgr msg lg fs = Some (lg', fs', rotated)"
  shows "same_settings lg lg'"
proof -
  let ?lg1 = "lg\<lparr>cursor := (cursor lg + 1) mod length (elems lg)\<rparr>"
  obtain lg2 fs2 r where f: "(if needToFlush (elems ?lg1 ! cursor lg) then logger_flush can_open has_mgr (cursor lg) ?lg1 fs
      else (?lg1, fs, None)) = (lg2, fs2, r)" by (rule prod_cases3)
  then have "same_settings lg lg2"
    using logger_flush_settings [of can_open has_mgr "cursor lg" ?lg1 fs]
    by (auto simp: same_settings_def split: if_splits)
  with assms f show ?thesis
    by (auto simp: put_ring_def Let_def same_settings_def split: if_splits)
qed

lemma call_record_settings: "same_settings lg lg' \<Longrightarrow> call_record lg' c = call_record lg c"
  by (cases c) (simp_all add: same_settings_def put_record_def stamp_header_def)

lemma log_run_sink:
  assumes "logger_ok first (lg, fs)"
  shows "log_run has_mgr cs (lg, fs) = sink.run has_mgr (concat (map (call_record lg) cs)) (lg, fs)"
  using assms
proof (induction cs arbitrary: lg fs)
  case (Cons c cs)
  have go: "log_run has_mgr cs (lg', fs') = sink.run has_mgr (concat (map (call_record lg) cs)) (lg', fs')"
    if "logger_ok first (lg', fs')" "same_settings lg lg'" for lg' fs'
  proof -
    have "map (call_record lg') cs = map (call_record lg) cs" using call_record_settings [OF that(2)] by simp
    with Cons.IH [OF that(1)] show ?thesis by simp
  qed
  have good: "fs_good lg" using Cons.prems by (simp add: logger_ok_def stream_ok_def)
  show ?case
  proof (cases c)
    case (PutCall stamp level site line_number body)
    show ?thesis
    proof (cases "int level > curLogLevel lg")
      case True
      then show ?thesis using PutCall go [OF Cons.prems] by (simp add: logger_put_def same_settings_def)
    next
      case False
      let ?m = "put_record stamp level site line_number body lg"
      have "length ?m \<le> MSG_SIZE" by (simp add: put_record_def format_record_length)
      from put_ring_appends [OF Cons.prems _ this, of "\<lambda>_. True" has_mgr]
      obtain lg' fs' rotated where p: "put_ring (\<lambda>_. True) has_mgr ?m lg fs = Some (lg', fs', rotated)"
        "logger_ok first (lg', fs')" by auto
      have "sink_put has_mgr ?m (lg, fs) = Some (lg', fs')" using p(1) by (simp add: sink_put_def)
      then show ?thesis
        using PutCall False good p go [OF p(2) put_ring_settings [OF p(1)]] by (simp add: logger_put_def)
    qed
  next
    case FlushCall
    obtain lg' fs' rotated where f: "flushAll (\<lambda>_. True) has_mgr lg fs = (lg', fs', rotated)" by (rule prod_cases3)
    have "logger_ok first (lg', fs')" using flushAll_keeps [OF Cons.prems _ f] by simp
    moreover have "same_settings lg lg'" using logger_flush_settings f unfolding flushAll_def by blast
    moreover have "sink_sync has_mgr (lg, fs) = (lg', fs')" using f by (simp add: sink_sync_def)
    ultimately show ?thesis using FlushCall f go by simp
  qed
qed simp

text \<open>C30: The logger keeps every record, in order: after any sequence of puts and flushes by one
  thread the files, revision after revision, followed by the dirty slots in ring order, hold
  the old text and then exactly the records of the calls whose level is logged, whatever the
  number of slots, the size limit of a file and the rotations on the way.\<close>

theorem logger_keeps_order:
  assumes "logger_ok first (lg, fs)"
  shows "\<exists>st. log_run has_mgr cs (lg, fs) = Some st
    \<and> log_text first st = log_text first (lg, fs) @ concat (records lg cs)"
proof -
  have "length m \<le> MSG_SIZE" if "Some m \<in> set (call_record lg c)" for m c
    using that by (cases c) (auto simp: put_record_def format_record_length split: if_splits)
  then have "\<forall>m. Some m \<in> set (concat (map (call_record lg) cs)) \<longrightarrow> length m \<le> MSG_SIZE" by auto
  from sink.run_appends [OF assms this, of has_mgr] show ?thesis
    unfolding log_run_sink [OF assms] records_def by blast
qed

definition demo_logger :: simple_logger where
  "demo_logger =
     \<lparr>filePath = ''l'', minRevnum = 0, curRevnum = 0, maxLogFiles = 2, fs_file = Some ''l'', fs_good = True,
      tellp = 0, maxLogFileSize = 10, numCompJobs = 0, curLogLevel = 4, curDispLevel = - 1, tzGap = 0,
      cursor = 0, elems = replicate 2 new_elem\<rparr>"

definition demo_stamp :: log_stamp where
  "demo_stamp =
     \<lparr>stamp_time = \<lparr>year = 2024, month = 5, day = 1, hour = 9, minute = 0, sec = 7, msec = 12, usec = 345\<rparr>,
      stamp_width = 4, stamp_tid = 17, stack_buf = replicate MSG_SIZE NUL\<rparr>"

theorem logger_keeps_order_witness:
  "\<exists>st. log_run True [PutCall demo_stamp 4 None 0 ''a'', PutCall demo_stamp 5 None 0 ''b'', FlushCall]
      (demo_logger, [(''l'', [])]) = Some st
    \<and> log_text 0 st = put_record demo_stamp 4 None 0 ''a'' demo_logger"
proof -
  have "logger_ok 0 (demo_logger, [(''l'', [])])"
    by (simp add: logger_ok_def ring_ok_def stream_ok_def demo_logger_def new_elem_def available_def getLogFilePath_def)
  from logger_keeps_order [OF this, of True "[PutCall demo_stamp 4 None 0 ''a'', PutCall demo_stamp 5 None 0 ''b'', FlushCall]"]
  show ?thesis
    by (simp add: records_def map_filter_simps log_text_def pending_def file_text_def getLogFilePath_def demo_logger_def
        new_elem_def needToFlush_def put_record_def stamp_header_def)
qed

text \<open>What a record is, for every length of its message: whole when twice its header and
  the rest fit the buffer, because the macro subtracts the header twice; otherwise the source
  position loses its end and the newline, to a NUL, or is lost completely although there may be
  room for it; and a message too long is cut and followed by a NUL. It never exceeds the buffer.\<close>

theorem record_outcome:
  assumes "length buf = MSG_SIZE" and "length header < MSG_SIZE"
  shows "length (format_record buf header body suffix) \<le> MSG_SIZE
    \<and> format_record buf header body suffix =
      (if length header + length body < MSG_SIZE
       then if 2 * length header + length body + length suffix < MSG_SIZE then header @ body @ suffix
            else if 2 * length header + length body < MSG_SIZE
            then header @ body @ take (MSG_SIZE - 2 * length header - length body - 1) suffix @ [NUL]
            else header @ body
       else header @ take (MSG_SIZE - length header - 1) body @ [NUL])"
  using format_record_length format_record_outcome [OF assms] by blast

theorem record_outcome_witness:
  "format_record (replicate MSG_SIZE NUL) ''[INFO] '' (replicate 4085 (CHR ''x'')) [char_of (10 :: nat)] =
    ''[INFO] '' @ replicate 4085 (CHR ''x'')"
proof -
  have "length (replicate MSG_SIZE NUL) = MSG_SIZE" "length ''[INFO] '' < MSG_SIZE" by (simp_all add: MSG_SIZE_def)
  from record_outcome [OF this, of "replicate 4085 (CHR ''x'')" "[char_of (10 :: nat)]"] show ?thesis
    by (simp add: MSG_SIZE_def del: replicate.simps)
qed

text \<open>\<^verbatim>\<open>replaceString\<close> ends for every pattern but the empty one, for which it does not, and
  replaces the matches found from left to right without overlap.\<close>

theorem replace_string_reference:
  "replaceString src before after = (if before = [] then None else Some (replace_all before after src))"
  using replace_loop_reference [of before 0 src after "[]"] replace_loop_empty [of 0 src after "[]"]
  by (simp add: replaceString_def)

section \<open>Files\<close>

text \<open>C36: How many old files are kept: when the compressor has taken the rotated files from the
  logger's first revision up to \<open>b\<close>, exactly the compressed files of the last \<open>maxLogFiles\<close> of
  them are left, so never more than that number.\<close>

theorem compression_retains:
  assumes "shell_law sh" and "shell_plain (filePath lg)" and "0 < maxLogFiles lg"
    and "\<And>r. om_find fs (archive_name (filePath lg) r) = None"
    and "minRevnum lg \<le> b"
    and "\<forall>r. minRevnum lg \<le> r \<and> r < b \<longrightarrow> om_find fs (getLogFilePath (filePath lg) r) \<noteq> None"
  shows "{r. om_find (snd (compress_all sh [minRevnum lg..<b] (lg, fs))) (archive_name (filePath lg) r) \<noteq> None}
      = {max (minRevnum lg) (b - maxLogFiles lg)..<b}
    \<and> minRevnum (fst (compress_all sh [minRevnum lg..<b] (lg, fs))) = max (minRevnum lg) (b - maxLogFiles lg)"
proof -
  obtain lg' fs' where c: "compress_all sh [minRevnum lg..<b] (lg, fs) = (lg', fs')"
    "minRevnum lg' = max (minRevnum lg) (b - maxLogFiles lg)"
    "\<forall>r. om_find fs' (archive_name (filePath lg) r) \<noteq> None \<longleftrightarrow> minRevnum lg \<le> r \<and> r < b \<and> b \<le> r + maxLogFiles lg"
    using compress_all_retains [OF assms] by (elim exE conjE)
  have "{r. om_find fs' (archive_name (filePath lg) r) \<noteq> None} = {max (minRevnum lg) (b - maxLogFiles lg)..<b}"
    using c(3) by auto
  with c(1,2) show ?thesis by simp
qed

text \<open>A shell that understands the two commands.\<close>

definition demo_shell :: shell where
  "demo_shell cmd fs =
     (case split_on (CHR '' '') cmd of
        [c, o1, f, r, n] \<Rightarrow> om_erase f fs
      | [c, o1, f, g, r, n] \<Rightarrow>
          if c = ''rm'' then om_erase g (om_erase f fs)
          else if om_find fs g = None then fs else om_assign f (file_text fs g) fs
      | _ \<Rightarrow> fs)"

lemma plain_no_space: "shell_plain f \<Longrightarrow> CHR '' '' \<notin> set f"
  by (auto simp: shell_plain_def list_all_iff is_digit_def)

lemma words_of: "CHR '' '' \<notin> set w \<Longrightarrow> split_on (CHR '' '') (w @ CHR '' '' # s) = w # split_on (CHR '' '') s"
  by (rule split_on_append)

lemma demo_shell_law: "shell_law demo_shell"
proof -
  have rm: "demo_shell (''rm -f '' @ f @ '' > /dev/null'') fs = om_erase f fs" if "shell_plain f" for f fs
    using words_of [OF plain_no_space [OF that]] by (simp add: demo_shell_def)
  have two: "split_on (CHR '' '') (f @ CHR '' '' # g @ '' > /dev/null'') = [f, g, ''>'', ''/dev/null'']"
    if "shell_plain f" "shell_plain g" for f g
    using words_of [OF plain_no_space [OF that(1)]] words_of [OF plain_no_space [OF that(2)]] by simp
  have rm2: "demo_shell (''rm -f '' @ f @ '' '' @ g @ '' > /dev/null'') fs = om_erase g (om_erase f fs)"
    if "shell_plain f" "shell_plain g" for f g fs
    using two [OF that] by (simp add: demo_shell_def)
  have tar: "demo_shell (''tar zcvf '' @ f @ '' '' @ g @ '' > /dev/null'') fs = om_assign f (file_text fs g) fs"
    if "shell_plain f" "shell_plain g" "om_find fs g \<noteq> None" for f g fs
    using two [OF that(1,2)] that(3) by (auto simp: demo_shell_def)
  show ?thesis unfolding shell_law_def using rm rm2 tar by (auto simp: find_erase find_assign simp del: append.simps)
qed

theorem compression_retains_witness:
  "{r. om_find (snd (compress_all demo_shell [0..<3] (demo_logger, [(''l'', ''x''), (''l.1'', ''y''), (''l.2'', ''z'')])))
      (archive_name ''l'' r) \<noteq> None} = {1..<3}"
proof -
  let ?fs = "[(''l'', ''x''), (''l.1'', ''y''), (''l.2'', ''z'')]"
  have lg: "filePath demo_logger = ''l''" "minRevnum demo_logger = 0" "maxLogFiles demo_logger = 2"
    by (simp_all add: demo_logger_def)
  have none: "om_find ?fs (archive_name ''l'' r) = None" for r
    by (cases "r = 0") (auto simp: archive_name_def getLogFilePath_def dest: arg_cong [of _ _ length])
  have there: "\<forall>r. 0 \<le> r \<and> r < 3 \<longrightarrow> om_find ?fs (getLogFilePath ''l'' r) \<noteq> None"
  proof (intro allI impI)
    fix r :: nat
    assume "0 \<le> r \<and> r < 3"
    then have "r = 0 \<or> r = 1 \<or> r = 2" by auto
    moreover have "digits_of 1 = ''1''" "digits_of 2 = ''2''" by code_simp+
    ultimately show "om_find ?fs (getLogFilePath ''l'' r) \<noteq> None" by (elim disjE) (simp_all add: getLogFilePath_def)
  qed
  have "shell_plain ''l''" by code_simp
  with compression_retains [of demo_shell demo_logger ?fs 3] demo_shell_law none there show ?thesis
    unfolding lg by simp
qed

text \<open>A new logger on an old log goes on where the old one stopped: in a directory that holds
  the compressed files from \<open>lo\<close> on and the open file \<open>cur\<close>, in any order, it finds \<open>lo\<close> and \<open>cur\<close>.\<close>

theorem restart_finds_revision:
  assumes "log_base base" and "CHR ''/'' \<notin> set base" and "lo \<le> cur" and "cur < 2 ^ 64"
    and "replace_all ''//'' ''/'' path = dir @ CHR ''/'' # base"
    and "set (readdir dir) = archive_name base ` {lo..<cur} \<union> {getLogFilePath base cur}"
  shows "\<exists>lg. new_logger readdir tz path n limit files = Some lg \<and> minRevnum lg = lo \<and> curRevnum lg = cur
    \<and> getLogFilePath (filePath lg) (curRevnum lg) = dir @ CHR ''/'' # getLogFilePath base cur"
proof -
  have "findMinMaxRevNum readdir (dir @ CHR ''/'' # base) = (lo, cur)"
    using restart_scan [OF assms(1,3,4,6)] by (simp add: findMinMaxRevNum_def rfind_append [OF assms(2)])
  moreover have "replaceString path ''//'' ''/'' = Some (dir @ CHR ''/'' # base)"
    using replace_loop_reference [of "''//''" 0 path "''/''" "[]"] assms(5) by (simp add: replaceString_def)
  ultimately show ?thesis by (simp add: new_logger_def getLogFilePath_def)
qed

theorem restart_finds_revision_witness:
  "\<exists>lg. new_logger (\<lambda>d. [''1.log.2'', ''1.log.1.tar.gz'']) 0 ''logs//1.log'' 8 100 2 = Some lg
    \<and> minRevnum lg = 1 \<and> curRevnum lg = 2 \<and> getLogFilePath (filePath lg) (curRevnum lg) = ''logs/1.log.2''"
proof -
  let ?dir = "\<lambda>d :: string. [''1.log.2'', ''1.log.1.tar.gz'']"
  have base: "log_base ''1.log''" by code_simp
  have path: "replace_all ''//'' ''/'' ''logs//1.log'' = ''logs'' @ CHR ''/'' # ''1.log''" by code_simp
  have "{1..<2} = {1 :: nat}" by auto
  moreover have "archive_name ''1.log'' 1 = ''1.log.1.tar.gz''" by code_simp
  moreover have two: "getLogFilePath ''1.log'' 2 = ''1.log.2''" by code_simp
  ultimately have names: "set (?dir ''logs'') = archive_name ''1.log'' ` {1..<2} \<union> {getLogFilePath ''1.log'' 2}"
    by simp
  from two restart_finds_revision [OF base _ _ _ path names, of 0 8 100 2] show ?thesis by simp
qed

section \<open>Several threads\<close>

text \<open>Running a schedule, for concrete states.\<close>

datatype race_event = PutBy nat string | FlushBy nat | StepOf nat

fun race_exec :: "nat \<Rightarrow> race_event list \<Rightarrow> race \<times> string list \<Rightarrow> (race \<times> string list) option" where
  "race_exec k [] st = Some st"
| "race_exec k (PutBy t m # es) (s, ms) =
     (if t < k \<and> rpcs s ! t = Idle \<and> length m \<le> MSG_SIZE then race_exec k es (goto t (Start m) s, m # ms) else None)"
| "race_exec k (FlushBy t # es) (s, ms) =
     (if t < k \<and> rpcs s ! t = Idle then race_exec k es (goto t (TryAll (rcursor s)) s, ms) else None)"
| "race_exec k (StepOf t # es) (s, ms) =
     (if t < k then case thread_step t s of None \<Rightarrow> None | Some s' \<Rightarrow> race_exec k es (s', ms) else None)"

lemma race_exec_reachable:
  "race_exec k es (s, ms) = Some (s', ms') \<Longrightarrow> race_reachable n k s ms \<Longrightarrow> race_reachable n k s' ms'"
proof (induction es arbitrary: s ms)
  case (Cons e es)
  then show ?case
    by (cases e) (auto split: if_splits option.splits intro: race_reachable.intros)
qed simp

text \<open>Thread 0 is copying into slot 0 while thread 1 has written slot 1.\<close>

definition demo_race :: race where
  "demo_race =
     \<lparr>relems = [\<lparr>ctx = [], status = WRITING\<rparr>, \<lparr>ctx = ''b'', status = DIRTY\<rparr>], rcursor = 0, rout = [], rlock = None,
      rpcs = [Copy 0 ''a'', Idle], rdropped = []\<rparr>"

lemma demo_race_reachable: "race_reachable 2 2 demo_race [''b'', ''a'']"
proof -
  have "race_exec 2
      ([PutBy 0 ''a'', StepOf 0, StepOf 0, StepOf 0, StepOf 0, PutBy 1 ''b''] @ replicate 6 (StepOf 1))
      (race_init 2 2, []) = Some (demo_race, [''b'', ''a''])"
    by code_simp
  then show ?thesis using race_exec_reachable race_reachable.init by blast
qed

text \<open>C31: Whatever the interleaving of putting and flushing threads, no two of them work on the
  same slot, and a slot a thread works on is not available to others.\<close>

theorem slots_exclusive:
  assumes "race_reachable n k s ms" and "0 < n" and "t < k" and "u < k" and "t \<noteq> u"
    and "works_on (rpcs s ! t) = Some i"
  shows "works_on (rpcs s ! u) \<noteq> Some i \<and> \<not> available (relems s ! i)"
proof -
  have inv: "race_inv n k s" using reachable_race_inv assms(1,2) .
  have "works_on (rpcs s ! u) \<noteq> Some i" using race_invD(3) [OF inv assms(3,4) assms(6)] assms(5) by blast
  moreover have "\<not> available (relems s ! i)"
    using race_invD(2) [OF inv assms(3,6)] work_status_cases work_status_busy by metis
  ultimately show ?thesis ..
qed

theorem slots_exclusive_witness:
  "race_reachable 2 2 demo_race [''b'', ''a''] \<and> works_on (rpcs demo_race ! 0) = Some 0
    \<and> works_on (rpcs demo_race ! 1) \<noteq> Some 0 \<and> \<not> available (relems demo_race ! 0)"
proof -
  have "works_on (rpcs demo_race ! 0) = Some 0" by (simp add: demo_race_def)
  from slots_exclusive [OF demo_race_reachable _ _ _ _ this, of 1] this demo_race_reachable
  show ?thesis by simp
qed

text \<open>C32: Every message put by any thread is in exactly one place: written to the file, in a dirty
  slot, in the hands of a thread, or dropped because its slot was taken; none is duplicated and
  none disappears in another way.\<close>

theorem messages_accounted:
  assumes "race_reachable n k s ms" and "0 < n"
  shows "mset (rout s) + sum_list (map elem_msgs (relems s)) + sum_list (map (pc_msgs (relems s)) (rpcs s))
    + mset (rdropped s) = mset ms"
  using reachable_accounted [OF assms] by (simp add: accounted_def)

theorem messages_accounted_witness:
  "mset (rout demo_race) + sum_list (map elem_msgs (relems demo_race))
    + sum_list (map (pc_msgs (relems demo_race)) (rpcs demo_race)) + mset (rdropped demo_race) = {#''a'', ''b''#}"
  using messages_accounted [OF demo_race_reachable] by simp

text \<open>Messages are dropped: with two threads on a ring of one slot, both can find the slot clean;
  the second write then fails, its result is ignored, and the message is neither in the file nor
  in the ring when both threads have returned.\<close>

theorem race_drops_message:
  "\<exists>s. race_reachable 1 2 s [''b'', ''a''] \<and> rpcs s = [Idle, Idle] \<and> rout s = [] \<and> map ctx (relems s) = [''a'']
    \<and> rdropped s = [''b'']"
proof -
  let ?s = "\<lparr>relems = [\<lparr>ctx = ''a'', status = DIRTY\<rparr>], rcursor = 0, rout = [], rlock = None,
      rpcs = [Idle, Idle], rdropped = [''b'']\<rparr>"
  have "race_exec 2
      ([PutBy 0 ''a'', PutBy 1 ''b'', StepOf 0, StepOf 0, StepOf 0, StepOf 1, StepOf 1, StepOf 1] @
       replicate 3 (StepOf 0) @ [StepOf 1])
      (race_init 1 2, []) = Some (?s, [''b'', ''a''])"
    by code_simp
  then have "race_reachable 1 2 ?s [''b'', ''a'']" using race_exec_reachable race_reachable.init by blast
  then show ?thesis by (intro exI [of _ ?s]) simp
qed

end
