(* ===== verification/LoggerMgr.thy ===== *)
theory LoggerMgr
  imports LoggerCore
begin

text \<open>
  Class \<^verbatim>\<open>SimpleLoggerMgr\<close> and class \<^verbatim>\<open>logger_wrapper\<close>: the process-wide manager with its
  queue of files to compress, the iterations of its two threads, and the life of a logger.
  Loggers are in a heap, addressed by numbers; the manager's unordered sets are lists in
  iteration order. The handlers of crashes are in \<^verbatim>\<open>LoggerCrash\<close>; the joining of threads is not
  modelled.
\<close>

section \<open>State\<close>

record raw_stack =
  tidHash :: nat
  kernelTid :: nat
  stackPtrs :: "nat list"
  crashOrigin :: bool

record log_mgr =
  loggers :: "nat list"
  activeThreads :: "nat list"
  pendingCompElems :: "(nat \<times> nat) list"
  globalCriticalInfo :: string
  crashDumpPath :: string
  crashDumpFile :: "string option"
  crashDumpOriginOnly :: bool
  exitOnCrash :: bool
  abortTimer :: nat
  crashOriginThread :: nat
  crashDumpThreadStacks :: "raw_stack list"

record log_world =
  mgr :: "log_mgr option"
  heap :: "(nat, simple_logger) omap"
  disk :: files
  console :: "string list"

record log_os =
  can_open :: "string \<Rightarrow> bool"
  shell :: shell
  getenv :: "string \<Rightarrow> string option"
  source_name :: string

section \<open>The manager\<close>

definition new_mgr :: log_mgr where
  "new_mgr =
     \<lparr>loggers = [], activeThreads = [], pendingCompElems = [], globalCriticalInfo = [],
      crashDumpPath = [], crashDumpFile = None, crashDumpOriginOnly = True, exitOnCrash = False, abortTimer = 0,
      crashOriginThread = 0, crashDumpThreadStacks = []\<rparr>"

definition mgr_get :: "log_world \<Rightarrow> log_mgr \<times> log_world" where
  "mgr_get w = (case mgr w of Some m \<Rightarrow> (m, w) | None \<Rightarrow> (new_mgr, w\<lparr>mgr := Some new_mgr\<rparr>))"

definition upd_mgr :: "(log_mgr \<Rightarrow> log_mgr) \<Rightarrow> log_world \<Rightarrow> log_world" where
  "upd_mgr f w = w\<lparr>mgr := map_option f (mgr w)\<rparr>"

definition set_add :: "nat \<Rightarrow> nat list \<Rightarrow> nat list" where
  "set_add x xs = (if x \<in> set xs then xs else x # xs)"

definition addLogger :: "nat \<Rightarrow> log_mgr \<Rightarrow> log_mgr" where
  "addLogger l m = m\<lparr>loggers := set_add l (loggers m)\<rparr>"

definition removeLogger :: "nat \<Rightarrow> log_mgr \<Rightarrow> log_mgr" where
  "removeLogger l m = m\<lparr>loggers := removeAll l (loggers m)\<rparr>"

definition addThread :: "nat \<Rightarrow> log_mgr \<Rightarrow> log_mgr" where
  "addThread tid m = m\<lparr>activeThreads := set_add tid (activeThreads m)\<rparr>"

definition removeThread :: "nat \<Rightarrow> log_mgr \<Rightarrow> log_mgr" where
  "removeThread tid m = m\<lparr>activeThreads := removeAll tid (activeThreads m)\<rparr>"

definition addCompElem :: "nat \<Rightarrow> nat \<Rightarrow> log_mgr \<Rightarrow> log_mgr" where
  "addCompElem fileNum l m = m\<lparr>pendingCompElems := pendingCompElems m @ [(fileNum, l)]\<rparr>"

definition mgr_setCriticalInfo :: "string \<Rightarrow> log_mgr \<Rightarrow> log_mgr" where
  "mgr_setCriticalInfo info_str m = m\<lparr>globalCriticalInfo := info_str\<rparr>"

definition mgr_setStackTraceOriginOnly :: "bool \<Rightarrow> log_mgr \<Rightarrow> log_mgr" where
  "mgr_setStackTraceOriginOnly origin_only m = m\<lparr>crashDumpOriginOnly := origin_only\<rparr>"

definition mgr_setCrashDumpPath :: "string \<Rightarrow> bool \<Rightarrow> log_mgr \<Rightarrow> log_mgr" where
  "mgr_setCrashDumpPath path origin_only m = mgr_setStackTraceOriginOnly origin_only (m\<lparr>crashDumpPath := path\<rparr>)"

definition mgr_setExitOnCrash :: "bool \<Rightarrow> log_mgr \<Rightarrow> log_mgr" where
  "mgr_setExitOnCrash b m = m\<lparr>exitOnCrash := b\<rparr>"

definition chkExitOnCrash :: "log_os \<Rightarrow> log_mgr \<Rightarrow> bool" where
  "chkExitOnCrash os m \<longleftrightarrow>
     exitOnCrash m \<or>
     (case getenv os ''SIMPLELOGGER_EXIT_ON_CRASH'' of
        None \<Rightarrow> False | Some s \<Rightarrow> s = ''ON'' \<or> s = ''on'' \<or> s = ''TRUE'' \<or> s = ''true'')"

text \<open>Whether the constructor installs the handlers of SIGSEGV and SIGABRT.\<close>

definition handles_signals :: "log_os \<Rightarrow> bool" where
  "handles_signals os \<longleftrightarrow>
     (case getenv os ''SIMPLELOGGER_HANDLE_SEGV'' of
        None \<Rightarrow> True | Some s \<Rightarrow> \<not> (s = ''OFF'' \<or> s = ''off'' \<or> s = ''FALSE'' \<or> s = ''false''))"

text \<open>The static functions of \<^verbatim>\<open>SimpleLogger\<close>, which create the manager if there is none.\<close>

definition logger_setCriticalInfo :: "string \<Rightarrow> log_world \<Rightarrow> log_world" where
  "logger_setCriticalInfo info_str w = upd_mgr (mgr_setCriticalInfo info_str) (snd (mgr_get w))"

definition logger_setCrashDumpPath :: "string \<Rightarrow> bool \<Rightarrow> log_world \<Rightarrow> log_world" where
  "logger_setCrashDumpPath path origin_only w = upd_mgr (mgr_setCrashDumpPath path origin_only) (snd (mgr_get w))"

definition logger_setStackTraceOriginOnly :: "bool \<Rightarrow> log_world \<Rightarrow> log_world" where
  "logger_setStackTraceOriginOnly origin_only w = upd_mgr (mgr_setStackTraceOriginOnly origin_only) (snd (mgr_get w))"

text \<open>
  The constructor of a thread's \<^verbatim>\<open>ThreadWrapper\<close> widens the global \<^verbatim>\<open>tid_digits\<close> and registers the
  thread; the compare-and-swap succeeds, as no other thread interferes. Its destructor removes it.
\<close>

fun num_digits :: "nat \<Rightarrow> nat" where
  "num_digits tid = (if tid = 0 then 0 else Suc (num_digits (tid div 10)))"

declare num_digits.simps [simp del]

definition thread_wrapper :: "nat \<Rightarrow> nat \<Rightarrow> nat \<Rightarrow> log_world \<Rightarrow> nat \<times> log_world" where
  "thread_wrapper mySelf myTid tid_digits w =
     (if tid_digits < num_digits myTid then num_digits myTid else tid_digits, upd_mgr (addThread mySelf) w)"

definition thread_wrapper_end :: "nat \<Rightarrow> log_world \<Rightarrow> log_world" where
  "thread_wrapper_end mySelf w = upd_mgr (removeThread mySelf) w"

section \<open>Calls on a logger in the heap\<close>

text \<open>A result \<open>None\<close> below is a thread that waits for ever on a slot of the ring.\<close>

text \<open>The files and the logger after a step, and its rotated file in the queue.\<close>

definition store_logger :: "nat \<Rightarrow> simple_logger \<times> files \<times> nat option \<Rightarrow> log_world \<Rightarrow> log_world" where
  "store_logger l res w =
     (case res of (lg, fs, rotated) \<Rightarrow>
       let w1 = w\<lparr>heap := om_assign l lg (heap w), disk := fs\<rparr>
       in case rotated of None \<Rightarrow> w1 | Some n \<Rightarrow> upd_mgr (addCompElem n l) w1)"

definition put_at ::
    "log_os \<Rightarrow> log_stamp \<Rightarrow> nat \<Rightarrow> nat \<Rightarrow> (string \<times> string) option \<Rightarrow> nat \<Rightarrow> string \<Rightarrow> log_world \<Rightarrow> log_world option" where
  "put_at os stamp l level site line_number text w =
     (case om_find (heap w) l of
        None \<Rightarrow> Some w
      | Some lg \<Rightarrow>
          (case logger_put (can_open os) (mgr w \<noteq> None) stamp level site line_number text lg (disk w) of
             None \<Rightarrow> None
           | Some (lg', fs', rotated, out) \<Rightarrow>
               Some ((store_logger l (lg', fs', rotated) w)\<lparr>console := console w @ out\<rparr>)))"

text \<open>The macro \<^verbatim>\<open>_log_\<close>.\<close>

definition log_macro ::
    "log_os \<Rightarrow> log_stamp \<Rightarrow> nat \<Rightarrow> nat \<Rightarrow> string \<Rightarrow> nat \<Rightarrow> string \<Rightarrow> log_world \<Rightarrow> log_world option" where
  "log_macro os stamp level l func_name line_number text w =
     (case om_find (heap w) l of
        None \<Rightarrow> Some w
      | Some lg \<Rightarrow>
          if curLogLevel lg \<ge> int level
          then put_at os stamp l level (Some (source_name os, func_name)) line_number text w
          else Some w)"

definition flush_at :: "log_os \<Rightarrow> nat \<Rightarrow> log_world \<Rightarrow> log_world" where
  "flush_at os l w =
     (case om_find (heap w) l of
        None \<Rightarrow> w
      | Some lg \<Rightarrow> store_logger l (flushAll (can_open os) (mgr w \<noteq> None) lg (disk w)) w)"

fun flush_loggers ::
    "log_os \<Rightarrow> log_stamp \<Rightarrow> nat \<Rightarrow> string \<Rightarrow> nat list \<Rightarrow> log_world \<Rightarrow> log_world option" where
  "flush_loggers os stamp level msg [] w = Some w"
| "flush_loggers os stamp level msg (l # ls) w =
     Option.bind
       (if msg \<noteq> []
        then put_at os stamp l level (Some (source_name os, ''flushAllLoggers'')) 470 msg w else Some w)
       (\<lambda>w1. flush_loggers os stamp level msg ls (flush_at os l w1))"

definition flushAllLoggers :: "log_os \<Rightarrow> log_stamp \<Rightarrow> nat \<Rightarrow> string \<Rightarrow> log_world \<Rightarrow> log_world option" where
  "flushAllLoggers os stamp level msg w =
     (case mgr w of None \<Rightarrow> Some w | Some m \<Rightarrow> flush_loggers os stamp level msg (loggers m) w)"

definition mgr_destroy :: "log_os \<Rightarrow> log_stamp \<Rightarrow> log_world \<Rightarrow> log_world option" where
  "mgr_destroy os stamp w =
     (case mgr w of
        None \<Rightarrow> Some w
      | Some m \<Rightarrow> map_option (\<lambda>w1. w1\<lparr>mgr := None\<rparr>) (flushAllLoggers os stamp 0 [] w))"

definition logger_shutdown :: "log_os \<Rightarrow> log_stamp \<Rightarrow> log_world \<Rightarrow> log_world option" where
  "logger_shutdown os stamp w = (case mgr w of None \<Rightarrow> Some w | Some m \<Rightarrow> mgr_destroy os stamp w)"

section \<open>The threads\<close>

text \<open>The flusher's iteration, after its sleep; it ends the process when the timer runs out.\<close>

datatype flusher = FlusherExits | FlusherContinues log_world

definition flushWorker_step :: "log_os \<Rightarrow> log_stamp \<Rightarrow> log_world \<Rightarrow> flusher option" where
  "flushWorker_step os stamp w =
     (let sub_ms = 500 in
      case flushAllLoggers os stamp 0 [] w of
        None \<Rightarrow> None
      | Some w1 \<Rightarrow>
          (case mgr w1 of
             None \<Rightarrow> Some (FlusherContinues w1)
           | Some m \<Rightarrow>
               if abortTimer m \<noteq> 0
               then if abortTimer m > sub_ms
                    then Some (FlusherContinues (w1\<lparr>mgr := Some (m\<lparr>abortTimer := abortTimer m - sub_ms\<rparr>)\<rparr>))
                    else Some FlusherExits
               else Some (FlusherContinues w1)))"

text \<open>The compressor's iteration: whether it sleeps before the next one, and the world.\<close>

definition compressWorker_step :: "log_os \<Rightarrow> log_world \<Rightarrow> bool \<times> log_world" where
  "compressWorker_step os w =
     (case mgr w of
        None \<Rightarrow> (True, w)
      | Some m \<Rightarrow>
          (case pendingCompElems m of
             [] \<Rightarrow> (True, w)
           | (fileNum, l) # rest \<Rightarrow>
               (let w1 = w\<lparr>mgr := Some (m\<lparr>pendingCompElems := rest\<rparr>)\<rparr>
                in case om_find (heap w1) l of
                     None \<Rightarrow> (False, w1)
                   | Some lg \<Rightarrow>
                       (case doCompression (shell os) fileNum lg (disk w1) of
                          (lg', fs') \<Rightarrow> (False, w1\<lparr>heap := om_assign l lg' (heap w1), disk := fs'\<rparr>)))))"

section \<open>The life of a logger\<close>

definition start_message :: "simple_logger \<Rightarrow> string" where
  "start_message lg =
     ''Start logger: '' @ filePath lg @ '' ('' @ digits_of (maxLogFileSize lg div 1024 div 1024) @
     '' MB per file, up to '' @ digits_of (maxLogFiles lg) @ '' files)''"

definition logger_start :: "log_os \<Rightarrow> log_stamp \<Rightarrow> nat \<Rightarrow> log_world \<Rightarrow> (int \<times> log_world) option" where
  "logger_start os stamp l w =
     (case om_find (heap w) l of
        None \<Rightarrow> Some (0, w)
      | Some lg \<Rightarrow>
          if filePath lg = [] then Some (0, w)
          else case fs_open (can_open os) (getLogFilePath (filePath lg) (curRevnum lg)) lg (disk w) of
                 (lg1, fs1) \<Rightarrow>
                   (let w1 = w\<lparr>heap := om_assign l lg1 (heap w), disk := fs1\<rparr>
                    in if \<not> fs_good lg1 then Some (- 1, w1)
                       else case mgr_get w1 of
                              (m, w2) \<Rightarrow>
                                Option.bind (log_macro os stamp 0 l ''start'' 737 (start_message lg1) (upd_mgr (addLogger l) w2))
                                  (\<lambda>w3. map_option (Pair 0)
                                     (if globalCriticalInfo m \<noteq> []
                                      then log_macro os stamp 4 l ''start'' 741 (globalCriticalInfo m) w3
                                      else Some w3))))"

text \<open>Whether \<^verbatim>\<open>stop\<close> returns without waiting for the compressor, and the world.\<close>

definition logger_stop :: "log_os \<Rightarrow> log_stamp \<Rightarrow> nat \<Rightarrow> log_world \<Rightarrow> (bool \<times> log_world) option" where
  "logger_stop os stamp l w =
     (case om_find (heap w) l of
        None \<Rightarrow> Some (True, w)
      | Some lg \<Rightarrow>
          if fs_file lg = None \<or> mgr w = None then Some (True, w)
          else map_option
                 (\<lambda>w1. let w2 = flush_at os l w1
                       in case om_find (heap w2) l of
                            None \<Rightarrow> (True, w2)
                          | Some lg2 \<Rightarrow> (numCompJobs lg2 = 0, w2\<lparr>heap := om_assign l (lg2\<lparr>fs_file := None\<rparr>) (heap w2)\<rparr>))
                 (log_macro os stamp 0 l ''stop'' 754 (''Stop logger: '' @ filePath lg) (upd_mgr (removeLogger l) w)))"

text \<open>The wrapper NuRaft is given, with the constructor's limits.\<close>

definition logger_wrapper ::
    "log_os \<Rightarrow> (string \<Rightarrow> string list) \<Rightarrow> log_stamp \<Rightarrow> int \<Rightarrow> nat \<Rightarrow> string \<Rightarrow> int \<Rightarrow> log_world \<Rightarrow> log_world option" where
  "logger_wrapper os readdir stamp tz l log_file log_level w =
     (case new_logger readdir tz log_file 1024 (32 * 1024 * 1024) 10 of
        None \<Rightarrow> None
      | Some lg \<Rightarrow>
          (let w1 = w\<lparr>heap := om_assign l (setDispLevel (- 1) (setLogLevel log_level lg)) (heap w)\<rparr>;
               w2 = logger_setCrashDumpPath ''./'' True w1
           in map_option snd (logger_start os stamp l w2)))"

definition wrapper_set_level :: "nat \<Rightarrow> int \<Rightarrow> log_world \<Rightarrow> log_world" where
  "wrapper_set_level p l w =
     (case om_find (heap w) p of
        None \<Rightarrow> w
      | Some lg \<Rightarrow>
          (let l1 = (if l < 0 then 1 else l); l2 = (if l1 > 6 then 6 else l1)
           in w\<lparr>heap := om_assign p (setLogLevel l2 lg) (heap w)\<rparr>))"

definition wrapper_get_level :: "nat \<Rightarrow> log_world \<Rightarrow> int" where
  "wrapper_get_level p w = (case om_find (heap w) p of None \<Rightarrow> 0 | Some lg \<Rightarrow> curLogLevel lg)"

definition wrapper_put_details ::
    "log_os \<Rightarrow> log_stamp \<Rightarrow> nat \<Rightarrow> nat \<Rightarrow> (string \<times> string) option \<Rightarrow> nat \<Rightarrow> string \<Rightarrow> log_world \<Rightarrow> log_world option" where
  "wrapper_put_details os stamp p level site line_number msg w = put_at os stamp p level site line_number msg w"

text \<open>\<^verbatim>\<open>destroy\<close>: the logger is deleted after it stopped.\<close>

definition wrapper_destroy :: "log_os \<Rightarrow> log_stamp \<Rightarrow> nat \<Rightarrow> log_world \<Rightarrow> (bool \<times> log_world) option" where
  "wrapper_destroy os stamp p w =
     map_option (\<lambda>(returned, w1). (returned, w1\<lparr>heap := om_erase p (heap w1)\<rparr>)) (logger_stop os stamp p (flush_at os p w))"

end
