(* ===== verification/LoggerCrash.thy ===== *)
theory LoggerCrash
  imports LoggerMgr
begin

text \<open>
  What the logger does when the process crashes: it logs the cause, then the critical
  information and the stacks of the threads to every logger and to a dump file. The stacks the
  unwinder finds and their interpretation, which asks \<^verbatim>\<open>addr2line\<close>, are arguments, and a signal
  to another thread is the addition of that thread's stack, as the sender waits for it.
\<close>

section \<open>The messages\<close>

fun only_first_displays :: "bool \<Rightarrow> nat list \<Rightarrow> log_world \<Rightarrow> log_world" where
  "only_first_displays marked [] w = w"
| "only_first_displays marked (l # ls) w =
     (case om_find (heap w) l of
        None \<Rightarrow> only_first_displays marked ls w
      | Some lg \<Rightarrow>
          only_first_displays True ls
            (w\<lparr>heap := om_assign l
                (if \<not> marked then setDispLevel 4 (if curLogLevel lg < 4 then setLogLevel 4 lg else lg)
                 else setDispLevel (- 1) lg) (heap w)\<rparr>))"

definition enableOnlyOneDisplayer :: "log_world \<Rightarrow> log_world" where
  "enableOnlyOneDisplayer w =
     (case mgr w of None \<Rightarrow> w | Some m \<Rightarrow> only_first_displays False (loggers m) w)"

definition newline :: string where "newline = [char_of (10 :: nat)]"

definition dump_write :: "string \<Rightarrow> log_world \<Rightarrow> log_world" where
  "dump_write s w =
     (case mgr w of
        None \<Rightarrow> w
      | Some m \<Rightarrow>
          (case crashDumpFile m of
             None \<Rightarrow> w
           | Some name \<Rightarrow>
               w\<lparr>disk := om_assign name ((case om_find (disk w) name of None \<Rightarrow> [] | Some c \<Rightarrow> c) @ s) (disk w)\<rparr>))"

definition critical_message :: "string \<Rightarrow> string" where
  "critical_message info =
     '' === Critical info (given by user): '' @ digits_of (length info) @ '' bytes'' @ '' ==='' @
     (if info \<noteq> [] then newline @ info else [])"

definition flushCriticalInfo :: "log_os \<Rightarrow> log_stamp \<Rightarrow> log_world \<Rightarrow> log_world option" where
  "flushCriticalInfo os stamp w =
     (case mgr w of
        None \<Rightarrow> Some w
      | Some m \<Rightarrow>
          (let msg = critical_message (globalCriticalInfo m)
           in map_option (dump_write (msg @ newline @ newline)) (flushAllLoggers os stamp 2 msg w)))"

text \<open>\<^verbatim>\<open>substr(ii, n)\<close> for \<^verbatim>\<open>ii = 0, n, 2n, ...\<close>, with \<open>n = MSG_SIZE - 1024\<close>.\<close>

function pieces :: "nat \<Rightarrow> string \<Rightarrow> string list" where
  "pieces n s = (if s = [] \<or> n = 0 then [] else take n s # pieces n (drop n s))"
  by pat_completeness auto
termination by (relation "measure (\<lambda>(n, s). length s)") auto

declare pieces.simps [simp del]

fun flush_pieces :: "log_os \<Rightarrow> log_stamp \<Rightarrow> string list \<Rightarrow> log_world \<Rightarrow> log_world option" where
  "flush_pieces os stamp [] w = Some w"
| "flush_pieces os stamp (p # ps) w = Option.bind (flushAllLoggers os stamp 2 p w) (flush_pieces os stamp ps)"

definition hex_digit :: "nat \<Rightarrow> char" where
  "hex_digit d = (if d < 10 then char_of (48 + d) else char_of (87 + d))"

text \<open>\<^verbatim>\<open>%04x\<close> of a hash below 2^16.\<close>

definition hex4 :: "nat \<Rightarrow> string" where
  "hex4 n = map (\<lambda>k. hex_digit (n div 16 ^ k mod 16)) [3, 2, 1, 0]"

definition stack_message :: "nat \<Rightarrow> nat \<Rightarrow> bool \<Rightarrow> string \<Rightarrow> string" where
  "stack_message tid_hash kernel_tid crash_origin trace =
     newline @ ''Thread '' @ hex4 tid_hash @
     (if kernel_tid \<noteq> 0 then '' ('' @ digits_of kernel_tid @ '')'' else []) @
     (if crash_origin then '' (crashed here)'' else []) @ newline @ newline @ trace"

definition flushStackTraceBuffer ::
    "log_os \<Rightarrow> log_stamp \<Rightarrow> nat \<Rightarrow> nat \<Rightarrow> bool \<Rightarrow> string \<Rightarrow> log_world \<Rightarrow> log_world option" where
  "flushStackTraceBuffer os stamp tid_hash kernel_tid crash_origin trace w =
     (let msg = stack_message tid_hash kernel_tid crash_origin trace
      in map_option (dump_write (msg @ newline)) (flush_pieces os stamp (pieces (MSG_SIZE - 1024) msg) w))"

definition dump_file_name :: "TimeInfo \<Rightarrow> int \<Rightarrow> string" where
  "dump_file_name lt tz =
     (let tz_gap_abs = (if tz < 0 then - tz else tz)
      in ''dump_'' @ zero_padded 4 (year lt) @ zero_padded 2 (month lt) @ zero_padded 2 (day lt) @ ''_'' @
         zero_padded 2 (hour lt) @ zero_padded 2 (minute lt) @ zero_padded 2 (sec lt) @
         (if tz \<ge> 0 then ''+'' else ''-'') @ zero_padded 2 (tz_gap_abs div 60) @
         zero_padded 2 (tz_gap_abs mod 60) @ ''.txt'')"

definition dump_time :: "TimeInfo \<Rightarrow> int \<Rightarrow> string" where
  "dump_time lt tz =
     (let tz_gap_abs = (if tz < 0 then - tz else tz)
      in zero_padded 4 (year lt) @ ''-'' @ zero_padded 2 (month lt) @ ''-'' @ zero_padded 2 (day lt) @ ''T'' @
         zero_padded 2 (hour lt) @ '':'' @ zero_padded 2 (minute lt) @ '':'' @ zero_padded 2 (sec lt) @ ''.'' @
         zero_padded 3 (msec lt) @ zero_padded 3 (usec lt) @ (if tz \<ge> 0 then ''+'' else ''-'') @
         zero_padded 2 (tz_gap_abs div 60) @ '':'' @ zero_padded 2 (tz_gap_abs mod 60))"

text \<open>The start of \<^verbatim>\<open>logStackBacktrace\<close>: the timer, the dump file if there is to be one, the critical information.\<close>

definition begin_dump :: "log_os \<Rightarrow> log_stamp \<Rightarrow> TimeInfo \<Rightarrow> int \<Rightarrow> nat \<Rightarrow> log_world \<Rightarrow> log_world option" where
  "begin_dump os stamp lt tz timeout_ms w =
     (case mgr w of
        None \<Rightarrow> Some w
      | Some m \<Rightarrow>
          (let m1 = m\<lparr>abortTimer := timeout_ms\<rparr>; name = crashDumpPath m @ ''/'' @ dump_file_name lt tz;
               w1 = w\<lparr>mgr := Some m1\<rparr>;
               w2 = (if crashDumpPath m \<noteq> [] \<and> crashDumpFile m = None \<and> can_open os name
                     then dump_write (''When: '' @ dump_time lt tz @ newline @ newline)
                            (w1\<lparr>mgr := Some (m1\<lparr>crashDumpFile := Some name\<rparr>), disk := om_assign name [] (disk w)\<rparr>)
                     else w1)
           in flushCriticalInfo os stamp w2))"


text \<open>A pointer on a stream.\<close>

fun hex_of :: "nat \<Rightarrow> string" where
  "hex_of n = (if n < 16 then [hex_digit n] else hex_of (n div 16) @ [hex_digit (n mod 16)])"

declare hex_of.simps [simp del]

definition pointer_text :: "nat \<Rightarrow> string" where
  "pointer_text p = (if p = 0 then ''0'' else ''0x'' @ hex_of p)"

definition raw_stack_text :: "raw_stack \<Rightarrow> string" where
  "raw_stack_text r =
     ''Thread '' @ hex4 (tidHash r) @ '' '' @ digits_of (kernelTid r) @ newline @
     (if crashOrigin r then ''(crashed here)'' @ newline else []) @
     concat (map (\<lambda>p. pointer_text p @ newline) (stackPtrs r)) @ newline"

definition flushRawStack :: "raw_stack \<Rightarrow> log_world \<Rightarrow> log_world" where
  "flushRawStack r w = dump_write (raw_stack_text r) w"

text \<open>The caller's stack, as \<^verbatim>\<open>backtrace\<close> gives it, and the thread's numbers.\<close>

definition addRawStackInfo :: "raw_stack \<Rightarrow> bool \<Rightarrow> log_mgr \<Rightarrow> log_mgr" where
  "addRawStackInfo found crash_origin m =
     m\<lparr>crashDumpThreadStacks := crashDumpThreadStacks m @
        [found\<lparr>tidHash := tidHash found mod 65536, crashOrigin := crash_origin\<rparr>]\<rparr>"

text \<open>The handler of \<^verbatim>\<open>SIGUSR2\<close> in thread \<open>tid\<close>.\<close>

definition handleStackTrace :: "(nat \<Rightarrow> raw_stack) \<Rightarrow> nat \<Rightarrow> log_mgr \<Rightarrow> log_mgr" where
  "handleStackTrace unwind tid m =
     (if crashOriginThread m = 0 \<or> crashOriginThread m = tid then m else addRawStackInfo (unwind tid) False m)"

definition logStackBackTraceOtherThreads ::
    "log_os \<Rightarrow> log_stamp \<Rightarrow> (nat \<Rightarrow> raw_stack) \<Rightarrow> nat \<Rightarrow> log_world \<Rightarrow> log_world option" where
  "logStackBackTraceOtherThreads os stamp unwind my_tid w =
     (case mgr w of
        None \<Rightarrow> Some w
      | Some m \<Rightarrow>
          if \<not> crashDumpOriginOnly m
          then if crashOriginThread m \<noteq> 0 then Some w
               else (let w1 = w\<lparr>mgr := Some (m\<lparr>crashOriginThread := my_tid\<rparr>)\<rparr>;
                         msg = ''captured '' @ digits_of (length (activeThreads m)) @ '' active threads''
                     in Option.bind (map_option (dump_write (msg @ newline @ newline)) (flushAllLoggers os stamp 2 msg w1))
                          (\<lambda>w2. flushAllLoggers os stamp 2 ''got all stack traces, now flushing them''
                             (upd_mgr (fold (\<lambda>tid. if tid = my_tid then id else handleStackTrace unwind tid) (activeThreads m)) w2)))
          else (let msg = ''will not explore other threads (disabled by user)''
                in map_option (dump_write (msg @ newline @ newline)) (flushAllLoggers os stamp 2 msg w)))"

fun flush_stacks ::
    "log_os \<Rightarrow> log_stamp \<Rightarrow> (raw_stack \<Rightarrow> string) \<Rightarrow> raw_stack list \<Rightarrow> log_world \<Rightarrow> log_world option" where
  "flush_stacks os stamp interpret_stack [] w = Some w"
| "flush_stacks os stamp interpret_stack (r # rs) w =
     Option.bind
       (if interpret_stack r = [] then Some w
        else flushStackTraceBuffer os stamp (tidHash r) (kernelTid r) (crashOrigin r) (interpret_stack r) w)
       (flush_stacks os stamp interpret_stack rs)"

text \<open>What a crash takes from its surroundings.\<close>

record crash_env =
  crash_time :: TimeInfo
  crash_tz :: int
  my_tid :: nat
  unwind :: "nat \<Rightarrow> raw_stack"
  interpret_stack :: "raw_stack \<Rightarrow> string"

definition logStackBacktrace :: "log_os \<Rightarrow> log_stamp \<Rightarrow> crash_env \<Rightarrow> nat \<Rightarrow> log_world \<Rightarrow> log_world option" where
  "logStackBacktrace os stamp e timeout_ms w =
     Option.bind (begin_dump os stamp (crash_time e) (crash_tz e) timeout_ms w)
       (\<lambda>w1. Option.bind
          (logStackBackTraceOtherThreads os stamp (unwind e) (my_tid e)
            (upd_mgr (addRawStackInfo (unwind e (my_tid e)) True) w1))
          (\<lambda>w2. case mgr w2 of
             None \<Rightarrow> Some w2
           | Some m \<Rightarrow>
               flush_stacks os stamp (interpret_stack e) (crashDumpThreadStacks m)
                 (fold flushRawStack (crashDumpThreadStacks m) w2)))"

definition logger_logStackBacktrace :: "log_os \<Rightarrow> log_stamp \<Rightarrow> crash_env \<Rightarrow> log_world \<Rightarrow> log_world option" where
  "logger_logStackBacktrace os stamp e w =
     logStackBacktrace os stamp e 0 (enableOnlyOneDisplayer (snd (mgr_get w)))"

section \<open>The handlers\<close>

text \<open>How a handler ends; \<open>old_handler\<close> is whether there was one before.\<close>

datatype crash_end = Exits | OldHandler | HandlerReturns | Aborts

definition log_crash :: "log_os \<Rightarrow> log_stamp \<Rightarrow> crash_env \<Rightarrow> string \<Rightarrow> log_world \<Rightarrow> log_world option" where
  "log_crash os stamp e cause w =
     Option.bind (flushAllLoggers os stamp 1 cause (enableOnlyOneDisplayer (snd (mgr_get w))))
       (logStackBacktrace os stamp e 60000)"

definition exits_on_crash :: "log_os \<Rightarrow> log_world \<Rightarrow> bool" where
  "exits_on_crash os w \<longleftrightarrow> (case mgr w of None \<Rightarrow> False | Some m \<Rightarrow> chkExitOnCrash os m)"

definition handleSegFault ::
    "log_os \<Rightarrow> log_stamp \<Rightarrow> crash_env \<Rightarrow> bool \<Rightarrow> log_world \<Rightarrow> (crash_end \<times> log_world) option" where
  "handleSegFault os stamp e old_handler w =
     map_option
       (\<lambda>w1. let w2 = w1\<lparr>console := console w1 @ [''[SEG FAULT] Flushed all logs safely.'']\<rparr>
             in if exits_on_crash os w2
                then (Exits, w2\<lparr>console := console w2 @ [''[SEG FAULT] Exit on crash.'']\<rparr>)
                else (if old_handler then OldHandler else HandlerReturns, w2))
       (log_crash os stamp e ''Segmentation fault'' w)"

definition handleSegAbort :: "log_os \<Rightarrow> log_stamp \<Rightarrow> crash_env \<Rightarrow> log_world \<Rightarrow> (crash_end \<times> log_world) option" where
  "handleSegAbort os stamp e w =
     map_option
       (\<lambda>w1. let w2 = w1\<lparr>console := console w1 @ [''[ABORT] Flushed all logs safely.'']\<rparr>
             in if exits_on_crash os w2
                then (Exits, w2\<lparr>console := console w2 @ [''[ABORT] Exit on crash.'']\<rparr>)
                else (Aborts, w2))
       (log_crash os stamp e ''Abort'' w)"

end
