(* ===== verification/LoggerMgrProperties.thy ===== *)
theory LoggerMgrProperties
  imports LoggerCrash LoggerRing
begin

text \<open>
  The manager of the loggers: flushing all of them ends and leaves nothing behind in any ring,
  whatever happens to the files, and so does everything a crash handler does.
\<close>

section \<open>One logger\<close>

definition idle_ring :: "simple_logger \<Rightarrow> bool" where
  "idle_ring lg \<longleftrightarrow> (\<forall>e \<in> set (elems lg). \<not> needToFlush e)"

lemma fs_write_ring: "fs_write s lg fs = (lg', fs') \<Longrightarrow> elems lg' = elems lg \<and> cursor lg' = cursor lg"
  by (auto simp: fs_write_def Let_def split: if_splits option.splits)

lemma flush_elems_ring:
  "flush_elems is lg fs = (lg', fs') \<Longrightarrow>
    cursor lg' = cursor lg \<and> length (elems lg') = length (elems lg) \<and>
    (\<forall>j < length (elems lg).
      elems lg' ! j = (if j \<in> set is then cleaned (elems lg ! j) else elems lg ! j))"
proof (induction "is" lg fs rule: flush_elems.induct)
  case (2 i "is" lg fs)
  show ?case
  proof (cases "needToFlush (elems lg ! i)")
    case True
    let ?lg = "lg\<lparr>elems := (elems lg)[i := cleaned (elems lg ! i)]\<rparr>"
    obtain lg1 fs1 where w: "fs_write (ctx (elems lg ! i)) ?lg fs = (lg1, fs1)" by fastforce
    have e: "elem_flush (elems lg ! i) = (0, ctx (elems lg ! i), cleaned (elems lg ! i))"
      using True by (simp add: elem_flush_def needToFlush_def cleaned_def)
    have rest: "flush_elems is lg1 fs1 = (lg', fs')" using "2.prems" w by (simp add: e)
    have ih: "cursor lg' = cursor lg1" "length (elems lg') = length (elems lg1)"
      "\<And>j. j < length (elems lg1) \<Longrightarrow> elems lg' ! j = (if j \<in> set is then cleaned (elems lg1 ! j) else elems lg1 ! j)"
      using "2.IH"(2) [OF e [symmetric] refl _ w [symmetric] rest] by auto
    have idem: "cleaned (cleaned e) = cleaned e" for e by (simp add: cleaned_def needToFlush_def)
    then have "cleaned (elems lg1 ! j) = cleaned (elems lg ! j)" if "j < length (elems lg)" for j
      using that fs_write_ring [OF w] by (cases "j = i") simp_all
    with ih idem fs_write_ring [OF w] show ?thesis by (auto simp: nth_list_update)
  next
    case False
    then have "cleaned (elems lg ! i) = elems lg ! i" by (simp add: cleaned_def)
    with False "2.IH"(1) "2.prems" show ?thesis by (auto simp: elem_flush_def needToFlush_def)
  qed
qed simp

lemma logger_flush_ring:
  assumes "logger_flush opens has_mgr s lg fs = (lg', fs', rotated)"
  shows "elems lg' = map cleaned (elems lg)" and "cursor lg' = cursor lg"
proof -
  let ?order = "[s..<length (elems lg)] @ [0..<s]"
  obtain lg1 fs1 where f: "flush_elems ?order lg fs = (lg1, fs1)" by fastforce
  have all: "j \<in> set ?order" if "j < length (elems lg)" for j using that by auto
  have "elems lg' = elems lg1" "cursor lg' = cursor lg1"
    using assms f by (auto simp: logger_flush_def fs_open_def split: if_splits)
  moreover have "elems lg1 = map cleaned (elems lg)"
    using flush_elems_ring [OF f] all by (intro nth_equalityI) auto
  ultimately show "elems lg' = map cleaned (elems lg)" "cursor lg' = cursor lg"
    using flush_elems_ring [OF f] by simp_all
qed

lemma cleaned_available: "available e \<Longrightarrow> available (cleaned e) \<and> \<not> needToFlush (cleaned e)"
  by (auto simp: available_def cleaned_def needToFlush_def)

lemma flush_keeps_ring:
  assumes "logger_flush opens has_mgr s lg fs = (lg', fs', rotated)" and "ring_ok lg"
  shows "ring_ok lg'" and "idle_ring lg'"
  using assms(2) cleaned_available
  by (auto simp: ring_ok_def idle_ring_def logger_flush_ring [OF assms(1)])

lemma write_available: "available e \<Longrightarrow> available (snd (elem_write msg e))"
  by (auto simp: elem_write_def available_def)

lemma ring_ok_update: "ring_ok lg \<Longrightarrow> available e \<Longrightarrow> ring_ok (lg\<lparr>elems := (elems lg)[i := e]\<rparr>)"
  by (auto simp: ring_ok_def dest: subsetD [OF set_update_subset_insert])

lemma put_ring_returns:
  assumes "ring_ok lg"
  obtains lg' fs' rotated where "put_ring opens has_mgr msg lg fs = Some (lg', fs', rotated)" and "ring_ok lg'"
proof -
  let ?i = "cursor lg"
  let ?lg1 = "lg\<lparr>cursor := (?i + 1) mod length (elems lg)\<rparr>"
  have i: "?i < length (elems lg)" "available (elems lg ! ?i)" and n: "0 < length (elems lg)"
    using assms by (auto simp: ring_ok_def)
  have ok1: "ring_ok ?lg1" using assms n by (auto simp: ring_ok_def intro!: mod_less_divisor)
  obtain lg2 fs2 rotated where f: "(if needToFlush (elems lg ! ?i) then logger_flush opens has_mgr ?i ?lg1 fs
      else (?lg1, fs, None)) = (lg2, fs2, rotated)" by (rule prod_cases3)
  have ok2: "ring_ok lg2" "length (elems lg2) = length (elems lg)"
    using f ok1 flush_keeps_ring logger_flush_ring(1) by (auto split: if_splits)
  then have "available (elems lg2 ! ?i)" using i(1) by (simp add: ring_ok_def)
  then have "ring_ok (lg2\<lparr>elems := (elems lg2)[?i := snd (elem_write msg (elems lg2 ! ?i))]\<rparr>)"
    by (intro ring_ok_update ok2 write_available)
  moreover have "put_ring opens has_mgr msg lg fs =
      Some (lg2\<lparr>elems := (elems lg2)[?i := snd (elem_write msg (elems lg2 ! ?i))]\<rparr>, fs2, rotated)"
    using put_ring_step [OF i(2) f] .
  ultimately show thesis using that by blast
qed

lemma logger_put_returns:
  assumes "ring_ok lg"
  obtains lg' fs' rotated out where
    "logger_put opens has_mgr stamp level site line_number body lg fs = Some (lg', fs', rotated, out)" and "ring_ok lg'"
proof (cases "int level > curLogLevel lg \<or> \<not> fs_good lg")
  case True
  with assms that show thesis by (simp add: logger_put_def)
next
  case False
  obtain lg' fs' rotated where
    "put_ring opens has_mgr (put_record stamp level site line_number body lg) lg fs = Some (lg', fs', rotated)" "ring_ok lg'"
    using put_ring_returns [OF assms] .
  with False that show thesis by (simp add: logger_put_def)
qed

section \<open>All loggers\<close>

definition registered :: "log_world \<Rightarrow> nat list" where
  "registered w = (case mgr w of None \<Rightarrow> [] | Some m \<Rightarrow> loggers m)"

definition logger_at :: "(simple_logger \<Rightarrow> bool) \<Rightarrow> log_world \<Rightarrow> nat \<Rightarrow> bool" where
  "logger_at P w l \<longleftrightarrow> (case om_find (heap w) l of None \<Rightarrow> True | Some lg \<Rightarrow> P lg)"

text \<open>Every registered logger has a ring no thread works on; the same, with nothing to flush.\<close>

definition rings_ok :: "log_world \<Rightarrow> bool" where
  "rings_ok w \<longleftrightarrow> list_all (logger_at ring_ok w) (registered w)"

definition all_flushed :: "log_world \<Rightarrow> bool" where
  "all_flushed w \<longleftrightarrow> list_all (logger_at idle_ring w) (registered w)"

definition settled :: "log_world \<Rightarrow> bool" where
  "settled w \<longleftrightarrow> rings_ok w \<and> all_flushed w"

lemma upd_mgr_fields [simp]: "heap (upd_mgr f w) = heap w"
  by (simp add: upd_mgr_def)

lemma store_logger_heap: "heap (store_logger l (lg, fs, rotated) w) = om_assign l lg (heap w)"
  by (simp add: store_logger_def Let_def upd_mgr_def split: option.splits)

lemma store_logger_registered: "registered (store_logger l res w) = registered w"
  by (cases res; cases "mgr w")
    (simp_all add: store_logger_def Let_def upd_mgr_def registered_def addCompElem_def split: option.split)

lemma flush_at_outcome:
  assumes "logger_at ring_ok w l"
  shows "registered (flush_at os l w) = registered w"
    and "logger_at ring_ok (flush_at os l w) l" and "logger_at idle_ring (flush_at os l w) l"
    and "k \<noteq> l \<Longrightarrow> logger_at P (flush_at os l w) k = logger_at P w k"
proof -
  show "registered (flush_at os l w) = registered w"
    by (simp add: flush_at_def store_logger_registered split: option.split)
  show "logger_at ring_ok (flush_at os l w) l" "logger_at idle_ring (flush_at os l w) l"
    "k \<noteq> l \<Longrightarrow> logger_at P (flush_at os l w) k = logger_at P w k"
  proof (atomize (full), cases "om_find (heap w) l")
    case None
    then show "logger_at ring_ok (flush_at os l w) l \<and> logger_at idle_ring (flush_at os l w) l \<and>
        (k \<noteq> l \<longrightarrow> logger_at P (flush_at os l w) k = logger_at P w k)"
      by (simp add: flush_at_def logger_at_def)
  next
    case (Some lg)
    obtain lg' fs' rotated where f: "flushAll (can_open os) (mgr w \<noteq> None) lg (disk w) = (lg', fs', rotated)"
      by (rule prod_cases3)
    have "ring_ok lg'" "idle_ring lg'"
      using flush_keeps_ring f assms Some unfolding flushAll_def logger_at_def by auto
    then show "logger_at ring_ok (flush_at os l w) l \<and> logger_at idle_ring (flush_at os l w) l \<and>
        (k \<noteq> l \<longrightarrow> logger_at P (flush_at os l w) k = logger_at P w k)"
      using Some f by (simp add: flush_at_def logger_at_def store_logger_heap find_assign)
  qed
qed

lemma put_at_outcome:
  assumes "logger_at ring_ok w l"
  shows "\<exists>w'. put_at os stamp l level site line_number body w = Some w' \<and> registered w' = registered w
    \<and> logger_at ring_ok w' l \<and> (\<forall>k P. k \<noteq> l \<longrightarrow> logger_at P w' k = logger_at P w k)"
proof (cases "om_find (heap w) l")
  case None
  with assms show ?thesis by (simp add: put_at_def)
next
  case (Some lg)
  then have "ring_ok lg" using assms by (simp add: logger_at_def)
  then obtain lg' fs' rotated out where
    "logger_put (can_open os) (mgr w \<noteq> None) stamp level site line_number body lg (disk w) = Some (lg', fs', rotated, out)"
    "ring_ok lg'" by (rule logger_put_returns)
  with Some show ?thesis
    using store_logger_registered [of l "(lg', fs', rotated)" w]
    by (simp add: put_at_def logger_at_def store_logger_heap find_assign registered_def)
qed

lemma flush_loggers_outcome:
  "\<forall>l \<in> set ls. logger_at ring_ok w l \<Longrightarrow>
    \<exists>w'. flush_loggers os stamp level msg ls w = Some w' \<and> registered w' = registered w
      \<and> (\<forall>l \<in> set ls. logger_at ring_ok w' l \<and> logger_at idle_ring w' l)
      \<and> (\<forall>P k. k \<notin> set ls \<longrightarrow> logger_at P w' k = logger_at P w k)"
proof (induction ls arbitrary: w)
  case (Cons l ls)
  obtain w1 where w1: "(if msg \<noteq> [] then put_at os stamp l level (Some (source_name os, ''flushAllLoggers'')) 470 msg w
      else Some w) = Some w1" "registered w1 = registered w" "logger_at ring_ok w1 l"
    "\<And>k P. k \<noteq> l \<Longrightarrow> logger_at P w1 k = logger_at P w k"
  proof (cases "msg = []")
    case True
    with Cons.prems show thesis by (intro that [of w]) simp_all
  next
    case False
    have "logger_at ring_ok w l" using Cons.prems by simp
    from put_at_outcome [OF this] obtain w1 where
      "put_at os stamp l level (Some (source_name os, ''flushAllLoggers'')) 470 msg w = Some w1"
      "registered w1 = registered w" "logger_at ring_ok w1 l"
      "\<forall>k P. k \<noteq> l \<longrightarrow> logger_at P w1 k = logger_at P w k" by blast
    with False show thesis by (intro that [of w1]) simp_all
  qed
  note f = flush_at_outcome [OF w1(3), where os = os]
  have "\<forall>k \<in> set ls. logger_at ring_ok (flush_at os l w1) k"
    using Cons.prems f(2,4) w1(4) by (metis list.set_intros(2))
  from Cons.IH [OF this] obtain w' where w': "flush_loggers os stamp level msg ls (flush_at os l w1) = Some w'"
    "registered w' = registered (flush_at os l w1)" "\<forall>l \<in> set ls. logger_at ring_ok w' l \<and> logger_at idle_ring w' l"
    "\<forall>P k. k \<notin> set ls \<longrightarrow> logger_at P w' k = logger_at P (flush_at os l w1) k" by blast
  have "flush_loggers os stamp level msg (l # ls) w = Some w'" using w1(1) w'(1) by (simp only: flush_loggers.simps bind.bind_lunit)
  moreover have "logger_at ring_ok w' k \<and> logger_at idle_ring w' k" if "k \<in> set (l # ls)" for k
    using that w'(3,4) f(2,3) by (cases "k \<in> set ls") auto
  moreover have "logger_at P w' k = logger_at P w k" if "k \<notin> set (l # ls)" for P k
    using that w'(4) f(4) w1(4) by simp
  ultimately show ?case using w'(2) f(1) w1(2) by auto
qed simp

lemma flushAllLoggers_outcome:
  assumes "rings_ok w"
  shows "\<exists>w'. flushAllLoggers os stamp level msg w = Some w' \<and> registered w' = registered w \<and> settled w'"
proof (cases "mgr w")
  case None
  then show ?thesis by (simp add: flushAllLoggers_def settled_def rings_ok_def all_flushed_def registered_def)
next
  case (Some m)
  then have reg: "registered w = loggers m" by (simp add: registered_def)
  have "\<forall>l \<in> set (loggers m). logger_at ring_ok w l" using assms reg by (simp add: rings_ok_def list_all_iff)
  from flush_loggers_outcome [OF this] obtain w' where
    "flush_loggers os stamp level msg (loggers m) w = Some w'" "registered w' = registered w"
    "\<forall>l \<in> set (loggers m). logger_at ring_ok w' l \<and> logger_at idle_ring w' l" by blast
  with Some reg show ?thesis
    by (simp add: flushAllLoggers_def settled_def rings_ok_def all_flushed_def list_all_iff)
qed

section \<open>Crashes\<close>

definition settles :: "(log_world \<Rightarrow> log_world option) \<Rightarrow> bool" where
  "settles f \<longleftrightarrow> (\<forall>w. settled w \<longrightarrow> (\<exists>w'. f w = Some w' \<and> settled w'))"

named_theorems settling

lemma settledD: "settled w \<Longrightarrow> rings_ok w"
  by (simp add: settled_def)

lemma logger_at_cong: "heap w' = heap w \<Longrightarrow> logger_at P w' = logger_at P w"
  by (simp add: logger_at_def fun_eq_iff)

lemma rings_ok_cong: "registered w' = registered w \<Longrightarrow> heap w' = heap w \<Longrightarrow> rings_ok w' = rings_ok w"
  by (simp add: rings_ok_def logger_at_cong [of w' w])

lemma settled_cong: "registered w' = registered w \<Longrightarrow> heap w' = heap w \<Longrightarrow> settled w' = settled w"
  by (simp add: settled_def rings_ok_def all_flushed_def logger_at_cong [of w' w])

lemma settled_mgr:
  assumes "settled w" and "mgr w = Some m" and "loggers m' = loggers m"
  shows "settled (w\<lparr>mgr := Some m'\<rparr>)" and "settled (w\<lparr>mgr := Some m', disk := d\<rparr>)"
proof -
  have "settled (w\<lparr>mgr := Some m'\<rparr>) = settled w" "settled (w\<lparr>mgr := Some m', disk := d\<rparr>) = settled w"
    by (rule settled_cong; simp add: registered_def assms)+
  with assms(1) show "settled (w\<lparr>mgr := Some m'\<rparr>)" "settled (w\<lparr>mgr := Some m', disk := d\<rparr>)" by simp_all
qed

lemma flushAllLoggers_settles [settling]: "settles (flushAllLoggers os stamp level msg)"
  unfolding settles_def using flushAllLoggers_outcome settledD by blast

lemma settles_Some: "(\<And>w. settled w \<Longrightarrow> settled (g w)) \<Longrightarrow> settles (\<lambda>w. Some (g w))"
  by (simp add: settles_def)

lemma settles_bind: "settles f \<Longrightarrow> settles g \<Longrightarrow> settles (\<lambda>w. Option.bind (f w) g)"
  unfolding settles_def by (metis bind.bind_lunit)

lemma settles_map: "settles f \<Longrightarrow> (\<And>w. settled w \<Longrightarrow> settled (g w)) \<Longrightarrow> settles (\<lambda>w. map_option g (f w))"
  unfolding settles_def by (metis option.simps(9))

lemma settles_pre: "settles f \<Longrightarrow> (\<And>w. settled w \<Longrightarrow> settled (g w)) \<Longrightarrow> settles (\<lambda>w. f (g w))"
  unfolding settles_def by blast

lemma dump_write_settled: "settled (dump_write s w) = settled w"
  by (rule settled_cong) (simp_all add: dump_write_def registered_def split: option.split)

lemma upd_mgr_settled: "(\<And>m. loggers (f m) = loggers m) \<Longrightarrow> settled (upd_mgr f w) = settled w"
  by (rule settled_cong) (simp_all add: upd_mgr_def registered_def split: option.split)

lemma addRawStackInfo_loggers: "loggers (addRawStackInfo r b m) = loggers m"
  by (simp add: addRawStackInfo_def)

lemma other_stacks_loggers:
  "loggers (fold (\<lambda>tid. if tid = me then id else handleStackTrace unw tid) tids m) = loggers m"
  by (induction tids arbitrary: m) (simp_all add: handleStackTrace_def addRawStackInfo_loggers)

lemma flushCriticalInfo_settles [settling]: "settles (flushCriticalInfo os stamp)"
proof -
  have "settles (\<lambda>w. case mgr w of None \<Rightarrow> Some w | Some m \<Rightarrow>
      map_option (dump_write (msg m)) (flushAllLoggers os stamp 2 (msg' m) w))" for msg msg'
    using settles_map [OF flushAllLoggers_settles] dump_write_settled
    unfolding settles_def by (simp split: option.split)
  then show ?thesis unfolding flushCriticalInfo_def Let_def .
qed

lemma flush_pieces_settles [settling]: "settles (flush_pieces os stamp ps)"
proof (induction ps)
  case Nil
  show ?case by (simp add: settles_def)
next
  case (Cons p ps)
  have "settles (\<lambda>w. Option.bind (flushAllLoggers os stamp 2 p w) (flush_pieces os stamp ps))"
    by (intro settles_bind settling Cons)
  then show ?case unfolding settles_def by simp
qed

lemma flushStackTraceBuffer_settles [settling]: "settles (flushStackTraceBuffer os stamp h k c t)"
proof -
  have "settles (\<lambda>w. map_option (dump_write d) (flush_pieces os stamp ps w))" for d ps
    by (intro settles_map settling) (simp add: dump_write_settled)
  then show ?thesis unfolding flushStackTraceBuffer_def settles_def Let_def by blast
qed

lemma flush_stacks_settles [settling]: "settles (flush_stacks os stamp interp rs)"
proof (induction rs)
  case Nil
  show ?case by (simp add: settles_def)
next
  case (Cons r rs)
  have "settles (\<lambda>w. if interp r = [] then Some w
      else flushStackTraceBuffer os stamp (tidHash r) (kernelTid r) (crashOrigin r) (interp r) w)"
    using flushStackTraceBuffer_settles unfolding settles_def by simp
  from settles_bind [OF this Cons] show ?case unfolding settles_def by simp
qed

lemma flushRawStacks_settled: "settled (fold flushRawStack rs w) = settled w"
  by (induction rs arbitrary: w) (simp_all add: flushRawStack_def dump_write_settled)

lemma begin_dump_settles [settling]: "settles (begin_dump os stamp lt tz timeout_ms)"
  unfolding settles_def
proof (intro allI impI)
  fix w
  assume w: "settled w"
  show "\<exists>w'. begin_dump os stamp lt tz timeout_ms w = Some w' \<and> settled w'"
  proof (cases "mgr w")
    case None
    with w show ?thesis by (simp add: begin_dump_def)
  next
    case (Some m)
    let ?name = "crashDumpPath m @ ''/'' @ dump_file_name lt tz"
    have "settled (w\<lparr>mgr := Some (m\<lparr>abortTimer := timeout_ms\<rparr>)\<rparr>)"
      "settled (w\<lparr>mgr := Some (m\<lparr>abortTimer := timeout_ms, crashDumpFile := Some ?name\<rparr>), disk := om_assign ?name [] (disk w)\<rparr>)"
      by (rule settled_mgr [OF w Some]; simp)+
    then show ?thesis
      using Some flushCriticalInfo_settles [of os stamp] dump_write_settled
      unfolding settles_def begin_dump_def by (simp add: Let_def)
  qed
qed

lemma otherThreads_settles [settling]: "settles (logStackBackTraceOtherThreads os stamp unw me)"
  unfolding settles_def
proof (intro allI impI)
  fix w
  assume w: "settled w"
  have flush_dump: "settles (\<lambda>w. map_option (dump_write d) (flushAllLoggers os stamp level msg w))" for d level msg
    by (intro settles_map settling) (simp add: dump_write_settled)
  show "\<exists>w'. logStackBackTraceOtherThreads os stamp unw me w = Some w' \<and> settled w'"
  proof (cases "mgr w")
    case None
    with w show ?thesis by (simp add: logStackBackTraceOtherThreads_def)
  next
    case (Some m)
    let ?w = "w\<lparr>mgr := Some (m\<lparr>crashOriginThread := me\<rparr>)\<rparr>"
    let ?others = "fold (\<lambda>tid. if tid = me then id else handleStackTrace unw tid) (activeThreads m)"
    have "settled ?w" by (rule settled_mgr [OF w Some]) simp
    moreover have "settles (\<lambda>w. Option.bind (map_option (dump_write d) (flushAllLoggers os stamp level msg w))
        (\<lambda>w. flushAllLoggers os stamp level' msg' (upd_mgr ?others w)))" for d level msg level' msg'
      by (intro settles_bind flush_dump settles_pre [OF flushAllLoggers_settles])
        (simp add: upd_mgr_settled other_stacks_loggers)
    ultimately show ?thesis
      using w Some flush_dump unfolding settles_def logStackBackTraceOtherThreads_def by (simp add: Let_def)
  qed
qed

lemma logStackBacktrace_settles [settling]: "settles (logStackBacktrace os stamp e timeout_ms)"
proof -
  have "settles (\<lambda>w. case mgr w of None \<Rightarrow> Some w | Some m \<Rightarrow>
      flush_stacks os stamp (interpret_stack e) (crashDumpThreadStacks m) (fold flushRawStack (crashDumpThreadStacks m) w))"
    using flush_stacks_settles flushRawStacks_settled unfolding settles_def by (simp split: option.split)
  moreover have "settles (\<lambda>w. logStackBackTraceOtherThreads os stamp (unwind e) (my_tid e)
      (upd_mgr (addRawStackInfo (unwind e (my_tid e)) True) w))"
    by (rule settles_pre [OF otherThreads_settles]) (simp add: upd_mgr_settled addRawStackInfo_loggers)
  ultimately show ?thesis unfolding logStackBacktrace_def by (intro settles_bind settling)
qed

lemma only_first_displays_keeps:
  "registered (only_first_displays marked ls w) = registered w
    \<and> (logger_at ring_ok (only_first_displays marked ls w) k \<longleftrightarrow> logger_at ring_ok w k)"
proof (induction marked ls w rule: only_first_displays.induct)
  case (2 marked l ls w)
  show ?case
  proof (cases "om_find (heap w) l")
    case None
    with 2 show ?thesis by simp
  next
    case (Some lg)
    have "ring_ok (setDispLevel d lg) = ring_ok lg" "ring_ok (setLogLevel d lg) = ring_ok lg" for d lg
      by (simp_all add: setDispLevel_def setLogLevel_def ring_ok_def)
    with Some "2.IH"(2) [OF Some] show ?thesis by (simp add: logger_at_def find_assign registered_def)
  qed
qed simp

lemma enableOnlyOneDisplayer_rings: "rings_ok (enableOnlyOneDisplayer w) = rings_ok w"
  using only_first_displays_keeps
  by (simp add: enableOnlyOneDisplayer_def rings_ok_def list_all_iff split: option.split)

lemma mgr_get_rings: "rings_ok (snd (mgr_get w)) = rings_ok w"
  by (rule rings_ok_cong) (simp_all add: mgr_get_def registered_def new_mgr_def split: option.split)

lemma log_crash_outcome:
  assumes "rings_ok w"
  shows "\<exists>w'. log_crash os stamp e cause w = Some w' \<and> settled w'"
proof -
  have "rings_ok (enableOnlyOneDisplayer (snd (mgr_get w)))"
    using assms by (simp add: enableOnlyOneDisplayer_rings mgr_get_rings)
  from flushAllLoggers_outcome [OF this, of os stamp 1 cause] obtain w1 where
    "flushAllLoggers os stamp 1 cause (enableOnlyOneDisplayer (snd (mgr_get w))) = Some w1" "settled w1" by blast
  with logStackBacktrace_settles [of os stamp e 60000] show ?thesis by (simp add: log_crash_def settles_def)
qed

lemma console_rest:
  "all_flushed (w\<lparr>console := c\<rparr>) = all_flushed w" "exits_on_crash os (w\<lparr>console := c\<rparr>) = exits_on_crash os w"
proof -
  have "logger_at P (w\<lparr>console := c\<rparr>) = logger_at P w" for P by (rule logger_at_cong) simp
  then show "all_flushed (w\<lparr>console := c\<rparr>) = all_flushed w" by (simp add: all_flushed_def registered_def)
  show "exits_on_crash os (w\<lparr>console := c\<rparr>) = exits_on_crash os w" by (simp add: exits_on_crash_def)
qed

text \<open>Flushing all loggers always returns and leaves nothing behind: when no thread is at work in
  a ring, every registered logger then has a ring without a dirty record, even
  if its file cannot be written or opened, and the set of loggers is the same.\<close>

theorem flush_all_cleans:
  assumes "rings_ok w"
  shows "\<exists>w'. flushAllLoggers os stamp level msg w = Some w' \<and> registered w' = registered w
    \<and> all_flushed w' \<and> rings_ok w'"
  using flushAllLoggers_outcome [OF assms] unfolding settled_def by blast


section \<open>An example\<close>

definition demo_world :: log_world where
  "demo_world =
     \<lparr>mgr = Some (new_mgr\<lparr>loggers := [1]\<rparr>),
      heap = [(1, \<lparr>filePath = ''l'', minRevnum = 0, curRevnum = 0, maxLogFiles = 2, fs_file = Some ''l'', fs_good = True,
        tellp = 0, maxLogFileSize = 0, numCompJobs = 0, curLogLevel = 4, curDispLevel = - 1, tzGap = 0, cursor = 1,
        elems = [\<lparr>ctx = ''a'', status = DIRTY\<rparr>, new_elem]\<rparr>)],
      disk = [(''l'', [])], console = []\<rparr>"

text \<open>A file system that refuses everything, and a crash in thread 7.\<close>

definition demo_os :: log_os where
  "demo_os = \<lparr>can_open = (\<lambda>_. False), shell = (\<lambda>_ fs. fs), getenv = (\<lambda>_. None), source_name = ''debugger.cc''\<rparr>"

definition crash_stamp :: log_stamp where
  "crash_stamp =
     \<lparr>stamp_time = \<lparr>year = 2024, month = 5, day = 1, hour = 9, minute = 0, sec = 7, msec = 12, usec = 345\<rparr>,
      stamp_width = 2, stamp_tid = 7, stack_buf = replicate MSG_SIZE NUL\<rparr>"

definition demo_crash :: crash_env where
  "demo_crash =
     \<lparr>crash_time = stamp_time crash_stamp, crash_tz = - 300, my_tid = 7,
      unwind = (\<lambda>t. \<lparr>tidHash = t, kernelTid = t, stackPtrs = [4096], crashOrigin = False\<rparr>),
      interpret_stack = (\<lambda>r. ''main'')\<rparr>"

lemma demo_world_rings: "rings_ok demo_world"
  by (simp add: rings_ok_def registered_def logger_at_def demo_world_def ring_ok_def available_def new_elem_def)

theorem flush_all_cleans_witness:
  "\<not> all_flushed demo_world
    \<and> (\<exists>w'. flushAllLoggers demo_os crash_stamp 0 ''m'' demo_world = Some w' \<and> registered w' = [1] \<and> all_flushed w')"
proof -
  have "registered demo_world = [1]" by (simp add: registered_def demo_world_def)
  moreover have "\<not> all_flushed demo_world"
    by (simp add: all_flushed_def registered_def logger_at_def demo_world_def idle_ring_def needToFlush_def)
  ultimately show ?thesis using flush_all_cleans [OF demo_world_rings, of demo_os crash_stamp 0 "''m''"] by auto
qed


end
