(* ===== verification/TestSuite.thy ===== *)
theory TestSuite
  imports LoggerCore "HOL-Library.Signed_Division"
begin

text \<open>
  The test suite class and the RPC counters of \<^verbatim>\<open>include/utility.h\<close>: ranges of parameters,
  the command line, running and reporting tests, the enumeration of parameter combinations,
  and the text helpers the program uses in its own messages. Parameters are integers. How a
  stream prints a quotient of floating-point numbers with a precision (\<open>fixed\<close>), the number of
  steps of an exponential range, which comes from \<^verbatim>\<open>std::log\<close>, and the time a test takes are
  arguments.
\<close>

section \<open>RPC counters\<close>

datatype rpc_type = incoming | outgoing

record Statistics =
  incount :: "(string, int) omap"
  outcount :: "(string, int) omap"

definition bump :: "string \<Rightarrow> (string, int) omap \<Rightarrow> (string, int) omap" where
  "bump s m = om_assign s (case om_find m s of None \<Rightarrow> 1 | Some i \<Rightarrow> i + 1) m"

definition increment :: "rpc_type \<Rightarrow> string \<Rightarrow> Statistics \<Rightarrow> Statistics" where
  "increment t s st =
     (case t of
        incoming \<Rightarrow> st\<lparr>incount := bump s (incount st)\<rparr>
      | outgoing \<Rightarrow> st\<lparr>outcount := bump s (outcount st)\<rparr>)"

section \<open>Ranges\<close>

datatype RangeType = NONE | ARRAY | LINEAR | EXPONENTIAL

datatype StepType = LinearSteps | ExponentialSteps

record TestRange =
  range_type :: RangeType
  range_array :: "int list"
  range_begin :: int
  range_end :: int
  range_step :: int

definition empty_range :: TestRange where
  "empty_range = \<lparr>range_type = NONE, range_array = [], range_begin = 0, range_end = 0, range_step = 0\<rparr>"

definition array_range :: "int list \<Rightarrow> TestRange" where
  "array_range a = \<lparr>range_type = ARRAY, range_array = a, range_begin = 0, range_end = 0, range_step = 0\<rparr>"

definition step_range :: "int \<Rightarrow> int \<Rightarrow> int \<Rightarrow> StepType \<Rightarrow> TestRange" where
  "step_range b e s t =
     \<lparr>range_type = (case t of LinearSteps \<Rightarrow> LINEAR | ExponentialSteps \<Rightarrow> EXPONENTIAL), range_array = [],
      range_begin = b, range_end = e, range_step = s\<rparr>"

text \<open>An index outside the array is undefined.\<close>

definition getEntry :: "TestRange \<Rightarrow> nat \<Rightarrow> int result" where
  "getEntry r idx =
     (case range_type r of
        ARRAY \<Rightarrow> if idx < length (range_array r) then Inr (range_array r ! idx) else Inl UndefinedBehaviour
      | LINEAR \<Rightarrow> Inr (range_begin r + range_step r * int idx)
      | EXPONENTIAL \<Rightarrow> Inr (range_begin r * range_step r ^ idx)
      | NONE \<Rightarrow> Inr (range_begin r))"

definition getSteps :: "(int \<Rightarrow> int \<Rightarrow> nat) \<Rightarrow> TestRange \<Rightarrow> nat result" where
  "getSteps log_steps r =
     (case range_type r of
        ARRAY \<Rightarrow> Inr (length (range_array r))
      | LINEAR \<Rightarrow>
          if range_step r = 0 then Inl UndefinedBehaviour
          else Inr (nat (((range_end r - range_begin r) sdiv range_step r + 1) mod 2 ^ 64))
      | EXPONENTIAL \<Rightarrow>
          if range_begin r = 0 then Inl UndefinedBehaviour
          else Inr (log_steps (range_end r sdiv range_begin r) (range_step r))
      | NONE \<Rightarrow> Inr 0)"

section \<open>Text\<close>

text \<open>\<open>fixed p a b\<close>: the quotient of \<open>a\<close> and \<open>b\<close> with \<open>p\<close> decimals.\<close>

type_synonym fixed = "nat \<Rightarrow> nat \<Rightarrow> nat \<Rightarrow> string"

definition usToString :: "fixed \<Rightarrow> nat \<Rightarrow> string" where
  "usToString fixed us =
     (if us < 1000 then digits_of us @ '' us''
      else if us < 1000000 then fixed 1 us 1000 @ '' ms''
      else if us < 600 * 1000000 then fixed 1 us 1000000 @ '' s''
      else fixed 0 us (60 * 1000000) @ '' m'')"

definition countToString :: "fixed \<Rightarrow> nat \<Rightarrow> string" where
  "countToString fixed count =
     (if count < 1000 then digits_of count
      else if count < 1000000 then fixed 1 count 1000 @ ''K''
      else if count < 1000000000 then fixed 1 count 1000000 @ ''M''
      else fixed 1 count 1000000000 @ ''B'')"

definition sizeToString :: "fixed \<Rightarrow> nat \<Rightarrow> string" where
  "sizeToString fixed sz =
     (if sz < 1024 then digits_of sz @ '' B''
      else if sz < 1024 * 1024 then fixed 1 sz 1024 @ '' KiB''
      else if sz < 1024 * 1024 * 1024 then fixed 1 sz (1024 * 1024) @ '' MiB''
      else fixed 1 sz (1024 * 1024 * 1024) @ '' GiB'')"

definition lzStr :: "nat \<Rightarrow> nat \<Rightarrow> string" where
  "lzStr digit num = replicate (digit - length (digits_of num)) (CHR ''0'') @ digits_of num"

text \<open>64-bit products; a division by zero is undefined.\<close>

definition per_second :: "u64 \<Rightarrow> u64 \<Rightarrow> nat result" where
  "per_second n elapsed_us =
     (if elapsed_us = 0 then Inl UndefinedBehaviour else Inr (unat (n * 1000000) div unat elapsed_us))"

definition throughputStr :: "fixed \<Rightarrow> u64 \<Rightarrow> u64 \<Rightarrow> string result" where
  "throughputStr fixed ops elapsed_us = map_sum id (countToString fixed) (per_second ops elapsed_us)"

definition sizeThroughputStr :: "fixed \<Rightarrow> u64 \<Rightarrow> u64 \<Rightarrow> string result" where
  "sizeThroughputStr fixed size_byte elapsed_us = map_sum id (sizeToString fixed) (per_second size_byte elapsed_us)"

definition getTestFileName :: "TimeInfo \<Rightarrow> string \<Rightarrow> string" where
  "getTestFileName lt prefix =
     prefix @ ''_'' @ zero_padded 4 (year lt) @ zero_padded 2 (month lt) @ zero_padded 2 (day lt) @ ''_'' @
     zero_padded 2 (hour lt) @ zero_padded 2 (minute lt) @ zero_padded 2 (sec lt)"

definition getTimeString :: "TimeInfo \<Rightarrow> string" where
  "getTimeString lt =
     zero_padded 4 (year lt) @ ''-'' @ zero_padded 2 (month lt) @ ''-'' @ zero_padded 2 (day lt) @ '' '' @
     zero_padded 2 (hour lt) @ '':'' @ zero_padded 2 (minute lt) @ '':'' @ zero_padded 2 (sec lt) @ ''.'' @
     zero_padded 3 (msec lt) @ zero_padded 3 (usec lt)"

definition getTimeStringShort :: "TimeInfo \<Rightarrow> string" where
  "getTimeStringShort lt =
     zero_padded 2 (minute lt) @ '':'' @ zero_padded 2 (sec lt) @ ''.'' @ zero_padded 3 (msec lt) @ '' '' @
     zero_padded 3 (usec lt)"

definition getTimeStringPlain :: "TimeInfo \<Rightarrow> string" where
  "getTimeStringPlain lt =
     zero_padded 2 (month lt) @ zero_padded 2 (day lt) @ ''_'' @ zero_padded 2 (hour lt) @
     zero_padded 2 (minute lt) @ zero_padded 2 (sec lt)"

section \<open>The suite\<close>

text \<open>
  The object with the class's static variables; \<open>printed\<close> is what it prints and \<open>world\<close> what
  the tests change.
\<close>

record 'w suite =
  cntPass :: nat
  cntFail :: nat
  test_filter :: string
  useGivenRange :: bool
  preserveTestFiles :: bool
  forceAbortOnFailure :: bool
  suppressMsg :: bool
  displayMsg :: bool
  givenRange :: int
  printTestMessage :: bool
  abortOnFailure :: bool
  preserveOption :: bool
  globalMsgFlag :: bool
  cur_test :: bool
  res_msg :: string
  info_msg :: string
  test_name :: string
  printed :: string
  world :: 'w

definition new_suite :: "'w \<Rightarrow> 'w suite" where
  "new_suite w =
     \<lparr>cntPass = 0, cntFail = 0, test_filter = [], useGivenRange = False, preserveTestFiles = False,
      forceAbortOnFailure = False, suppressMsg = False, displayMsg = False, givenRange = 0,
      printTestMessage = False, abortOnFailure = False, preserveOption = False, globalMsgFlag = False,
      cur_test = False, res_msg = [], info_msg = [], test_name = [], printed = [], world = w\<rparr>"

definition put_text :: "string \<Rightarrow> 'w suite \<Rightarrow> 'w suite" where
  "put_text s t = t\<lparr>printed := printed t @ s\<rparr>"

definition test_messages :: "'w suite \<Rightarrow> bool" where
  "test_messages t \<longleftrightarrow> (printTestMessage t \<or> displayMsg t) \<and> \<not> suppressMsg t"

definition isMsgAllowed :: "'w suite \<Rightarrow> bool" where
  "isMsgAllowed t \<longleftrightarrow> (cur_test t \<and> test_messages t) \<or> globalMsgFlag t"

definition msg_out :: "string \<Rightarrow> 'w suite \<Rightarrow> nat \<times> 'w suite" where
  "msg_out s t = (if isMsgAllowed t then (length s, put_text s t) else (0, t))"

definition setInfo :: "string \<Rightarrow> 'w suite \<Rightarrow> 'w suite" where
  "setInfo s t = t\<lparr>info_msg := take 4095 s\<rparr>"

definition clearInfo :: "'w suite \<Rightarrow> 'w suite" where
  "clearInfo t = t\<lparr>info_msg := []\<rparr>"

definition eol :: string where "eol = [char_of (10 :: nat)]"

definition failHandler :: "'w suite \<Rightarrow> 'w suite" where
  "failHandler t = (if info_msg t \<noteq> [] then put_text (''        info: '' @ info_msg t @ eol) t else t)"

definition setResultMessage :: "string \<Rightarrow> 'w suite \<Rightarrow> 'w suite" where
  "setResultMessage msg t = t\<lparr>res_msg := msg\<rparr>"

definition appendResultMessage :: "string \<Rightarrow> 'w suite \<Rightarrow> 'w suite" where
  "appendResultMessage msg t = t\<lparr>res_msg := res_msg t @ msg\<rparr>"

section \<open>The command line\<close>

text \<open>
  The constructor's loop. A value that follows \<^verbatim>\<open>-f\<close> or \<^verbatim>\<open>-r\<close> becomes the word the later tests
  of the same round look at. \<open>None\<close>: help is printed and the process ends.
\<close>

definition filter_arg :: "string list \<Rightarrow> nat \<times> 'w suite \<Rightarrow> nat \<times> 'w suite" where
  "filter_arg argv st =
     (case st of (ii, t) \<Rightarrow>
       if ii < length argv - 1 \<and> (argv ! ii = ''-f'' \<or> argv ! ii = ''--filter'')
       then (ii + 1, t\<lparr>test_filter := argv ! (ii + 1)\<rparr>) else (ii, t))"

definition range_arg :: "string list \<Rightarrow> nat \<times> 'w suite \<Rightarrow> nat \<times> 'w suite" where
  "range_arg argv st =
     (case st of (ii, t) \<Rightarrow>
       if ii < length argv - 1 \<and> (argv ! ii = ''-r'' \<or> argv ! ii = ''--range'')
       then (ii + 1, t\<lparr>givenRange := atoi (argv ! (ii + 1)), useGivenRange := True\<rparr>) else (ii, t))"

definition flag_args :: "string \<Rightarrow> 'w suite \<Rightarrow> 'w suite" where
  "flag_args a t =
     (let t1 = (if a = ''-p'' \<or> a = ''--preserve'' then t\<lparr>preserveTestFiles := True\<rparr> else t);
          t2 = (if a = ''--abort-on-failure'' then t1\<lparr>forceAbortOnFailure := True\<rparr> else t1);
          t3 = (if a = ''--suppress-msg'' then t2\<lparr>suppressMsg := True\<rparr> else t2)
      in if a = ''--display-msg'' \<and> \<not> suppressMsg t3 then t3\<lparr>displayMsg := True\<rparr> else t3)"

lemma arg_progress: "ii < Suc (fst (range_arg argv (filter_arg argv (ii, t))))"
  by (simp add: filter_arg_def range_arg_def)

function parse_args :: "string list \<Rightarrow> nat \<Rightarrow> 'w suite \<Rightarrow> 'w suite option" where
  "parse_args argv ii t =
     (if length argv \<le> ii then Some t
      else (let st = range_arg argv (filter_arg argv (ii, t));
                t' = flag_args (argv ! fst st) (snd st)
            in if argv ! fst st = ''-h'' \<or> argv ! fst st = ''--help'' then None
               else parse_args argv (fst st + 1) t'))"
  by pat_completeness auto
termination
  by (relation "measure (\<lambda>(argv, ii, t). length argv - ii)")
    (auto intro!: diff_less_mono2 arg_progress)

declare parse_args.simps [simp del]

definition make_suite :: "string list \<Rightarrow> 'w \<Rightarrow> 'w suite option" where
  "make_suite argv w = parse_args argv 1 (new_suite w)"

section \<open>Running a test\<close>

definition matchFilter :: "string \<Rightarrow> 'w suite \<Rightarrow> bool" where
  "matchFilter name t \<longleftrightarrow> test_filter t = [] \<or> find_from name (test_filter t) 0 \<noteq> None"

definition gray :: "string \<Rightarrow> string" where
  "gray s = CLM_D_GRAY @ s @ CLM_END"

definition readyTest :: "string \<Rightarrow> 'w suite \<Rightarrow> 'w suite" where
  "readyTest name t =
     (let t1 = put_text (''[ .... ] '' @ name @ eol) t;
          t2 = (if test_messages t1 then put_text (gray (''   === TEST MESSAGE (BEGIN) ==='' @ eol)) t1 else t1)
      in t2\<lparr>test_name := name\<rparr>)"

text \<open>
  \<open>tm\<close> is the text of the time since the test began. The line is built in a buffer of 1024
  characters without a bound; \<^verbatim>\<open>abort\<close> is the result \<open>Terminate\<close>.
\<close>

definition reportTestResult :: "('w suite \<Rightarrow> string) \<Rightarrow> string \<Rightarrow> int \<Rightarrow> 'w suite \<Rightarrow> 'w suite result" where
  "reportTestResult tm name result t =
     (let msg = name @ '' ('' @ CLM_BROWN @ tm t @ CLM_END @ '')'' @ (if res_msg t = [] then [] else '': '') @ res_msg t;
          t1 = (if result < 0
                then (put_text (''[ '' @ ESC @ ''[31mFAIL'' @ CLM_END @ '' ] '' @ msg @ eol) t)\<lparr>cntFail := cntFail t + 1\<rparr>
                else (put_text ((if test_messages t then gray (''   === TEST MESSAGE (END) ==='' @ eol)
                             else ESC @ ''[1A'' @ [char_of (13 :: nat)]) @
                            ''[ '' @ CLM_GREEN @ ''PASS'' @ CLM_END @ '' ] '' @ msg @ eol) t)\<lparr>cntPass := cntPass t + 1\<rparr>)
      in if 1024 \<le> length msg then Inl UndefinedBehaviour
         else if result \<noteq> 0 \<and> (abortOnFailure t \<or> forceAbortOnFailure t) then Inl Terminate
         else Inr (t1\<lparr>test_name := []\<rparr>))"

definition run_test ::
    "('w suite \<Rightarrow> string) \<Rightarrow> string \<Rightarrow> ('w suite \<Rightarrow> int \<times> 'w suite) \<Rightarrow> 'w suite \<Rightarrow> 'w suite result" where
  "run_test tm name func t =
     (case func ((readyTest name t)\<lparr>res_msg := [], info_msg := [], cur_test := True\<rparr>) of
        (ret, t') \<Rightarrow> reportTestResult tm name ret t')"

definition doTest ::
    "('w suite \<Rightarrow> string) \<Rightarrow> string \<Rightarrow> ('w suite \<Rightarrow> int \<times> 'w suite) \<Rightarrow> 'w suite \<Rightarrow> 'w suite result" where
  "doTest tm name func t = (if \<not> matchFilter name t then Inr t else run_test tm name func t)"

fun for_steps :: "('a \<Rightarrow> 's \<Rightarrow> 's result) \<Rightarrow> 'a list \<Rightarrow> 's \<Rightarrow> 's result" where
  "for_steps f [] s = Inr s"
| "for_steps f (i # is) s = (case f i s of Inl e \<Rightarrow> Inl e | Inr s' \<Rightarrow> for_steps f is s')"

lemma for_steps_cong [fundef_cong]:
  "(\<And>i s. i \<in> set is \<Longrightarrow> f i s = g i s) \<Longrightarrow> is = js \<Longrightarrow> s = s' \<Longrightarrow> for_steps f is s = for_steps g js s'"
proof (induction "is" arbitrary: js s s')
  case (Cons i "is")
  then show ?case by (auto split: sum.split)
qed simp

definition doTest_range ::
    "('w suite \<Rightarrow> string) \<Rightarrow> (int \<Rightarrow> int \<Rightarrow> nat) \<Rightarrow> string \<Rightarrow> (int \<Rightarrow> 'w suite \<Rightarrow> int \<times> 'w suite) \<Rightarrow> TestRange \<Rightarrow>
     'w suite \<Rightarrow> 'w suite result" where
  "doTest_range tm log_steps name func rng t =
     (if \<not> matchFilter name t then Inr t
      else case (if useGivenRange t then Inr 1 else getSteps log_steps rng) of
             Inl e \<Rightarrow> Inl e
           | Inr n \<Rightarrow>
               for_steps
                 (\<lambda>i t. case (if useGivenRange t then Inr (givenRange t) else getEntry rng i) of
                    Inl e \<Rightarrow> Inl e
                  | Inr cur_arg \<Rightarrow> run_test tm (name @ '' ('' @ to_string cur_arg @ '')'') (func cur_arg) t)
                 [0..<n] t)"

section \<open>Combinations of parameters\<close>

text \<open>
  An object of class \<^verbatim>\<open>TestArgsBase\<close>: the ranges, fixed, and the current values. \<^verbatim>\<open>toString\<close>
  separates the values by commas.
\<close>

fun args_text :: "int list \<Rightarrow> string" where
  "args_text [] = []"
| "args_text [a] = to_string a"
| "args_text (a # as) = to_string a @ '', '' @ args_text as"

definition combination_name :: "string \<Rightarrow> int list \<Rightarrow> string" where
  "combination_name name args = (if args_text args = [] then [] else name @ '' ('' @ args_text args @ '')'')"

definition setParam :: "TestRange list \<Rightarrow> nat \<Rightarrow> nat \<Rightarrow> int list \<Rightarrow> int list result" where
  "setParam ranges param_no param_idx args =
     (if param_no < length ranges
      then map_sum id (\<lambda>v. args[param_no := v]) (getEntry (ranges ! param_no) param_idx) else Inr args)"

definition getNumSteps :: "(int \<Rightarrow> int \<Rightarrow> nat) \<Rightarrow> TestRange list \<Rightarrow> nat \<Rightarrow> nat result" where
  "getNumSteps log_steps ranges param_no =
     (if param_no < length ranges then getSteps log_steps (ranges ! param_no) else Inr 0)"

function testAllInternal ::
    "('w suite \<Rightarrow> string) \<Rightarrow> (int \<Rightarrow> int \<Rightarrow> nat) \<Rightarrow> string \<Rightarrow> (int list \<Rightarrow> 'w suite \<Rightarrow> int \<times> 'w suite) \<Rightarrow> TestRange list \<Rightarrow>
     nat \<Rightarrow> int list \<times> 'w suite \<Rightarrow> (int list \<times> 'w suite) result" where
  "testAllInternal tm log_steps name func ranges depth st =
     (case getNumSteps log_steps ranges depth of
        Inl e \<Rightarrow> Inl e
      | Inr n_steps \<Rightarrow>
          for_steps
            (\<lambda>i st. case setParam ranges depth i (fst st) of
               Inl e \<Rightarrow> Inl e
             | Inr args \<Rightarrow>
                 if depth + 1 < length ranges
                 then testAllInternal tm log_steps name func ranges (depth + 1) (args, snd st)
                 else map_sum id (Pair args) (run_test tm (combination_name name args) (func args) (snd st)))
            [0..<n_steps] st)"
  by pat_completeness auto
termination
  by (relation "measure (\<lambda>(tm, log_steps, name, func, ranges, depth, st). length ranges - depth)") auto

declare testAllInternal.simps [simp del]

definition doTest_args ::
    "('w suite \<Rightarrow> string) \<Rightarrow> (int \<Rightarrow> int \<Rightarrow> nat) \<Rightarrow> string \<Rightarrow> (int list \<Rightarrow> 'w suite \<Rightarrow> int \<times> 'w suite) \<Rightarrow> TestRange list \<Rightarrow>
     int list \<Rightarrow> 'w suite \<Rightarrow> (int list \<times> 'w suite) result" where
  "doTest_args tm log_steps name func ranges args t =
     (if \<not> matchFilter name t then Inr (args, t)
      else testAllInternal tm log_steps name func ranges 0 (args, t))"

section \<open>Test files\<close>

datatype TestPosition = BEGINNING_OF_TEST | MIDDLE_OF_TEST | END_OF_TEST

definition clearTestFile :: "shell \<Rightarrow> string \<Rightarrow> TestPosition \<Rightarrow> 'w suite \<Rightarrow> files \<Rightarrow> files" where
  "clearTestFile sh prefix test_pos t fs =
     (if test_pos = END_OF_TEST \<and> (preserveTestFiles t \<or> preserveOption t) then fs
      else sh (''rm -rf '' @ prefix @ ''*'') fs)"

definition copyfile :: "shell \<Rightarrow> string \<Rightarrow> string \<Rightarrow> files \<Rightarrow> files" where
  "copyfile sh src dst fs = sh (''cp -R '' @ src @ '' '' @ dst) fs"

text \<open>The destructor's line; \<open>total_time\<close> is the text of the suite's time.\<close>

definition suite_summary :: "string \<Rightarrow> 'w suite \<Rightarrow> string" where
  "suite_summary total_time t =
     CLM_GREEN @ digits_of (cntPass t) @ CLM_END @ '' tests passed'' @
     (if cntFail t \<noteq> 0 then '', '' @ ESC @ ''[31m'' @ digits_of (cntFail t) @ CLM_END @ '' tests failed'' else []) @
     '' out of '' @ CLM_CYAN @ digits_of (cntPass t + cntFail t) @ CLM_END @ '' ('' @ CLM_BROWN @ total_time @ CLM_END @ '')'' @ eol"

section \<open>Progress and tables\<close>

record Progress =
  curValue :: u64
  progress_num :: u64
  lastPrintTimeUs :: u64
  progress_comment :: string
  progress_unit :: string

definition labelled :: "string \<Rightarrow> string \<Rightarrow> string" where
  "labelled s suffix = (if s = [] then [] else s @ suffix)"

definition progress_update :: "fixed \<Rightarrow> u64 \<Rightarrow> u64 \<Rightarrow> Progress \<Rightarrow> 'w suite \<Rightarrow> Progress \<times> 'w suite" where
  "progress_update fixed now_us cur p t =
     (let p1 = p\<lparr>curValue := cur\<rparr>;
          show_it = now_us - lastPrintTimeUs p1 > 50000 \<or> cur = 0 \<or> cur \<ge> progress_num p1;
          p2 = (if show_it then p1\<lparr>lastPrintTimeUs := now_us\<rparr> else p1);
          line = [char_of (13 :: nat)] @ labelled (progress_comment p) '': '' @ digits_of (unat cur) @ ''/'' @
            digits_of (unat (progress_num p)) @ '' '' @ labelled (progress_unit p) '' '' @ ''('' @
            fixed 1 (unat cur * 100) (unat (progress_num p)) @ ''%)'';
          t1 = (if show_it then snd (msg_out line t) else t)
      in (p2, if cur \<ge> progress_num p1 then snd (msg_out eol t1) else t1))"

definition progress_done :: "fixed \<Rightarrow> u64 \<Rightarrow> Progress \<Rightarrow> 'w suite \<Rightarrow> Progress \<times> 'w suite" where
  "progress_done fixed now_us p t =
     (if curValue p < progress_num p then progress_update fixed now_us (progress_num p) p t else (p, t))"

record Displayer =
  numRaws :: nat
  numCols :: nat
  colWidth :: "nat list"
  display_context :: "string list list"

definition new_displayer :: "nat \<Rightarrow> nat \<Rightarrow> Displayer" where
  "new_displayer num_raws num_cols =
     \<lparr>numRaws = num_raws, numCols = num_cols, colWidth = replicate num_cols 20,
      display_context = replicate num_raws (replicate num_cols [])\<rparr>"

definition displayer_init :: "Displayer \<Rightarrow> 'w suite \<Rightarrow> 'w suite" where
  "displayer_init d t = ((\<lambda>t. snd (msg_out eol t)) ^^ numRaws d) t"

text \<open>More widths than columns write past the end of the vector.\<close>

definition setWidth :: "nat list \<Rightarrow> Displayer \<Rightarrow> Displayer result" where
  "setWidth src d =
     (if src = [] then Inr d
      else if length src > numCols d then Inl UndefinedBehaviour
      else Inr (d\<lparr>colWidth := src @ replicate (numCols d - length src) (last src)\<rparr>))"

definition display_set :: "nat \<Rightarrow> nat \<Rightarrow> string \<Rightarrow> Displayer \<Rightarrow> Displayer" where
  "display_set raw_idx col_idx s d =
     (if raw_idx \<ge> numRaws d \<or> col_idx \<ge> numCols d then d
      else d\<lparr>display_context := (display_context d)[raw_idx := (display_context d ! raw_idx)[col_idx := take 19 s]]\<rparr>)"

definition right_aligned :: "nat \<Rightarrow> string \<Rightarrow> string" where
  "right_aligned w s = replicate (w - length s) (CHR '' '') @ s"

definition display_row :: "Displayer \<Rightarrow> nat \<Rightarrow> string" where
  "display_row d ii =
     [char_of (13 :: nat)] @
     concat (map (\<lambda>jj. right_aligned (colWidth d ! jj) (display_context d ! ii ! jj)) [0..<numCols d]) @ eol"

definition display_print :: "Displayer \<Rightarrow> 'w suite \<Rightarrow> 'w suite" where
  "display_print d t =
     foldl (\<lambda>t ii. snd (msg_out (display_row d ii) t)) (snd (msg_out (ESC @ ''['' @ digits_of (numRaws d) @ ''A'') t))
       [0..<numRaws d]"

end
