(* ===== verification/TestSuiteProperties.thy ===== *)
theory TestSuiteProperties
  imports TestSuite
begin

text \<open>The properties of the test suite: the combinations it runs, and how tests are counted.\<close>

section \<open>Combinations\<close>

lemma for_steps_append:
  "for_steps f (xs @ ys) s = (case for_steps f xs s of Inl e \<Rightarrow> Inl e | Inr s' \<Rightarrow> for_steps f ys s')"
  by (induction xs arbitrary: s) (auto split: sum.split)

lemma for_steps_map: "for_steps f (map g xs) s = for_steps (\<lambda>x. f (g x)) xs s"
  by (induction xs arbitrary: s) (auto split: sum.split)

lemma snoc_append: "(@) (xs @ [x]) = (\<lambda>ys. xs @ x # ys)"
  by (rule ext) simp

lemma append_Nil_map: "map ((@) []) xs = xs"
  by (rule map_idI) simp

text \<open>The values of a range, in order.\<close>

definition range_values :: "(int \<Rightarrow> int \<Rightarrow> nat) \<Rightarrow> TestRange \<Rightarrow> int list \<Rightarrow> bool" where
  "range_values log_steps r vs \<longleftrightarrow>
     getSteps log_steps r = Inr (length vs) \<and> list_all (\<lambda>i. getEntry r i = Inr (vs ! i)) [0..<length vs]"

text \<open>The loop's state goes on with the same suite and the same parameters before \<open>d\<close>.\<close>

definition follows :: "nat \<Rightarrow> int list \<Rightarrow> (int list \<times> 'w suite) result \<Rightarrow> 'w suite result \<Rightarrow> bool" where
  "follows d args r q \<longleftrightarrow>
     (case r of
        Inl e \<Rightarrow> q = Inl e
      | Inr (args', t) \<Rightarrow> q = Inr t \<and> take d args' = take d args \<and> length args' = length args)"

lemma follows_steps:
  assumes "\<And>i args' t. i \<in> set is \<Longrightarrow> take d args' = take d args \<Longrightarrow> length args' = length args \<Longrightarrow>
      follows d args (body i (args', t)) (for_steps f (runs i) t)"
  shows "take d args' = take d args \<Longrightarrow> length args' = length args \<Longrightarrow>
    follows d args (for_steps body is (args', t)) (for_steps f (concat (map runs is)) t)"
  using assms
proof (induction "is" arbitrary: args' t)
  case Nil
  then show ?case by (simp add: follows_def)
next
  case (Cons i "is")
  have first: "follows d args (body i (args', t)) (for_steps f (runs i) t)"
    using Cons.prems by simp
  show ?case
  proof (cases "body i (args', t)")
    case (Inl e)
    with first show ?thesis by (simp add: follows_def for_steps_append)
  next
    case (Inr st)
    obtain args1 t1 where st: "st = (args1, t1)" by (cases st)
    from first Inr st have q: "for_steps f (runs i) t = Inr t1" "take d args1 = take d args" "length args1 = length args"
      by (simp_all add: follows_def)
    have "follows d args (for_steps body is (args1, t1)) (for_steps f (concat (map runs is)) t1)"
      using Cons.IH [OF q(2,3)] Cons.prems(3) by simp
    with Inr st q(1) show ?thesis by (simp add: for_steps_append)
  qed
qed

lemma concat_indices: "concat (map (\<lambda>i. g (vs ! i)) [0..<length vs]) = concat (map g vs)"
  by (metis (no_types, lifting) map_nth map_map comp_def map_cong)

lemma testAllInternal_follows:
  assumes vals: "list_all2 (range_values log_steps) ranges vss"
  shows "d < length ranges \<Longrightarrow> length args = length ranges \<Longrightarrow>
    follows d args (testAllInternal tm log_steps name func ranges d (args, t))
      (for_steps (\<lambda>c. run_test tm (combination_name name c) (func c))
        (map ((@) (take d args)) (product_lists (drop d vss))) t)"
proof (induction "length ranges - d" arbitrary: d args t rule: less_induct)
  case less
  let ?run = "\<lambda>c. run_test tm (combination_name name c) (func c)"
  let ?r = "ranges ! d" and ?vs = "vss ! d"
  let ?body = "\<lambda>i st. case setParam ranges d i (fst st) of
      Inl e \<Rightarrow> Inl e
    | Inr args \<Rightarrow>
        if d + 1 < length ranges then testAllInternal tm log_steps name func ranges (d + 1) (args, snd st)
        else map_sum id (Pair args) (run_test tm (combination_name name args) (func args) (snd st))"
  let ?runs = "\<lambda>v. map ((@) (take d args @ [v])) (product_lists (drop (Suc d) vss))"
  have len: "length vss = length ranges" using vals by (simp add: list_all2_lengthD)
  have r: "getSteps log_steps ?r = Inr (length ?vs)" "\<And>i. i < length ?vs \<Longrightarrow> getEntry ?r i = Inr (?vs ! i)"
    using list_all2_nthD [OF vals less.prems(1)] by (simp_all add: range_values_def list_all_iff)
  have step: "follows d args (?body i (args', t)) (for_steps ?run (?runs (?vs ! i)) t)"
    if "i \<in> set [0..<length ?vs]" "take d args' = take d args" "length args' = length args" for i args' t
  proof -
    let ?args = "args'[d := ?vs ! i]"
    have d: "d < length args'" using that(3) less.prems by simp
    have set: "setParam ranges d i args' = Inr ?args"
      using that(1) less.prems(1) r(2) by (simp add: setParam_def)
    have pre: "take (Suc d) ?args = take d args @ [?vs ! i]"
      using d that(2) by (simp add: take_Suc_conv_app_nth)
    show ?thesis
    proof (cases "d + 1 < length ranges")
      case True
      have "follows (d + 1) ?args (testAllInternal tm log_steps name func ranges (d + 1) (?args, t))
          (for_steps ?run (map ((@) (take (d + 1) ?args)) (product_lists (drop (d + 1) vss))) t)"
        using True that(3) less.prems by (intro less.hyps) simp_all
      moreover have "follows d args q q'" if "follows (d + 1) ?args q q'" for q :: "(int list \<times> 'a suite) result" and q'
      proof -
        have "take d x = take d args" if "take (Suc d) x = take d args @ [?vs ! i]" for x
          using arg_cong [OF that, of "take d"] less.prems by simp
        with that pre \<open>length args' = length args\<close> show ?thesis by (auto simp: follows_def split: sum.splits)
      qed
      ultimately show ?thesis using True set pre by simp
    next
      case False
      then have "length ranges = Suc d" using less.prems(1) by simp
      moreover from this have "?args = take d args @ [?vs ! i]"
        using pre that(3) less.prems(2) by (metis length_list_update order_refl take_all)
      ultimately show ?thesis
        using False set len that less.prems
        by (cases "run_test tm (combination_name name ?args) (func ?args) t") (simp_all add: follows_def)
    qed
  qed
  have "product_lists (drop d vss) = concat (map (\<lambda>v. map ((#) v) (product_lists (drop (Suc d) vss))) ?vs)"
    using less.prems(1) len by (simp add: Cons_nth_drop_Suc [symmetric])
  then have "map ((@) (take d args)) (product_lists (drop d vss)) = concat (map ?runs ?vs)"
    by (simp add: map_concat comp_def snoc_append)
  also have "\<dots> = concat (map (\<lambda>i. ?runs (?vs ! i)) [0..<length ?vs])"
    by (rule concat_indices [symmetric])
  finally have combos: "map ((@) (take d args)) (product_lists (drop d vss)) =
      concat (map (\<lambda>i. ?runs (?vs ! i)) [0..<length ?vs])" .
  have eq: "testAllInternal tm log_steps name func ranges d (args, t) = for_steps ?body [0..<length ?vs] (args, t)"
    using less.prems(1) r(1) by (subst testAllInternal.simps) (simp add: getNumSteps_def)
  show ?case unfolding eq combos by (rule follows_steps [OF step refl refl])
qed

text \<open>Testing all combinations runs the test once for each element of the product of the ranges'
  values, in lexicographic order with the last parameter fastest, each under its own name, and
  stops at the first one that aborts.\<close>

theorem all_combinations:
  assumes "list_all2 (range_values log_steps) ranges vss" and "ranges \<noteq> []" and "length args = length ranges"
  shows "map_sum id snd (testAllInternal tm log_steps name func ranges 0 (args, t)) =
    for_steps (\<lambda>c. run_test tm (combination_name name c) (func c)) (product_lists vss) t"
proof -
  have "follows 0 args (testAllInternal tm log_steps name func ranges 0 (args, t))
      (for_steps (\<lambda>c. run_test tm (combination_name name c) (func c)) (product_lists vss) t)"
    using testAllInternal_follows [OF assms(1), of 0 args] assms(2,3) by (simp add: append_Nil_map)
  then show ?thesis
    by (cases "testAllInternal tm log_steps name func ranges 0 (args, t)") (auto simp: follows_def)
qed

text \<open>A test that notes its parameters.\<close>

definition note_args :: "int list \<Rightarrow> int list list suite \<Rightarrow> int \<times> int list list suite" where
  "note_args c t = (0, t\<lparr>world := world t @ [c]\<rparr>)"

theorem all_combinations_witness:
  "case map_sum id snd (testAllInternal (\<lambda>_. ''1 s'') (\<lambda>_ _. 0) ''sum'' note_args
        [array_range [1, 2], step_range 10 20 10 LinearSteps] 0 ([0, 0], new_suite [])) of
      Inl _ \<Rightarrow> False
    | Inr t \<Rightarrow> world t = [[1, 10], [1, 20], [2, 10], [2, 20]] \<and> cntPass t = 4"
proof -
  let ?ranges = "[array_range [1, 2], step_range 10 20 10 LinearSteps]"
  have "list_all2 (range_values (\<lambda>_ _. 0)) ?ranges [[1, 2], [10, 20]]" by code_simp
  from all_combinations [OF this, of "[0, 0]" "\<lambda>_. ''1 s''" "''sum''" note_args "new_suite []"]
  have eq: "map_sum id snd (testAllInternal (\<lambda>_. ''1 s'') (\<lambda>_ _. 0) ''sum'' note_args ?ranges 0 ([0, 0], new_suite [])) =
      for_steps (\<lambda>c. run_test (\<lambda>_. ''1 s'') (combination_name ''sum'' c) (note_args c)) (product_lists [[1, 2], [10, 20]])
        (new_suite [])"
    by simp
  show ?thesis unfolding eq by code_simp
qed

end
