(* ===== verification/Cluster.thy ===== *)
theory Cluster
  imports FileOps
begin

text \<open>
  Several servers and the log that Raft replicates between them. A member is a node as in the
  theory of runs; a request runs on one member, and when its handler hands a write to
  \<^verbatim>\<open>append_log\<close> the encoded entry joins the committed log, waits in flight, or is dropped, as
  Raft's outcome says. What is taken from Raft is its guarantee alone: there is one committed
  log, and every member's \<^verbatim>\<open>commit\<close> is called for its entries one after the other. Members
  answer any request at any time: except for new sessions and keep-alives the services do not
  ask who the leader is.
\<close>

section \<open>State and steps\<close>

record ('ch, 's, 'b) cluster =
  members :: "nat \<Rightarrow> ('ch, 's) node"
  raft_log :: "(u64 \<times> 'b) list"
  applied :: "nat \<Rightarrow> nat"
  in_flight :: "'b list"

definition init_cluster :: "(nat \<Rightarrow> config) \<Rightarrow> 's sm_state \<Rightarrow> ('ch, 's, 'b) cluster" where
  "init_cluster conf sm =
     \<lparr>members = (\<lambda>i. init_server_info (conf i) [] sm), raft_log = [], applied = (\<lambda>i. 0), in_flight = []\<rparr>"

text \<open>The write that the handler of an operation hands to \<^verbatim>\<open>append_log\<close>, with Raft's outcome.\<close>

fun appends :: "('ch, 's) node \<Rightarrow> ('b, 's) node_op \<Rightarrow> (raft_outcome \<times> string \<times> string) option" where
  "appends n (OpenLock oc r c p) =
     (if om_find (sessions n) c \<noteq> None \<and> \<not> is_exists p n then Some (oc, p, []) else None)"
| "appends n (WriteFile oc r c p t) =
     (if holds c p n \<and> is_exists p n then Some (oc, p, t) else None)"
| "appends n _ = None"

definition next_index :: "('ch, 's, 'b) cluster \<Rightarrow> u64" where
  "next_index cl = of_nat (length (raft_log cl) + 1)"

text \<open>
  \<open>Call i e\<close>: a request, or a step of a session's thread, on member \<open>i\<close>; \<open>Catch_up i r\<close>:
  member \<open>i\<close> applies the next entry; \<open>Late_commit k\<close>: Raft commits an entry that was still in
  flight when its handler had given up waiting.
\<close>

datatype ('b, 's) cluster_op =
    Call nat "('b, 's) node_op"
  | Catch_up nat nat
  | Late_commit nat

definition set_member :: "nat \<Rightarrow> ('ch, 's) node \<Rightarrow> ('ch, 's, 'b) cluster \<Rightarrow> ('ch, 's, 'b) cluster" where
  "set_member i n cl = cl\<lparr>members := (members cl)(i := n)\<rparr>"

fun outcome_step ::
    "raft_outcome \<Rightarrow> nat \<Rightarrow> 'b \<Rightarrow> ('ch, 's, 'b) cluster \<Rightarrow> ('ch, 's, 'b) cluster" where
  "outcome_step (Committed idx) i b cl =
     cl\<lparr>raft_log := raft_log cl @ [(idx, b)], applied := (applied cl)(i := Suc (applied cl i))\<rparr>"
| "outcome_step Rejected i b cl = cl"
| "outcome_step _ i b cl = cl\<lparr>in_flight := in_flight cl @ [b]\<rparr>"

fun cluster_step ::
    "'b ser \<Rightarrow> ('s, 'b) snapshot_api \<Rightarrow> 'ch chan_api \<Rightarrow> ('ch, 's, 'b) cluster \<Rightarrow> ('b, 's) cluster_op \<Rightarrow>
     ('ch, 's, 'b) cluster" where
  "cluster_step S A C cl (Call i e) =
     (let cl' = set_member i (apply_op S A C (members cl i) e) cl
      in case appends (members cl i) e of
           None \<Rightarrow> cl'
         | Some (oc, p, t) \<Rightarrow>
             (case enc_log S \<lparr>op_kind = WRITE, op_path = p, op_content = t\<rparr> of
                Inl _ \<Rightarrow> cl'
              | Inr b \<Rightarrow> outcome_step oc i b cl'))"
| "cluster_step S A C cl (Catch_up i r) =
     (let (idx, b) = raft_log cl ! applied cl i
      in (set_member i (apply_op S A C (members cl i) (Replicate r idx b)) cl)
           \<lparr>applied := (applied cl)(i := Suc (applied cl i))\<rparr>)"
| "cluster_step S A C cl (Late_commit k) =
     cl\<lparr>raft_log := raft_log cl @ [(next_index cl, in_flight cl ! k)],
        in_flight := take k (in_flight cl) @ drop (Suc k) (in_flight cl)\<rparr>"

text \<open>
  Which steps Raft and its environment make: requests only (a member's entries come from the
  log, snapshots and other changes of its files are left out), a commit on a member only when
  it has applied all earlier entries, at the next index, and locks named by one path component.
\<close>

fun is_request :: "('b, 's) node_op \<Rightarrow> bool" where
  "is_request (Replicate r idx b) = False"
| "is_request (InstallSnapshot s) = False"
| "is_request (Environment fs) = False"
| "is_request _ = True"

fun cluster_guard :: "('ch, 's, 'b) cluster \<Rightarrow> ('b, 's) cluster_op \<Rightarrow> bool" where
  "cluster_guard cl (Call i e) \<longleftrightarrow>
     is_request e \<and> deletes_existing (members cl i) e \<and>
     (case appends (members cl i) e of
        None \<Rightarrow> True
      | Some (oc, p, t) \<Rightarrow>
          lock_name p \<and>
          (case oc of
             Committed idx \<Rightarrow> applied cl i = length (raft_log cl) \<and> idx = next_index cl
           | _ \<Rightarrow> True))"
| "cluster_guard cl (Catch_up i r) \<longleftrightarrow> applied cl i < length (raft_log cl)"
| "cluster_guard cl (Late_commit k) \<longleftrightarrow> k < length (in_flight cl)"

section \<open>The writes of a log\<close>

definition entry_write :: "'b ser \<Rightarrow> u64 \<times> 'b \<Rightarrow> write_cmd" where
  "entry_write S e =
     (case dec_log S (snd e) of
        Inr p \<Rightarrow> (0, fst e, op_path p, op_content p)
      | Inl _ \<Rightarrow> (0, fst e, [], []))"

abbreviation log_writes :: "'b ser \<Rightarrow> (u64 \<times> 'b) list \<Rightarrow> write_cmd list" where
  "log_writes S \<equiv> map (entry_write S)"

text \<open>An entry that a handler produced.\<close>

definition lock_entry_data :: "'b ser \<Rightarrow> 'b \<Rightarrow> bool" where
  "lock_entry_data S b \<longleftrightarrow>
     (\<exists>p t. lock_name p \<and> enc_log S \<lparr>op_kind = WRITE, op_path = p, op_content = t\<rparr> = Inr b)"

lemma entry_write_encoded:
  assumes "ser_law S room written pending"
    and "enc_log S \<lparr>op_kind = WRITE, op_path = p, op_content = t\<rparr> = Inr b"
  shows "entry_write S (i, b) = (0, i, p, t)"
proof -
  have fits: "payload_fits \<lparr>op_kind = WRITE, op_path = p, op_content = t\<rparr>"
    using enc_log_overflow [OF assms(1)] assms(2) by (metis Inl_Inr_False)
  then have "dec_log S b = Inr \<lparr>op_kind = WRITE, op_path = p, op_content = t\<rparr>"
    using dec_enc_log [OF assms(1) fits] assms(2) by (auto simp: op_of_code_def)
  then show ?thesis by (simp add: entry_write_def)
qed

lemma last_write_snoc:
  "last_write (ws @ [(r, i, p, c)]) q = (if q = p then Some c else last_write ws q)"
  by (simp add: last_write_def)

lemma last_write_append_other:
  "(\<And>r i c. (r, i, q, c) \<notin> set ws') \<Longrightarrow> last_write (ws @ ws') q = last_write ws q"
proof (induction ws' rule: rev_induct)
  case (snoc w ws')
  obtain r i p c where w: "w = (r, i, p, c)" by (cases w)
  have "p \<noteq> q" using snoc.prems [of r i c] w by auto
  moreover have "last_write (ws @ ws') q = last_write ws q" using snoc by simp
  ultimately show ?case using last_write_snoc [of "ws @ ws'" r i p c q] by (simp add: w)
qed simp

section \<open>What a member's files hold\<close>

definition files_hold :: "('ch, 's) node \<Rightarrow> write_cmd list \<Rightarrow> bool" where
  "files_hold n ws \<longleftrightarrow>
     (\<forall>q. lock_name q \<longrightarrow> om_find (n_fs n) (file_of (n_conf n) q) = map_option Regular (last_write ws q))"

definition member_ok :: "('ch, 's) node \<Rightarrow> write_cmd list \<Rightarrow> bool" where
  "member_ok n ws \<longleftrightarrow>
     strong_inv n \<and> is_absolute (cwd (n_conf n)) \<and> dir_ready (n_conf n) (n_fs n) \<and> files_hold n ws"

definition cluster_inv :: "'b ser \<Rightarrow> (nat \<Rightarrow> config) \<Rightarrow> ('ch, 's, 'b) cluster \<Rightarrow> bool" where
  "cluster_inv S conf cl \<longleftrightarrow>
     (\<forall>i. n_conf (members cl i) = conf i \<and> applied cl i \<le> length (raft_log cl) \<and>
        member_ok (members cl i) (log_writes S (take (applied cl i) (raft_log cl)))) \<and>
     (\<forall>e \<in> set (raft_log cl). lock_entry_data S (snd e)) \<and>
     (\<forall>b \<in> set (in_flight cl). lock_entry_data S b)"

lemma init_member_ok:
  "is_absolute (cwd conf) \<Longrightarrow> member_ok (init_server_info conf [] sm) []"
  unfolding member_ok_def
  by (simp add: init_strong_inv files_hold_def last_write_def empty_dir_ready)
    (simp add: init_server_info_def empty_dir_ready)

lemma init_cluster_inv:
  "(\<And>i. is_absolute (cwd (conf i))) \<Longrightarrow> cluster_inv S conf (init_cluster conf sm)"
  by (simp add: cluster_inv_def init_cluster_def init_member_ok) (simp add: init_server_info_def)

section \<open>One request\<close>

lemma member_ok_same_files:
  "member_ok n ws \<Longrightarrow> same_files n n' \<Longrightarrow> strong_inv n' \<Longrightarrow> member_ok n' ws"
  by (simp add: member_ok_def files_hold_def same_files_def)

lemma quiet_request:
  assumes "is_request e" and "deletes_existing n e" and "appends n e = None"
  shows "same_files n (apply_op S A C n e)"
proof (cases e)
  case (CreateSession now c)
  then show ?thesis using create_session_files by (metis apply_op.simps(1) prod.collapse)
next
  case (CloseSession c)
  have "same_files n n'" if "close_session c n = (r, n')" for r n'
    using close_session_keeps [where P = "same_files n", OF _ _ that] end_session_files [of n n] by simp
  then show ?thesis by (simp add: CloseSession) (metis prod.collapse)
next
  case (OpenLock oc r c p)
  with assms(3) have "snd (open_lock S oc r c p n) = n"
    by (auto simp: open_lock_def split: option.splits if_splits)
  with OpenLock show ?thesis by simp
next
  case (DeleteLock c p)
  then show ?thesis using assms(2) delete_lock_exists [of p n c] by (auto simp: deletes_existing_def)
next
  case (AcquireLock c p m)
  then show ?thesis using acquire_lock_files [of n n] by (metis apply_op.simps(5) prod.collapse same_files_refl)
next
  case (ReleaseLock c p)
  then show ?thesis using release_lock_files [of n n] by (metis apply_op.simps(6) prod.collapse same_files_refl)
next
  case (WriteFile oc r c p t)
  with assms(3) have "snd (server_write S oc r c p t n) = n"
    by (auto simp: server_write_def holds_def slocks_def split: option.splits if_splits)
  with WriteFile show ?thesis by simp
next
  case (KeepAlive c)
  then show ?thesis using attempt_extend_files [of n n] by (metis apply_op.simps(8) prod.collapse same_files_refl)
next
  case (Jeopardy now c ls)
  then show ?thesis using handle_jeopardy_files by (metis apply_op.simps(9) prod.collapse)
next
  case (ThreadStep i now1 now2)
  have "same_files n n'" if "maintain_session C i now1 now2 n = (r, n')" for r n'
    by (rule maintain_session_keeps [where P = "same_files n", OF _ _ _ _ that])
      (simp_all add: end_session_files [of n n])
  then show ?thesis by (simp add: ThreadStep) (metis prod.collapse)
qed (use assms(1) in simp_all)

text \<open>A handler that reaches \<^verbatim>\<open>append_log\<close> changes the files as that does.\<close>

lemma append_request:
  assumes "appends n e = Some (oc, p, t)"
  obtains r where "same_files (case append_log S (n_conf n) oc r WRITE p t (n_sm n) (n_fs n) of
      (q, sm, fs) \<Rightarrow> n\<lparr>n_sm := sm, n_fs := fs\<rparr>) (apply_op S A C n e)"
proof (cases e)
  case (OpenLock oc' r c p')
  then have e: "oc' = oc" "p' = p" "t = []" and c: "om_find (sessions n) c \<noteq> None" "\<not> is_exists p n"
    using assms by (auto split: if_splits)
  show thesis
    using c by (intro that [of r])
      (auto simp: OpenLock e open_lock_def split: prod.splits sum.splits)
next
  case (WriteFile oc' r c p' t')
  then have e: "oc' = oc" "p' = p" "t' = t" and c: "holds c p n" "is_exists p n"
    using assms by (auto split: if_splits)
  show thesis
    using holder_session [OF c(1)] c(2) by (intro that [of r])
      (auto simp: WriteFile e server_write_def split: prod.splits sum.splits)
qed (use assms in simp_all)

lemma encodes_fits:
  assumes "ser_law S room written pending"
  shows "(\<exists>b. enc_log S \<lparr>op_kind = WRITE, op_path = p, op_content = t\<rparr> = Inr b) \<longleftrightarrow> length p + length t \<le> 60"
    and "length p + length t \<le> 60 \<longleftrightarrow> payload_fits \<lparr>op_kind = WRITE, op_path = p, op_content = t\<rparr>"
proof -
  let ?p = "\<lparr>op_kind = WRITE, op_path = p, op_content = t\<rparr>"
  show *: "length p + length t \<le> 60 \<longleftrightarrow> payload_fits ?p"
    by (simp add: payload_fits_def sizeof_op_payload_def)
  show "(\<exists>b. enc_log S ?p = Inr b) \<longleftrightarrow> length p + length t \<le> 60"
    unfolding * using enc_log_overflow [OF assms, of ?p] enc_log_written [OF assms, of ?p]
    by (metis Inl_Inr_False)
qed

text \<open>The state a committed write of a member leads to, whoever asked for it.\<close>

lemma write_committed:
  fixes n :: "('ch, 's) node"
  assumes law: "ser_law S room written pending" and ok: "member_ok n ws"
    and p: "lock_name p" and len: "length p + length t \<le> 60"
  obtains fs' where "append_log S (n_conf n) (Committed idx) r WRITE p t (n_sm n) (n_fs n) =
      (Inr (), (n_sm n)\<lparr>cur_value := Some p, last_committed_idx := idx\<rparr>, fs')"
    and "\<And>n' :: ('ch, 's) node. n_fs n' = fs' \<Longrightarrow> n_conf n' = n_conf n \<Longrightarrow> strong_inv n' \<Longrightarrow> member_ok n' (ws @ [(0, idx, p, t)])"
proof -
  have m: "is_absolute (cwd (n_conf n))" "dir_ready (n_conf n) (n_fs n)" "files_hold n ws"
    using ok by (simp_all add: member_ok_def)
  obtain fs' where fs': "append_log S (n_conf n) (Committed idx) r WRITE p t (n_sm n) (n_fs n) =
      (Inr (), (n_sm n)\<lparr>cur_value := Some p, last_committed_idx := idx\<rparr>, fs')"
    and ready: "dir_ready (n_conf n) fs'" and w: "om_find fs' (file_of (n_conf n) p) = Some (Regular t)"
    and others: "\<And>q. lock_name q \<Longrightarrow> q \<noteq> p \<Longrightarrow> om_find fs' (file_of (n_conf n) q) = om_find (n_fs n) (file_of (n_conf n) q)"
    using committed_write [OF law m(1,2) p len] by metis
  show thesis
  proof (rule that [OF fs'])
    show "member_ok n' (ws @ [(0, idx, p, t)])"
      if "n_fs n' = fs'" "n_conf n' = n_conf n" "strong_inv n'" for n' :: "('ch, 's) node"
      using that m(1,3) ready w others by (auto simp: member_ok_def files_hold_def last_write_snoc)
  qed
qed

lemma committed_request:
  fixes n :: "('ch, 's) node"
  assumes law: "ser_law S room written pending" and ok: "member_ok n ws"
    and ap: "appends n e = Some (Committed idx, p, t)" and p: "lock_name p" and len: "length p + length t \<le> 60"
    and strong: "strong_inv (apply_op S A C n e)"
  shows "member_ok (apply_op S A C n e) (ws @ [(0, idx, p, t)])"
    and "n_conf (apply_op S A C n e) = n_conf n"
proof -
  obtain r where r: "same_files (case append_log S (n_conf n) (Committed idx) r WRITE p t (n_sm n) (n_fs n) of
      (q, sm, fs) \<Rightarrow> n\<lparr>n_sm := sm, n_fs := fs\<rparr>) (apply_op S A C n e)"
    using append_request [OF ap] .
  obtain fs' where fs': "append_log S (n_conf n) (Committed idx) r WRITE p t (n_sm n) (n_fs n) =
      (Inr (), (n_sm n)\<lparr>cur_value := Some p, last_committed_idx := idx\<rparr>, fs')"
    and then_ok: "\<And>n' :: ('ch, 's) node. n_fs n' = fs' \<Longrightarrow> n_conf n' = n_conf n \<Longrightarrow> strong_inv n' \<Longrightarrow> member_ok n' (ws @ [(0, idx, p, t)])"
    by (rule write_committed [OF law ok p len]) blast
  have s: "n_fs (apply_op S A C n e) = fs'" "n_conf (apply_op S A C n e) = n_conf n"
    using r by (simp_all add: same_files_def fs')
  show "member_ok (apply_op S A C n e) (ws @ [(0, idx, p, t)])" by (rule then_ok [OF s strong])
  show "n_conf (apply_op S A C n e) = n_conf n" by (fact s(2))
qed

lemma uncommitted_request:
  assumes law: "ser_law S room written pending"
    and ap: "appends n e = Some (oc, p, t)"
    and no: "(\<forall>i. oc \<noteq> Committed i) \<or> \<not> length p + length t \<le> 60"
  shows "same_files n (apply_op S A C n e)"
proof -
  obtain r where r: "same_files (case append_log S (n_conf n) oc r WRITE p t (n_sm n) (n_fs n) of
      (q, sm, fs) \<Rightarrow> n\<lparr>n_sm := sm, n_fs := fs\<rparr>) (apply_op S A C n e)"
    using append_request [OF ap] .
  have "snd (append_log S (n_conf n) oc r WRITE p t (n_sm n) (n_fs n)) = (n_sm n, n_fs n)"
    using no append_log_overflow [OF law] append_log_uncommitted [OF law] encodes_fits(2) [OF law, of p t]
    by (metis snd_conv)
  then show ?thesis using r by (simp add: same_files_def split_beta)
qed

lemma applied_entry:
  fixes n :: "('ch, 's) node"
  assumes law: "ser_law S room written pending" and ok: "member_ok n ws" and p: "lock_name p"
    and b: "enc_log S \<lparr>op_kind = WRITE, op_path = p, op_content = t\<rparr> = Inr b"
  shows "member_ok (apply_op S A C n (Replicate r idx b)) (ws @ [(0, idx, p, t)])"
    and "n_conf (apply_op S A C n (Replicate r idx b)) = n_conf n"
proof -
  let ?n' = "apply_op S A C n (Replicate r idx b)"
  have len: "length p + length t \<le> 60" using encodes_fits(1) [OF law] b by blast
  obtain fs' where fs': "append_log S (n_conf n) (Committed idx) r WRITE p t (n_sm n) (n_fs n) =
      (Inr (), (n_sm n)\<lparr>cur_value := Some p, last_committed_idx := idx\<rparr>, fs')"
    and then_ok: "\<And>n' :: ('ch, 's) node. n_fs n' = fs' \<Longrightarrow> n_conf n' = n_conf n \<Longrightarrow> strong_inv n' \<Longrightarrow> member_ok n' (ws @ [(0, idx, p, t)])"
    by (rule write_committed [OF law ok p len]) blast
  have s: "n_fs ?n' = fs'" "n_conf ?n' = n_conf n"
    using fs' by (auto simp: append_log_def b split: prod.splits sum.splits)
  have "strong_inv ?n'"
    by (rule apply_op_strong_inv) (use ok in \<open>simp_all add: member_ok_def deletes_existing_def\<close>)
  then show "member_ok ?n' (ws @ [(0, idx, p, t)])" by (rule then_ok [OF s])
  show "n_conf ?n' = n_conf n" by (fact s(2))
qed

section \<open>One step of the cluster\<close>

lemma cluster_invD:
  assumes "cluster_inv S conf cl"
  shows "n_conf (members cl i) = conf i" and "applied cl i \<le> length (raft_log cl)"
    and "member_ok (members cl i) (log_writes S (take (applied cl i) (raft_log cl)))"
    and "e \<in> set (raft_log cl) \<Longrightarrow> lock_entry_data S (snd e)"
    and "b \<in> set (in_flight cl) \<Longrightarrow> lock_entry_data S b"
  using assms unfolding cluster_inv_def by blast+

lemma member_ok_strong: "member_ok n ws \<Longrightarrow> strong_inv n"
  by (simp add: member_ok_def)

text \<open>A member changes while the log stays.\<close>

lemma set_member_inv:
  assumes "cluster_inv S conf cl" and "n_conf n = conf i"
    and "member_ok n (log_writes S (take (applied cl i) (raft_log cl)))"
  shows "cluster_inv S conf (set_member i n cl)"
  using assms by (simp add: cluster_inv_def set_member_def)

text \<open>A member changes and applies one entry, in a log that may have grown by it.\<close>

lemma applied_inv:
  assumes inv: "cluster_inv S conf cl" and n: "n_conf n = conf i"
    and log: "raft_log cl' = raft_log cl @ es" and es: "\<And>e. e \<in> set es \<Longrightarrow> lock_entry_data S (snd e)"
    and less: "applied cl i < length (raft_log cl')"
    and ok: "member_ok n (log_writes S (take (applied cl i) (raft_log cl)) @ [entry_write S (raft_log cl' ! applied cl i)])"
    and rest: "members cl' = (members cl)(i := n)" "applied cl' = (applied cl)(i := Suc (applied cl i))"
      "in_flight cl' = in_flight cl"
  shows "cluster_inv S conf cl'"
proof -
  have t: "take (applied cl j) (raft_log cl') = take (applied cl j) (raft_log cl)" for j
    using cluster_invD(2) [OF inv, of j] by (simp add: log)
  have ti: "take (Suc (applied cl i)) (raft_log cl') =
      take (applied cl i) (raft_log cl) @ [raft_log cl' ! applied cl i]"
    using take_Suc_conv_app_nth [OF less] t by simp
  have "member_ok (members cl' j) (log_writes S (take (applied cl' j) (raft_log cl')))" for j
    using cluster_invD(3) [OF inv, of j] ok ti t by (auto simp: rest)
  moreover have "n_conf (members cl' j) = conf j \<and> applied cl' j \<le> length (raft_log cl')" for j
    using cluster_invD(1,2) [OF inv, of j] n less by (auto simp: rest log)
  ultimately show ?thesis
    using cluster_invD(4,5) [OF inv] es by (auto simp: cluster_inv_def rest log)
qed

text \<open>The log grows by an entry that no member has applied.\<close>

lemma grown_inv:
  assumes inv: "cluster_inv S conf cl" and log: "raft_log cl' = raft_log cl @ es"
    and es: "\<And>e. e \<in> set es \<Longrightarrow> lock_entry_data S (snd e)"
    and fl: "\<And>b. b \<in> set (in_flight cl') \<Longrightarrow> lock_entry_data S b"
    and rest: "members cl' = members cl" "applied cl' = applied cl"
  shows "cluster_inv S conf cl'"
proof -
  have "take (applied cl j) (raft_log cl') = take (applied cl j) (raft_log cl)" for j
    using cluster_invD(2) [OF inv, of j] by (simp add: log)
  then show ?thesis
    using cluster_invD(1-3,4) [OF inv] es fl by (auto simp: cluster_inv_def rest log trans_le_add1)
qed

lemma call_inv:
  assumes law: "ser_law S room written pending" and inv: "cluster_inv S conf cl"
    and guard: "cluster_guard cl (Call i e)"
  shows "cluster_inv S conf (cluster_step S A C cl (Call i e))"
proof -
  let ?n = "members cl i" and ?n' = "apply_op S A C (members cl i) e"
  let ?ws = "log_writes S (take (applied cl i) (raft_log cl))"
  have g: "is_request e" "deletes_existing ?n e" using guard by simp_all
  have ok: "member_ok ?n ?ws" and strong: "strong_inv ?n'"
    using cluster_invD(3) [OF inv] member_ok_strong apply_op_strong_inv g(2) by blast+
  have same: "cluster_inv S conf (set_member i ?n' cl)" if "same_files ?n ?n'"
    using set_member_inv [OF inv _ member_ok_same_files [OF ok that strong]] that cluster_invD(1) [OF inv]
    by (simp add: same_files_def)
  show ?thesis
  proof (cases "appends ?n e")
    case None
    then show ?thesis using same quiet_request [OF g None] by simp
  next
    case (Some a)
    obtain oc p t where a: "a = (oc, p, t)" by (cases a)
    then have ap: "appends ?n e = Some (oc, p, t)" and p: "lock_name p"
      using Some guard by simp_all
    let ?enc = "enc_log S \<lparr>op_kind = WRITE, op_path = p, op_content = t\<rparr>"
    show ?thesis
    proof (cases ?enc)
      case (Inl err)
      then have "\<not> length p + length t \<le> 60" using encodes_fits(1) [OF law, of p t] by auto
      then show ?thesis using same uncommitted_request [OF law ap] ap Inl by simp
    next
      case (Inr b)
      have len: "length p + length t \<le> 60" using encodes_fits(1) [OF law] Inr by blast
      have data: "lock_entry_data S b" using p Inr by (auto simp: lock_entry_data_def)
      show ?thesis
      proof (cases oc)
        case (Committed idx)
        then have all: "applied cl i = length (raft_log cl)" using guard ap by simp
        let ?cl = "outcome_step (Committed idx) i b (set_member i ?n' cl)"
        have ok': "member_ok ?n' (?ws @ [(0, idx, p, t)])"
          by (rule committed_request(1) [OF law ok ap [unfolded Committed] p len strong])
        have conf: "n_conf ?n' = conf i"
          using committed_request(2) [OF law ok ap [unfolded Committed] p len strong]
            cluster_invD(1) [OF inv] by simp
        have "cluster_inv S conf ?cl"
          by (rule applied_inv [OF inv conf, where es = "[(idx, b)]"])
            (use data ok' all entry_write_encoded [OF law Inr] in \<open>simp_all add: set_member_def\<close>)
        then show ?thesis using ap Inr Committed by (simp add: Let_def)
      next
        case Rejected
        then show ?thesis using same uncommitted_request [OF law ap] ap Inr by simp
      next
        case Not_committed
        have "cluster_inv S conf (outcome_step oc i b (set_member i ?n' cl))"
          by (rule grown_inv [OF same [OF uncommitted_request [OF law ap]], where es = "[]"])
            (use data cluster_invD(5) [OF inv] in \<open>auto simp: Not_committed set_member_def\<close>)
        then show ?thesis using ap Inr by simp
      next
        case Pending
        have "cluster_inv S conf (outcome_step oc i b (set_member i ?n' cl))"
          by (rule grown_inv [OF same [OF uncommitted_request [OF law ap]], where es = "[]"])
            (use data cluster_invD(5) [OF inv] in \<open>auto simp: Pending set_member_def\<close>)
        then show ?thesis using ap Inr by simp
      qed
    qed
  qed
qed

lemma catch_up_inv:
  assumes law: "ser_law S room written pending" and inv: "cluster_inv S conf cl"
    and less: "applied cl i < length (raft_log cl)"
  shows "cluster_inv S conf (cluster_step S A C cl (Catch_up i r))"
proof -
  obtain idx b where e: "raft_log cl ! applied cl i = (idx, b)" by fastforce
  then have "lock_entry_data S b" using cluster_invD(4) [OF inv nth_mem [OF less]] by simp
  then obtain p t where p: "lock_name p" and b: "enc_log S \<lparr>op_kind = WRITE, op_path = p, op_content = t\<rparr> = Inr b"
    by (auto simp: lock_entry_data_def)
  let ?n' = "apply_op S A C (members cl i) (Replicate r idx b)"
  note ok = applied_entry [OF law cluster_invD(3) [OF inv] p b]
  have "cluster_inv S conf ((set_member i ?n' cl)\<lparr>applied := (applied cl)(i := Suc (applied cl i))\<rparr>)"
  proof (rule applied_inv [OF inv, where es = "[]" and i = i and n = ?n'])
    show "n_conf ?n' = conf i" using ok(2) cluster_invD(1) [OF inv] by simp
    show "member_ok ?n' (log_writes S (take (applied cl i) (raft_log cl)) @
        [entry_write S (raft_log ((set_member i ?n' cl)\<lparr>applied := (applied cl)(i := Suc (applied cl i))\<rparr>) ! applied cl i)])"
      using ok(1) [of A C i r idx] by (simp add: set_member_def e entry_write_encoded [OF law b] del: apply_op.simps)
  qed (use less in \<open>simp_all add: set_member_def\<close>)
  then show ?thesis by (simp only: cluster_step.simps e Let_def prod.case)
qed

lemma late_commit_inv:
  assumes inv: "cluster_inv S conf cl" and "k < length (in_flight cl)"
  shows "cluster_inv S conf (cluster_step S A C cl (Late_commit k))"
  by (rule grown_inv [OF inv, where es = "[(next_index cl, in_flight cl ! k)]"])
    (use assms(2) cluster_invD(5) [OF inv] in \<open>auto dest: in_set_takeD in_set_dropD\<close>)

lemma cluster_step_inv:
  assumes "ser_law S room written pending" and "cluster_inv S conf cl" and "cluster_guard cl e"
  shows "cluster_inv S conf (cluster_step S A C cl e)"
  using assms call_inv catch_up_inv late_commit_inv by (cases e) (simp_all del: cluster_step.simps)

lemma cluster_run_inv:
  assumes "ser_law S room written pending" and "cluster_inv S conf cl"
    and "all_guarded (cluster_step S A C) cluster_guard cl es"
  shows "cluster_inv S conf (foldl (cluster_step S A C) cl es)"
  using assms(2,3) by (induction es arbitrary: cl) (auto intro: cluster_step_inv [OF assms(1)] simp del: cluster_step.simps cluster_guard.simps)

lemma outcome_log: "\<exists>xs. raft_log (outcome_step oc i b cl) = raft_log cl @ xs"
  by (cases oc) simp_all

lemma set_member_log [simp]: "raft_log (set_member i n cl) = raft_log cl"
  by (simp add: set_member_def)

lemma cluster_step_log: "\<exists>xs. raft_log (cluster_step S A C cl e) = raft_log cl @ xs"
proof (cases e)
  case (Call i x)
  then show ?thesis
    using outcome_log [of _ i _ "set_member i (apply_op S A C (members cl i) x) cl"]
    by (auto simp: Let_def split: option.splits sum.splits)
next
  case (Catch_up i r)
  then show ?thesis by (simp add: split_beta)
qed simp

lemma cluster_run_log: "\<exists>xs. raft_log (foldl (cluster_step S A C) cl es) = raft_log cl @ xs"
proof (induction es arbitrary: cl)
  case (Cons e es)
  obtain xs where "raft_log (cluster_step S A C cl e) = raft_log cl @ xs" using cluster_step_log by blast
  with Cons [of "cluster_step S A C cl e"] show ?case by auto
qed simp

end
