(* ===== verification/Backtrace.thy ===== *)
theory Backtrace
  imports LoggerCrash
begin

text \<open>
  Interpreting a stack for the crash report, namespace \<^verbatim>\<open>_backtrace\<close> of \<^verbatim>\<open>include/debugger.hxx\<close>.
  \<^verbatim>\<open>backtrace_symbols\<close>, the shell command run through \<^verbatim>\<open>popen\<close> and the demangler of the C++ ABI
  are arguments; finding the address in a symbol, building the command, reading its answer and
  printing into the caller's buffer are the code's own.
\<close>

section \<open>Reading a symbol\<close>

text \<open>A C string at an index; the terminating NUL is the character after the last.\<close>

definition c_at :: "string \<Rightarrow> nat \<Rightarrow> char" where
  "c_at s i = (if i < length s then s ! i else NUL)"

definition fname_len :: "string \<Rightarrow> nat" where
  "fname_len stack_msg = length (takeWhile (\<lambda>c. c \<noteq> CHR ''('' \<and> c \<noteq> CHR '' '' \<and> c \<noteq> NUL) stack_msg)"

definition is_hex :: "char \<Rightarrow> bool" where
  "is_hex c \<longleftrightarrow> is_digit c \<or> (97 \<le> (of_char c :: nat) \<and> (of_char c :: nat) \<le> 102)
     \<or> (65 \<le> (of_char c :: nat) \<and> (of_char c :: nat) \<le> 70)"

definition hex_value :: "char \<Rightarrow> nat" where
  "hex_value c = (if is_digit c then of_char c - 48
                  else if 97 \<le> (of_char c :: nat) then of_char c - 87 else of_char c - 55)"

text \<open>
  \<^verbatim>\<open>ss >> std::hex >> x\<close> for an unsigned 64-bit \<open>x\<close>: white space, a sign, \<^verbatim>\<open>0x\<close>, digits; 0 when
  there is no digit and the largest value when there are too many.
\<close>

definition read_hex :: "string \<Rightarrow> nat" where
  "read_hex s =
     (let s1 = dropWhile is_space s;
          neg = (take 1 s1 = ''-'');
          s2 = (if take 1 s1 = ''-'' \<or> take 1 s1 = ''+'' then drop 1 s1 else s1);
          s3 = (if take 2 s2 = ''0x'' \<or> take 2 s2 = ''0X'' then drop 2 s2 else s2);
          v = foldl (\<lambda>n c. 16 * n + int (hex_value c)) 0 (takeWhile is_hex s3)
      in nat (if v \<ge> 2 ^ 64 then 2 ^ 64 - 1 else if neg then (- v) mod 2 ^ 64 else v))"

text \<open>
  The address text and the address of a frame: with address space randomisation, what stands
  after \<^verbatim>\<open>(+\<close>, else the frame's pointer.
\<close>

definition frame_address :: "nat \<Rightarrow> string \<Rightarrow> string \<times> nat" where
  "frame_address stack_ptr stack_msg =
     (let f = fname_len stack_msg
      in if c_at stack_msg f = CHR ''('' \<and> c_at stack_msg (f + 1) = CHR ''+''
         then (let addr_str = take 255 (takeWhile (\<lambda>c. c \<noteq> CHR '')'' \<and> c \<noteq> NUL) (drop (f + 2) stack_msg))
               in (addr_str, read_hex addr_str))
         else (take 255 (hex_of stack_ptr), stack_ptr))"

definition addr2line_cmd :: "string \<Rightarrow> string \<Rightarrow> string" where
  "addr2line_cmd stack_msg addr_str =
     take 1023 (''addr2line -f -e '' @ take (fname_len stack_msg) stack_msg @ '' '' @ addr_str)"

text \<open>One conversion \<^verbatim>\<open>%1023s\<close> of \<^verbatim>\<open>fscanf\<close>, and what is left of the input.\<close>

definition scan_word :: "string \<Rightarrow> (string \<times> string) option" where
  "scan_word s =
     (let s1 = dropWhile is_space s; w = take 1023 (takeWhile (\<lambda>c. \<not> is_space c) s1)
      in if s1 = [] then None else Some (w, drop (length w) s1))"

section \<open>Printing a frame\<close>

text \<open>\<^verbatim>\<open>%-2zu\<close> and \<^verbatim>\<open>%016lx\<close>.\<close>

definition left_aligned2 :: "nat \<Rightarrow> string" where
  "left_aligned2 n = digits_of n @ replicate (2 - length (digits_of n)) (CHR '' '')"

definition hex16 :: "nat \<Rightarrow> string" where
  "hex16 n = replicate (16 - length (hex_of n)) (CHR ''0'') @ hex_of n"

text \<open>
  The name shown when the demangler has none: what stands between the first \<^verbatim>\<open>(\<close> and the last
  \<^verbatim>\<open>+\<close>, or \<^verbatim>\<open>)\<close> when there is no \<^verbatim>\<open>+\<close>; the length wraps when the positions are the other way round.
\<close>

definition symbol_name :: "string \<Rightarrow> string \<Rightarrow> string" where
  "symbol_name stack_msg mangled_name =
     (let e_pos = (case rfind (CHR ''+'') stack_msg of
            Some (b, _) \<Rightarrow> Some (length b)
          | None \<Rightarrow> map_option (\<lambda>(b, _). length b) (rfind (CHR '')'') stack_msg));
          func_name = (case (find_from stack_msg ''('' 0, e_pos) of
            (Some s, Some e) \<Rightarrow>
              if s + 1 \<le> e then take (e - s - 1) (drop (s + 1) stack_msg) else drop (s + 1) stack_msg
          | _ \<Rightarrow> stack_msg)
      in if func_name = [] then mangled_name else func_name)"

definition frame_texts ::
    "(string \<Rightarrow> string option) \<Rightarrow> nat \<Rightarrow> nat \<Rightarrow> string \<Rightarrow> string \<Rightarrow> string \<Rightarrow> string list" where
  "frame_texts demangle frame_num actual_addr stack_msg mangled_name file_line =
     [''#'' @ left_aligned2 frame_num @ '' 0x'' @ hex16 actual_addr @ '' in '',
      (case demangle mangled_name of
         Some cc \<Rightarrow> cc @ '' at ''
       | None \<Rightarrow> symbol_name stack_msg mangled_name @ ''() at ''),
      file_line @ newline]"

text \<open>
  The loop over the frames. A command that cannot be run leaves the frame out; an answer of
  fewer than two words leaves \<^verbatim>\<open>mangled_name\<close> or \<^verbatim>\<open>file_line\<close> uninitialised, and they are read.
  The buffer's length is taken anew for every frame, the position is kept.
\<close>

record trace_env =
  run_cmd :: "string \<Rightarrow> string option"
  demangle :: "string \<Rightarrow> string option"

definition print_texts :: "nat \<Rightarrow> string list \<Rightarrow> string \<times> nat \<Rightarrow> string \<times> nat" where
  "print_texts output_buflen ts st =
     (case foldl (\<lambda>b t. snprintf_macro t b) (fst st, output_buflen, snd st) ts of
        (buf, _, cur_len) \<Rightarrow> (buf, cur_len))"

fun interpret_frames ::
    "trace_env \<Rightarrow> nat \<Rightarrow> (nat \<times> string) list \<Rightarrow> nat \<Rightarrow> string \<times> nat \<Rightarrow> (string \<times> nat) result" where
  "interpret_frames E output_buflen [] frame_num st = Inr st"
| "interpret_frames E output_buflen ((stack_ptr, stack_msg) # frames) frame_num st =
     (let (addr_str, actual_addr) = frame_address stack_ptr stack_msg
      in case run_cmd E (addr2line_cmd stack_msg addr_str) of
           None \<Rightarrow> interpret_frames E output_buflen frames frame_num st
         | Some answer \<Rightarrow>
             (case scan_word answer of
                None \<Rightarrow> Inl UndefinedBehaviour
              | Some (mangled_name, rest) \<Rightarrow>
                  (case scan_word rest of
                     None \<Rightarrow> Inl UndefinedBehaviour
                   | Some (file_line, _) \<Rightarrow>
                       interpret_frames E output_buflen frames (Suc frame_num)
                         (print_texts output_buflen
                           (frame_texts (demangle E) frame_num actual_addr stack_msg mangled_name file_line) st))))"

definition stack_interpret_linux ::
    "trace_env \<Rightarrow> (nat \<times> string) list \<Rightarrow> string \<Rightarrow> nat \<Rightarrow> (string \<times> nat) result" where
  "stack_interpret_linux E frames output_buf output_buflen =
     interpret_frames E output_buflen (drop 1 frames) 0 (output_buf, 0)"

text \<open>The variants for other systems, which this build does not call.\<close>

definition stack_interpret_apple :: nat where
  "stack_interpret_apple = 0"

definition stack_interpret_other :: "string list \<Rightarrow> string \<Rightarrow> nat \<Rightarrow> string \<times> nat" where
  "stack_interpret_other stack_msgs output_buf output_buflen =
     foldl (\<lambda>st m. print_texts output_buflen [m @ newline] st) (output_buf, 0) (drop 1 stack_msgs)"

text \<open>\<^verbatim>\<open>symbols\<close> is \<^verbatim>\<open>backtrace_symbols\<close>; at most 256 frames are unwound.\<close>

definition stack_interpret ::
    "trace_env \<Rightarrow> (nat \<Rightarrow> string) \<Rightarrow> nat list \<Rightarrow> string \<Rightarrow> nat \<Rightarrow> (string \<times> nat) result" where
  "stack_interpret E symbols stack_ptrs output_buf output_buflen =
     stack_interpret_linux E (map (\<lambda>p. (p, symbols p)) stack_ptrs) output_buf output_buflen"

definition stack_backtrace ::
    "trace_env \<Rightarrow> (nat \<Rightarrow> string) \<Rightarrow> nat list \<Rightarrow> string \<Rightarrow> nat \<Rightarrow> (string \<times> nat) result" where
  "stack_backtrace E symbols unwound output_buf output_buflen =
     stack_interpret E symbols (take 256 unwound) output_buf output_buflen"

text \<open>Moving a cursor; past the end there is the NUL, and \<^verbatim>\<open>skip_glyph\<close> leaves the string.\<close>

definition skip_whitespace :: "string \<Rightarrow> nat \<Rightarrow> nat" where
  "skip_whitespace base_str pos = pos + length (takeWhile (\<lambda>c. c = CHR '' '') (drop pos base_str))"

definition skip_glyph :: "string \<Rightarrow> nat \<Rightarrow> nat result" where
  "skip_glyph base_str pos =
     (let n = length (takeWhile (\<lambda>c. c \<noteq> CHR '' '') (drop pos base_str))
      in if pos + n < length base_str then Inr (pos + n) else Inl UndefinedBehaviour)"

section \<open>The text of a trace\<close>

text \<open>All frames printed one after the other, with room for everything; \<open>None\<close> when an answer is short.\<close>

fun trace_text :: "trace_env \<Rightarrow> (nat \<times> string) list \<Rightarrow> nat \<Rightarrow> string option" where
  "trace_text E [] frame_num = Some []"
| "trace_text E ((stack_ptr, stack_msg) # frames) frame_num =
     (let (addr_str, actual_addr) = frame_address stack_ptr stack_msg
      in case run_cmd E (addr2line_cmd stack_msg addr_str) of
           None \<Rightarrow> trace_text E frames frame_num
         | Some answer \<Rightarrow>
             Option.bind (scan_word answer) (\<lambda>(mangled_name, rest).
             Option.bind (scan_word rest) (\<lambda>(file_line, _).
               map_option
                 ((@) (concat (frame_texts (demangle E) frame_num actual_addr stack_msg mangled_name file_line)))
                 (trace_text E frames (Suc frame_num)))))"

lemma macros_bounds:
  assumes "length (fst b) = n" and "snd (snd b) + (fst (snd b) - snd (snd b)) \<le> n"
  shows "length (fst (foldl (\<lambda>b t. snprintf_macro t b) b ts)) = n
    \<and> snd (snd (foldl (\<lambda>b t. snprintf_macro t b) b ts)) \<le> n"
  using assms
proof (induction ts arbitrary: b)
  case (Cons t ts)
  obtain x y z where b: "b = (x, y, z)" by (cases b)
  obtain x' y' z' where b': "snprintf_macro t (x, y, z) = (x', y', z')" by (cases "snprintf_macro t (x, y, z)")
  have "length x' = n" "z' + (y' - z') \<le> n"
    using snprintf_macro_bounds [OF b'] Cons.prems b by simp_all
  then show ?case using Cons.IH [of "(x', y', z')"] by (simp add: b b' del: snprintf_macro.simps)
qed simp

lemma print_texts_bounds:
  assumes "length buf = n" and "cur_len \<le> n" and "print_texts n ts (buf, cur_len) = (buf', cur')"
  shows "length buf' = n" and "cur' \<le> n"
  using macros_bounds [of "(buf, n, cur_len)" n ts] assms
  by (simp_all add: print_texts_def split: prod.splits)

lemma macro_appends:
  assumes "length buf = n" and "take (length pre) buf = pre" and "length (pre @ a) < n" and "length (pre @ a) < avail"
  obtains buf' where "snprintf_macro a (buf, avail, length pre) = (buf', avail - length pre, length (pre @ a))"
    and "length buf' = n" and "take (length (pre @ a)) buf' = pre @ a"
proof -
  have "snprintf_macro a (buf, avail, length pre) =
      (pre @ a @ NUL # drop (length pre + length a + 1) buf, avail - length pre, length (pre @ a))"
    using snprintf_macro_fits [of "length pre" a buf avail] assms by simp
  then show thesis by (rule that) (use assms in simp_all)
qed

lemma print_frame_fits:
  assumes "length buf = n" and "take (length pre) buf = pre" and "3 * length (pre @ a @ b @ c) < n"
  obtains buf' where "print_texts n [a, b, c] (buf, length pre) = (buf', length (pre @ a @ b @ c))"
    and "length buf' = n" and "take (length (pre @ a @ b @ c)) buf' = pre @ a @ b @ c"
proof -
  obtain b1 where 1: "snprintf_macro a (buf, n, length pre) = (b1, n - length pre, length (pre @ a))"
    "length b1 = n" "take (length (pre @ a)) b1 = pre @ a"
    by (rule macro_appends [OF assms(1,2), of a n]) (use assms(3) in simp_all)
  obtain b2 where 2: "snprintf_macro b (b1, n - length pre, length (pre @ a)) =
      (b2, n - length pre - length (pre @ a), length ((pre @ a) @ b))"
    "length b2 = n" "take (length ((pre @ a) @ b)) b2 = (pre @ a) @ b"
    by (rule macro_appends [OF 1(2,3), of b "n - length pre"]) (use assms(3) in simp_all)
  obtain b3 where 3: "snprintf_macro c (b2, n - length pre - length (pre @ a), length ((pre @ a) @ b)) =
      (b3, n - length pre - length (pre @ a) - length ((pre @ a) @ b), length (((pre @ a) @ b) @ c))"
    "length b3 = n" "take (length (((pre @ a) @ b) @ c)) b3 = ((pre @ a) @ b) @ c"
    by (rule macro_appends [OF 2(2,3), of c "n - length pre - length (pre @ a)"]) (use assms(3) in simp_all)
  have "print_texts n [a, b, c] (buf, length pre) = (b3, length (((pre @ a) @ b) @ c))"
    unfolding print_texts_def fst_conv snd_conv foldl.simps 1(1) 2(1) 3(1) by (simp only: prod.case)
  then have "print_texts n [a, b, c] (buf, length pre) = (b3, length (pre @ a @ b @ c))" by simp
  then show thesis by (rule that) (use 3(2,3) in simp_all)
qed

text \<open>Only a short answer makes the interpretation fail; it never leaves the buffer.\<close>

lemma interpret_frames_bounds:
  "length (fst st) = n \<Longrightarrow> snd st \<le> n \<Longrightarrow>
    (case trace_text E frames k of
       None \<Rightarrow> interpret_frames E n frames k st = Inl UndefinedBehaviour
     | Some t \<Rightarrow> (\<exists>buf' len. interpret_frames E n frames k st = Inr (buf', len) \<and> length buf' = n \<and> len \<le> n))"
proof (induction E n frames k st rule: interpret_frames.induct)
  case (1 E n k st)
  then show ?case by (cases st) simp
next
  case (2 E n p m frames k st)
  obtain addr_str addr where a: "frame_address p m = (addr_str, addr)" by fastforce
  show ?case
  proof (cases "run_cmd E (addr2line_cmd m addr_str)")
    case None
    have i: "interpret_frames E n ((p, m) # frames) k st = interpret_frames E n frames k st"
      "trace_text E ((p, m) # frames) k = trace_text E frames k"
      using a None by simp_all
    show ?thesis unfolding i by (rule "2.IH"(1) [OF a [symmetric] refl None "2.prems"])
  next
    case (Some answer)
    show ?thesis
    proof (cases "scan_word answer")
      case w1: (Some r1)
      show ?thesis
      proof (cases "scan_word (snd r1)")
        case w2: (Some r2)
        let ?st = "print_texts n (frame_texts (demangle E) k addr m (fst r1) (fst r2)) st"
        have st: "length (fst ?st) = n" "snd ?st \<le> n"
          using print_texts_bounds [of "fst st" n "snd st" _ "fst ?st" "snd ?st"] "2.prems" by simp_all
        have r: "r1 = (fst r1, snd r1)" "r2 = (fst r2, snd r2)" by simp_all
        have i: "interpret_frames E n ((p, m) # frames) k st = interpret_frames E n frames (Suc k) ?st"
          using a Some w1 w2 by (simp add: split_beta)
        have t: "trace_text E ((p, m) # frames) k =
            map_option ((@) (concat (frame_texts (demangle E) k addr m (fst r1) (fst r2)))) (trace_text E frames (Suc k))"
          using a Some w1 w2 by (simp add: split_beta)
        have "case trace_text E frames (Suc k) of
            None \<Rightarrow> interpret_frames E n frames (Suc k) ?st = Inl UndefinedBehaviour
          | Some t \<Rightarrow> (\<exists>buf' len. interpret_frames E n frames (Suc k) ?st = Inr (buf', len) \<and> length buf' = n \<and> len \<le> n)"
          using "2.IH"(2) [OF a [symmetric] refl Some w1 r(1) [symmetric] w2 r(2) [symmetric] st] .
        then show ?thesis unfolding i t by (auto split: option.splits)
      qed (use a Some w1 in \<open>simp add: split_beta\<close>)
    qed (use a Some in simp)
  qed
qed

lemma interpret_frames_fits:
  assumes "trace_text E frames k = Some t" and "length buf = n" and "take (length pre) buf = pre"
    and "3 * length (pre @ t) < n"
  obtains buf' where "interpret_frames E n frames k (buf, length pre) = Inr (buf', length (pre @ t))"
    and "length buf' = n" and "take (length (pre @ t)) buf' = pre @ t"
  using assms
proof (induction E frames k arbitrary: t buf pre thesis rule: trace_text.induct)
  case (1 E k)
  then show ?case by simp
next
  case (2 E p m frames k)
  obtain addr_str addr where a: "frame_address p m = (addr_str, addr)" by fastforce
  show ?case
  proof (cases "run_cmd E (addr2line_cmd m addr_str)")
    case None
    then have t: "trace_text E frames k = Some t" using "2.prems"(2) a by simp
    show ?thesis
      by (rule "2.IH"(1) [OF a [symmetric] refl None _ t "2.prems"(3-5)], rule "2.prems"(1))
        (use a None in simp_all)
  next
    case (Some answer)
    obtain mn rest where w1: "scan_word answer = Some (mn, rest)"
      using "2.prems"(2) a Some by (auto simp: bind_eq_Some_conv)
    obtain fl rest' where w2: "scan_word rest = Some (fl, rest')"
      using "2.prems"(2) a Some w1 by (auto simp: bind_eq_Some_conv)
    obtain x y z where f: "frame_texts (demangle E) k addr m mn fl = [x, y, z]" by (simp add: frame_texts_def)
    obtain u where u: "trace_text E frames (Suc k) = Some u" "t = (x @ y @ z) @ u"
      using "2.prems"(2) a Some w1 w2 f by auto
    have "length (pre @ x @ y @ z) \<le> length (pre @ t)" by (simp add: u(2))
    then have lt: "3 * length (pre @ x @ y @ z) < n" using "2.prems"(5) by linarith
    obtain b1 where b1: "print_texts n [x, y, z] (buf, length pre) = (b1, length (pre @ x @ y @ z))"
      "length b1 = n" "take (length (pre @ x @ y @ z)) b1 = pre @ x @ y @ z"
      by (rule print_frame_fits [OF "2.prems"(3,4) lt])
    have i: "interpret_frames E n ((p, m) # frames) k (buf, length pre) =
        interpret_frames E n frames (Suc k) (b1, length (pre @ x @ y @ z))"
      using a Some w1 w2 f b1(1) by simp
    obtain b2 where b2: "interpret_frames E n frames (Suc k) (b1, length (pre @ x @ y @ z)) =
        Inr (b2, length ((pre @ x @ y @ z) @ u))"
      "length b2 = n" "take (length ((pre @ x @ y @ z) @ u)) b2 = (pre @ x @ y @ z) @ u"
      by (rule "2.IH"(2) [OF a [symmetric] refl Some w1 refl w2 refl _ u(1) b1(2,3)])
        (use u(2) "2.prems"(5) in simp_all)
    show ?thesis
    proof (rule "2.prems"(1))
      show "interpret_frames E n ((p, m) # frames) k (buf, length pre) = Inr (b2, length (pre @ t))"
        unfolding i b2(1) by (simp add: u(2))
      show "length b2 = n" by (fact b2(2))
      show "take (length (pre @ t)) b2 = pre @ t" using b2(3) by (simp add: u(2))
    qed
  qed
qed

end
