(* ===== verification/LogStream.thy ===== *)
theory LogStream
  imports LoggerMgr
begin

text \<open>
  The macros by which the program logs, of \<^verbatim>\<open>include/debugger.hxx\<close>: by level, with a stream
  instead of a format, and with a higher level once in an interval. A thread's stream object is
  reused by all of its statements, so its state before a statement is an argument.
\<close>

section \<open>Levels\<close>

datatype Levels = SYS | FATAL | ERROR | WARNING | INFO | DEBUG | TRACE | UNKNOWN_LEVEL

fun level_number :: "Levels \<Rightarrow> nat" where
  "level_number SYS = 0"
| "level_number FATAL = 1"
| "level_number ERROR = 2"
| "level_number WARNING = 3"
| "level_number INFO = 4"
| "level_number DEBUG = 5"
| "level_number TRACE = 6"
| "level_number UNKNOWN_LEVEL = 99"

text \<open>\<^verbatim>\<open>_log_sys\<close> to \<^verbatim>\<open>_log_trace\<close>.\<close>

definition log_at ::
    "log_os \<Rightarrow> log_stamp \<Rightarrow> Levels \<Rightarrow> nat \<Rightarrow> string \<Rightarrow> nat \<Rightarrow> string \<Rightarrow> log_world \<Rightarrow> log_world option" where
  "log_at os stamp lv l func_name line_number text w =
     log_macro os stamp (level_number lv) l func_name line_number text w"

section \<open>Streams\<close>

record logger_stream =
  sStream :: string
  stream_level :: nat
  stream_logger :: "nat option"
  stream_file :: "string option"
  stream_func :: "string option"
  stream_line :: nat

definition new_stream :: logger_stream where
  "new_stream = \<lparr>sStream = [], stream_level = 0, stream_logger = None, stream_file = None,
     stream_func = None, stream_line = 0\<rparr>"

definition setLogInfo ::
    "nat \<Rightarrow> nat option \<Rightarrow> string option \<Rightarrow> string option \<Rightarrow> nat \<Rightarrow> logger_stream \<Rightarrow> logger_stream" where
  "setLogInfo level l file_name func line_number ms =
     ms\<lparr>sStream := [], stream_level := level, stream_logger := l, stream_file := file_name,
        stream_func := func, stream_line := line_number\<rparr>"

definition stream_out :: "logger_stream \<Rightarrow> string \<Rightarrow> logger_stream" where
  "stream_out ms data = ms\<lparr>sStream := sStream ms @ data\<rparr>"

text \<open>\<^verbatim>\<open>put\<close> passes the text as a C string; the assignment to \<^verbatim>\<open>EndOfStmt\<close> calls it.\<close>

definition c_str :: "string \<Rightarrow> string" where
  "c_str s = takeWhile (\<lambda>c. c \<noteq> NUL) s"

definition stream_put :: "log_os \<Rightarrow> log_stamp \<Rightarrow> logger_stream \<Rightarrow> log_world \<Rightarrow> log_world option" where
  "stream_put os stamp ms w =
     (case stream_logger ms of
        None \<Rightarrow> Some w
      | Some l \<Rightarrow>
          put_at os stamp l (stream_level ms)
            (case (stream_file ms, stream_func ms) of (Some f, Some g) \<Rightarrow> Some (f, g) | _ \<Rightarrow> None)
            (stream_line ms) (c_str (sStream ms)) w)"

text \<open>\<^verbatim>\<open>stream\<close> sets up the thread's object; \<^verbatim>\<open>eos() = ...\<close> puts it.\<close>

definition log_stream ::
    "nat \<Rightarrow> nat option \<Rightarrow> string option \<Rightarrow> string option \<Rightarrow> nat \<Rightarrow> logger_stream \<Rightarrow> logger_stream" where
  "log_stream level l file_name func line_number ms = setLogInfo level l file_name func line_number ms"

definition end_of_stmt :: "log_os \<Rightarrow> log_stamp \<Rightarrow> logger_stream \<Rightarrow> log_world \<Rightarrow> log_world option" where
  "end_of_stmt os stamp src w = stream_put os stamp src w"

text \<open>
  A statement \<^verbatim>\<open>_stream_(level, l) << a << b << ...\<close>: nothing of it is evaluated when the level is
  too high; else the stream is set up, filled, and put.
\<close>

definition stream_statement ::
    "log_os \<Rightarrow> log_stamp \<Rightarrow> Levels \<Rightarrow> nat \<Rightarrow> string \<Rightarrow> nat \<Rightarrow> string list \<Rightarrow> logger_stream \<Rightarrow> log_world \<Rightarrow>
     (logger_stream \<times> log_world) option" where
  "stream_statement os stamp lv l func_name line_number data ms w =
     (case om_find (heap w) l of
        None \<Rightarrow> Some (ms, w)
      | Some lg \<Rightarrow>
          if curLogLevel lg \<ge> int (level_number lv)
          then (let ms1 = foldl stream_out
                      (log_stream (level_number lv) (Some l) (Some (source_name os)) (Some func_name) line_number ms) data
                in map_option (Pair ms1) (end_of_stmt os stamp ms1 w))
          else Some (ms, w))"

section \<open>Levels of a logger\<close>

definition getLogLevel :: "simple_logger \<Rightarrow> int" where
  "getLogLevel lg = curLogLevel lg"

definition getDispLevel :: "simple_logger \<Rightarrow> int" where
  "getDispLevel lg = curDispLevel lg"

definition traceAllowed :: "simple_logger \<Rightarrow> bool" where
  "traceAllowed lg \<longleftrightarrow> curLogLevel lg \<ge> 6"

definition debugAllowed :: "simple_logger \<Rightarrow> bool" where
  "debugAllowed lg \<longleftrightarrow> curLogLevel lg \<ge> 5"

section \<open>Timed logs\<close>

text \<open>
  The statics of a site of \<^verbatim>\<open>_timed_log_g\<close> or \<^verbatim>\<open>_timed_log_t\<close>. \<open>exceeds ns ms\<close> is the comparison
  \<^verbatim>\<open>elapsed.count() * 1000 > interval_ms\<close> in floating point; \<open>cur1\<close> and \<open>cur2\<close> are the two
  readings of the clock, the second of which counts.
\<close>

record timed_site =
  first_event_fired :: bool
  last_timeout :: int

definition timed_log_definition :: "int \<Rightarrow> timed_site" where
  "timed_log_definition now = \<lparr>first_event_fired = False, last_timeout = now\<rparr>"

definition timed_log_check ::
    "(int \<Rightarrow> int \<Rightarrow> bool) \<Rightarrow> int \<Rightarrow> int \<Rightarrow> int \<Rightarrow> timed_site \<Rightarrow> bool \<times> timed_site" where
  "timed_log_check exceeds interval_ms cur1 cur2 t =
     (if exceeds (cur1 - last_timeout t) interval_ms \<or> \<not> first_event_fired t
      then if exceeds (cur2 - last_timeout t) interval_ms \<or> \<not> first_event_fired t
           then (True, t\<lparr>first_event_fired := True, last_timeout := cur2\<rparr>)
           else (False, t)
      else (False, t))"

definition timed_log_body ::
    "log_os \<Rightarrow> log_stamp \<Rightarrow> (int \<Rightarrow> int \<Rightarrow> bool) \<Rightarrow> nat \<Rightarrow> int \<Rightarrow> Levels \<Rightarrow> Levels \<Rightarrow> int \<Rightarrow> int \<Rightarrow>
     string \<Rightarrow> nat \<Rightarrow> string \<Rightarrow> timed_site \<Rightarrow> log_world \<Rightarrow> (timed_site \<times> log_world) option" where
  "timed_log_body os stamp exceeds l interval_ms lv1 lv2 cur1 cur2 func_name line_number text t w =
     (case timed_log_check exceeds interval_ms cur1 cur2 t of
        (timeout, t') \<Rightarrow>
          map_option (Pair t')
            (log_at os stamp (if timeout then lv2 else lv1) l func_name line_number text w))"

text \<open>
  \<^verbatim>\<open>_timed_log_g\<close> has one set of statics for all threads, \<^verbatim>\<open>_timed_log_t\<close> one for each thread,
  made at the thread's first call.
\<close>

definition timed_log_g ::
    "log_os \<Rightarrow> log_stamp \<Rightarrow> (int \<Rightarrow> int \<Rightarrow> bool) \<Rightarrow> nat \<Rightarrow> int \<Rightarrow> Levels \<Rightarrow> Levels \<Rightarrow> int \<times> int \<times> int \<Rightarrow>
     string \<Rightarrow> nat \<Rightarrow> string \<Rightarrow> timed_site option \<Rightarrow> log_world \<Rightarrow> (timed_site option \<times> log_world) option" where
  "timed_log_g os stamp exceeds l interval_ms lv1 lv2 readings func_name line_number text site w =
     (case readings of (now, cur1, cur2) \<Rightarrow>
        map_option (map_prod Some id)
          (timed_log_body os stamp exceeds l interval_ms lv1 lv2 cur1 cur2 func_name line_number text
            (case site of None \<Rightarrow> timed_log_definition now | Some t \<Rightarrow> t) w))"

definition timed_log_t ::
    "log_os \<Rightarrow> log_stamp \<Rightarrow> (int \<Rightarrow> int \<Rightarrow> bool) \<Rightarrow> nat \<Rightarrow> int \<Rightarrow> Levels \<Rightarrow> Levels \<Rightarrow> int \<times> int \<times> int \<Rightarrow>
     string \<Rightarrow> nat \<Rightarrow> string \<Rightarrow> nat \<Rightarrow> (nat, timed_site) omap \<Rightarrow> log_world \<Rightarrow>
     ((nat, timed_site) omap \<times> log_world) option" where
  "timed_log_t os stamp exceeds l interval_ms lv1 lv2 readings func_name line_number text tid sites w =
     (case timed_log_g os stamp exceeds l interval_ms lv1 lv2 readings func_name line_number text
             (om_find sites tid) w of
        Some (Some t, w') \<Rightarrow> Some (om_assign tid t sites, w')
      | _ \<Rightarrow> None)"

text \<open>The times at which a site, called at the given readings, logs at the higher level.\<close>

fun timed_events :: "(int \<Rightarrow> int \<Rightarrow> bool) \<Rightarrow> int \<Rightarrow> (int \<times> int) list \<Rightarrow> timed_site \<Rightarrow> int list" where
  "timed_events exceeds interval_ms [] t = []"
| "timed_events exceeds interval_ms ((cur1, cur2) # calls) t =
     (case timed_log_check exceeds interval_ms cur1 cur2 t of
        (timeout, t') \<Rightarrow>
          (if timeout then [cur2] else []) @ timed_events exceeds interval_ms calls t')"

section \<open>Lemmas\<close>

lemma stream_text: "foldl stream_out ms data = ms\<lparr>sStream := sStream ms @ concat data\<rparr>"
  by (induction data arbitrary: ms) (simp_all add: stream_out_def)

lemma timed_events_spaced:
  "first_event_fired t \<Longrightarrow>
    successively (\<lambda>a b. exceeds (b - a) interval_ms) (last_timeout t # timed_events exceeds interval_ms calls t)"
proof (induction calls arbitrary: t)
  case (Cons c calls)
  obtain cur1 cur2 where c: "c = (cur1, cur2)" by fastforce
  show ?case
  proof (cases "exceeds (cur1 - last_timeout t) interval_ms \<and> exceeds (cur2 - last_timeout t) interval_ms")
    case True
    then show ?thesis
      using Cons.IH [of "t\<lparr>first_event_fired := True, last_timeout := cur2\<rparr>"] Cons.prems c
      by (simp add: timed_log_check_def)
  next
    case False
    then have "timed_log_check exceeds interval_ms cur1 cur2 t = (False, t)"
      using Cons.prems by (auto simp: timed_log_check_def)
    then show ?thesis using Cons c by simp
  qed
qed simp

end
