(* ===== verification/TraceProperties.thy ===== *)
theory TraceProperties
  imports Backtrace LogStream LoggerMgrProperties
begin

text \<open>
  The properties of the stack interpreter and of the log macros.
\<close>

section \<open>Stacks\<close>

text \<open>C35: Interpreting a stack never leaves the caller's buffer, whatever the tools answer. It fails
  exactly when an answer of the tool has fewer than two words, whose buffers are then read
  uninitialised; otherwise it returns a length of at most the buffer's, and when the whole text
  takes less than a third of the buffer, exactly that text: the third, because the macro
  subtracts the position again for every part of a frame.\<close>

theorem backtrace_text:
  assumes "length output_buf = output_buflen"
  shows "case trace_text E (drop 1 (map (\<lambda>p. (p, symbols p)) (take 256 unwound))) 0 of
      None \<Rightarrow> stack_backtrace E symbols unwound output_buf output_buflen = Inl UndefinedBehaviour
    | Some t \<Rightarrow>
        (\<exists>buf len. stack_backtrace E symbols unwound output_buf output_buflen = Inr (buf, len)
           \<and> length buf = output_buflen \<and> len \<le> output_buflen
           \<and> (3 * length t < output_buflen \<longrightarrow> take len buf = t))"
proof -
  let ?fs = "drop 1 (map (\<lambda>p. (p, symbols p)) (take 256 unwound))"
  have e: "stack_backtrace E symbols unwound output_buf output_buflen =
      interpret_frames E output_buflen ?fs 0 (output_buf, 0)"
    by (simp add: stack_backtrace_def stack_interpret_def stack_interpret_linux_def)
  note bounds = interpret_frames_bounds [of "(output_buf, 0)" output_buflen E ?fs 0]
  show ?thesis
  proof (cases "trace_text E ?fs 0")
    case None
    then show ?thesis using bounds assms by (simp only: e fst_conv snd_conv option.case)
  next
    case (Some t)
    then obtain buf len where r: "interpret_frames E output_buflen ?fs 0 (output_buf, 0) = Inr (buf, len)"
      "length buf = output_buflen" "len \<le> output_buflen"
      using bounds assms by (simp only: fst_conv snd_conv option.case) blast
    have "take len buf = t" if lt: "3 * length t < output_buflen"
    proof -
      obtain b where b: "interpret_frames E output_buflen ?fs 0 (output_buf, length ([] :: string)) = Inr (b, length ([] @ t))"
        "take (length ([] @ t)) b = [] @ t"
        by (rule interpret_frames_fits [OF Some assms, of "[]"]) (use lt in simp_all)
      then show ?thesis using r(1) by simp
    qed
    then show ?thesis unfolding e Some option.case using r by blast
  qed
qed

definition demo_trace :: trace_env where
  "demo_trace = \<lparr>run_cmd = (\<lambda>cmd. if cmd = ''addr2line -f -e ./node 0x2a'' then Some ''main entry.cc:7'' else Some ''?? ??:0''),
     demangle = (\<lambda>n. None)\<rparr>"

definition demo_symbols :: "nat \<Rightarrow> string" where
  "demo_symbols p = (if p = 1 then ''./node(+0x2a) [0x5]'' else ''libc.so.6(start+0xf0) [0x9]'')"

lemma demo_frames:
  "frame_address 1 ''./node(+0x2a) [0x5]'' = (''0x2a'', 42)"
  "frame_address 2 ''libc.so.6(start+0xf0) [0x9]'' = (''2'', 2)"
  "run_cmd demo_trace (addr2line_cmd ''./node(+0x2a) [0x5]'' ''0x2a'') = Some ''main entry.cc:7''"
  "run_cmd demo_trace (addr2line_cmd ''libc.so.6(start+0xf0) [0x9]'' ''2'') = Some ''?? ??:0''"
  "scan_word ''main entry.cc:7'' = Some (''main'', '' entry.cc:7'')"
  "scan_word '' entry.cc:7'' = Some (''entry.cc:7'', [])"
  "scan_word ''?? ??:0'' = Some (''??'', '' ??:0'')" "scan_word '' ??:0'' = Some (''??:0'', [])"
  by code_simp+

lemma demo_texts:
  "concat (frame_texts (demangle demo_trace) 0 42 ''./node(+0x2a) [0x5]'' ''main'' ''entry.cc:7'') =
    ''#0  0x000000000000002a in main() at entry.cc:7'' @ newline"
  "concat (frame_texts (demangle demo_trace) 1 2 ''libc.so.6(start+0xf0) [0x9]'' ''??'' ''??:0'') =
    ''#1  0x0000000000000002 in start() at ??:0'' @ newline"
  by code_simp+

lemma demo_trace_text:
  "trace_text demo_trace (drop 1 (map (\<lambda>p. (p, demo_symbols p)) (take 256 [0, 1, 2]))) 0 =
    Some (''#0  0x000000000000002a in main() at entry.cc:7'' @ newline @
          ''#1  0x0000000000000002 in start() at ??:0'' @ newline)"
proof -
  have "drop 1 (map (\<lambda>p. (p, demo_symbols p)) (take 256 [0, 1, 2])) =
      [(1, ''./node(+0x2a) [0x5]''), (2, ''libc.so.6(start+0xf0) [0x9]'')]"
    by (simp add: demo_symbols_def)
  then show ?thesis by (simp only: trace_text.simps demo_frames demo_texts Let_def prod.case option.case
      Option.bind.simps option.map One_nat_def [symmetric] append_assoc append_Nil2)
qed

theorem backtrace_text_witness:
  "\<exists>buf len. stack_backtrace demo_trace demo_symbols [0, 1, 2] (replicate 400 NUL) 400 = Inr (buf, len)
    \<and> take len buf = ''#0  0x000000000000002a in main() at entry.cc:7'' @ newline @
          ''#1  0x0000000000000002 in start() at ??:0'' @ newline"
proof -
  have "length (replicate 400 NUL) = 400" by (simp only: length_replicate)
  from backtrace_text [OF this, of demo_trace demo_symbols "[0, 1, 2]"] show ?thesis
    unfolding demo_trace_text option.case by (auto simp: newline_def)
qed

section \<open>Streams and timed logs\<close>

text \<open>A statement with the stream macro logs what the printf-style macro logs for the
  concatenation of its parts (up to a NUL), whatever earlier statements left in the thread's
  stream object.\<close>

theorem stream_as_printf:
  "map_option snd (stream_statement os stamp lv l func_name line_number data ms w) =
    log_at os stamp lv l func_name line_number (c_str (concat data)) w"
proof (cases "om_find (heap w) l")
  case (Some lg)
  then show ?thesis
    by (simp add: stream_statement_def log_at_def log_macro_def stream_text stream_put_def setLogInfo_def log_stream_def end_of_stmt_def
        Let_def option.map_comp o_def option.map_ident)
qed (simp add: stream_statement_def log_at_def log_macro_def)

text \<open>A site of the timed macro logs its first call at the higher level, and any two
  consecutive later logs at that level are more than the interval apart.\<close>

theorem timed_log_spacing:
  "(case calls of
      [] \<Rightarrow> timed_events exceeds interval_ms calls (timed_log_definition now) = []
    | (cur1, cur2) # rest \<Rightarrow>
        (\<exists>later. timed_events exceeds interval_ms calls (timed_log_definition now) = cur2 # later))
   \<and> successively (\<lambda>a b. exceeds (b - a) interval_ms)
       (timed_events exceeds interval_ms calls (timed_log_definition now))"
proof (cases calls)
  case (Cons c rest)
  obtain cur1 cur2 where c: "c = (cur1, cur2)" by fastforce
  have "timed_events exceeds interval_ms calls (timed_log_definition now) =
      cur2 # timed_events exceeds interval_ms rest \<lparr>first_event_fired = True, last_timeout = cur2\<rparr>"
    by (simp add: Cons c timed_log_check_def timed_log_definition_def)
  then show ?thesis
    using timed_events_spaced [of "\<lparr>first_event_fired = True, last_timeout = cur2\<rparr>" exceeds interval_ms rest]
    by (simp add: Cons c)
qed simp

end
