(* ===== verification/ServerProcess.thy ===== *)
theory ServerProcess
  imports Startup Options LoggerMgr TestSuite
begin

text \<open>
  A server process from its options to its service: \<^verbatim>\<open>initializeStaticInstance\<close>,
  \<^verbatim>\<open>init_consensus\<close> and \<^verbatim>\<open>init_server_info\<close> of \<^verbatim>\<open>src/app.cc\<close>, \<^verbatim>\<open>init_raft\<close> and the reporting
  functions of \<^verbatim>\<open>src/consensus/consensus.cc\<close>, \<^verbatim>\<open>main\<close>. NuRaft's launcher and server, the
  creation of directories and gRPC are arguments; \<^verbatim>\<open>termcolor\<close>'s manipulators print nothing on
  a stream that is not a terminal and are left out.

  The two consensus flags are \<^verbatim>\<open>static\<close> in the header \<^verbatim>\<open>consensus.hxx\<close>, so each of the
  translation units \<^verbatim>\<open>app.cc\<close> and \<^verbatim>\<open>consensus.cc\<close> has its own: \<open>app_flags\<close> is the pair of
  the first, \<open>own_call_type\<close> the variable that \<^verbatim>\<open>init_raft\<close> and \<^verbatim>\<open>append_log\<close> read.
\<close>

section \<open>State\<close>

record process =
  proc_members :: "(string, string) omap"
  proc_current :: "string option"
  proc_master :: "string option"
  proc_stuff :: server_stuff
  app_flags :: "call_type \<times> bool"
  own_call_type :: call_type
  has_logger :: bool
  sm_async :: "bool option"
  launched :: "raft_params option"
  proc_dirs :: "string list"
  proc_out :: string
  proc_err :: string
  proc_logs :: log_world

text \<open>The result of a step of start-up; \<open>Stuck\<close> is a logger's thread waiting for ever.\<close>

datatype boot = Up process | Exited int process | Threw exn process | Stuck

definition and_then :: "boot \<Rightarrow> (process \<Rightarrow> boot) \<Rightarrow> boot" where
  "and_then b f = (case b of Up p \<Rightarrow> f p | _ \<Rightarrow> b)"

definition say :: "string \<Rightarrow> process \<Rightarrow> process" where
  "say s p = p\<lparr>proc_out := proc_out p @ s\<rparr>"

record raft_view =
  raft_leader :: int
  raft_committed :: u64
  raft_term :: u64
  raft_servers :: "(int \<times> string) list"

record proc_env =
  env_cwd :: string
  env_split :: "string \<Rightarrow> string list"
  env_cast :: "string \<Rightarrow> u16 option"
  mkdirs :: "string \<Rightarrow> bool"
  launcher_init :: "int \<Rightarrow> raft_params \<Rightarrow> bool"
  is_initialized :: "nat \<Rightarrow> bool"
  env_os :: log_os
  env_readdir :: "string \<Rightarrow> string list"
  env_stamp :: log_stamp
  env_tz :: int

section \<open>Static data\<close>

definition new_process :: "log_world \<Rightarrow> process" where
  "new_process lw =
     \<lparr>proc_members = [], proc_current = None, proc_master = None,
      proc_stuff = \<lparr>stuff_id = 1, stuff_addr = ''127.0.1.1'', stuff_port = 25000, stuff_endpoint = []\<rparr>,
      app_flags = (blocking, False), own_call_type = blocking, has_logger = False, sm_async = None,
      launched = None, proc_dirs = [], proc_out = [], proc_err = [], proc_logs = lw\<rparr>"

definition make_dirs_of :: "proc_env \<Rightarrow> string \<Rightarrow> process \<Rightarrow> boot" where
  "make_dirs_of E d p =
     (if mkdirs E d then Up (p\<lparr>proc_dirs := proc_dirs p @ [d]\<rparr>) else Threw FilesystemError p)"

definition registered_text :: "(string, string) omap \<Rightarrow> config_options \<Rightarrow> Address list \<Rightarrow> string" where
  "registered_text m c as =
     (if flag_debug c
      then concat (map (\<lambda>a. ''registered cluster address: '' @ toString a @ eol) as) @
           ''Size of cluster: '' @ digits_of (length m) @ eol @
           ''Using config file at: '' @ opt_config c @ eol
      else [])"

text \<open>The addresses are parsed before the first is registered.\<close>

fun parse_addresses ::
    "(string \<Rightarrow> string list) \<Rightarrow> (string \<Rightarrow> u16 option) \<Rightarrow> string list \<Rightarrow> Address list result" where
  "parse_addresses split lexical_cast [] = Inr []"
| "parse_addresses split lexical_cast (a # as) =
     (case make_address split lexical_cast a of
        Inl e \<Rightarrow> Inl e
      | Inr addr \<Rightarrow> map_sum id ((#) addr) (parse_addresses split lexical_cast as))"

definition consensus_of :: "config_options \<Rightarrow> consensus_config" where
  "consensus_of c =
     \<lparr>serverId = opt_serverId c, consensus_address = opt_consensus_address c,
      consensus_port = opt_consensus_port c\<rparr>"

definition flags_of :: "config_options \<Rightarrow> consensus_flags" where
  "flags_of c = \<lparr>asyncSnapshotCreation = opt_asyncSnapshotCreation c, asyncHandler = opt_asyncHandler c\<rparr>"

definition static_instance :: "proc_env \<Rightarrow> config_options \<Rightarrow> process \<Rightarrow> boot" where
  "static_instance E c p =
     and_then (make_dirs_of E (fs_absolute (env_cwd E) (opt_directory c)) p)
       (\<lambda>p1. case parse_addresses (env_split E) (env_cast E) (opt_cluster c) of
          Inl e \<Rightarrow> Threw e p1
        | Inr as \<Rightarrow>
            (let m = foldl (\<lambda>m a. om_insert (toString a) (toString a) m) [] as
             in Up ((say (registered_text m c as) p1)
                  \<lparr>proc_members := m, proc_stuff := init_stuff (consensus_of c), app_flags := init_flags (flags_of c)\<rparr>)))"

section \<open>Raft\<close>

definition bolt :: string where "bolt = map char_of [226 :: nat, 154, 161]"

text \<open>
  \<^verbatim>\<open>init_raft\<close>: logger, state manager and state machine, the launcher, then the wait, which
  prints a dot for each poll that fails.
\<close>

definition log_file_of :: "proc_env \<Rightarrow> string \<Rightarrow> process \<Rightarrow> string" where
  "log_file_of E log_path p =
     concatenatePath (env_cwd E) log_path (to_string (stuff_id (proc_stuff p)) @ ''.log'')"

definition await_raft :: "proc_env \<Rightarrow> process \<Rightarrow> boot" where
  "await_raft E p =
     (let p1 = say (bolt @ '' consensus service - init Raft instance '') p
      in case wait_initialized MAX_TRY (is_initialized E) 0 of
           (True, slept) \<Rightarrow> Up (say (replicate (slept div 250) (CHR ''.'') @ '' done'' @ eol) p1)
         | (False, slept) \<Rightarrow> Exited (- 1) (say (replicate (slept div 250) (CHR ''.'') @ '' FAILED'' @ eol) p1))"

definition init_raft :: "proc_env \<Rightarrow> bool \<Rightarrow> string \<Rightarrow> process \<Rightarrow> boot" where
  "init_raft E async_snapshots log_path p =
     and_then (make_dirs_of E (fs_absolute (env_cwd E) log_path) p)
       (\<lambda>p1. let p2 = say (''Server log file: '' @ log_file_of E log_path p1 @ eol) p1
             in case logger_wrapper (env_os E) (env_readdir E) (env_stamp E) (env_tz E) 0
                       (log_file_of E log_path p1) 4 (proc_logs p2) of
                  None \<Rightarrow> Stuck
                | Some lw \<Rightarrow>
                    (let params = init_raft_params (own_call_type p2);
                         p3 = p2\<lparr>proc_logs := lw, has_logger := True, sm_async := Some async_snapshots\<rparr>
                     in if launcher_init E (stuff_port (proc_stuff p3)) params
                        then await_raft E (p3\<lparr>launched := Some params\<rparr>)
                        else Exited (- 1) (p3\<lparr>proc_err := proc_err p3 @
                               ''Failed to initialize launcher (see the message in the log file).'' @ eol\<rparr>)))"

section \<open>Reports\<close>

definition log_range_text :: "u64 \<Rightarrow> u64 \<Rightarrow> string" where
  "log_range_text first slot =
     (case log_range first slot of
        None \<Rightarrow> ''(empty)''
      | Some (a, b) \<Rightarrow> digits_of (unat a) @ '' - '' @ digits_of (unat b))"

definition floppy :: string where "floppy = map char_of [240 :: nat, 159, 146, 190]"

text \<open>\<^verbatim>\<open>print_status\<close>: \<open>snapshot_idx\<close> and \<open>snapshot_term\<close> read a snapshot of NuRaft.\<close>

definition print_status ::
    "int \<Rightarrow> raft_view \<Rightarrow> u64 \<Rightarrow> u64 \<Rightarrow> ('s \<Rightarrow> u64) \<Rightarrow> ('s \<Rightarrow> u64) \<Rightarrow> 's sm_state \<Rightarrow> string" where
  "print_status own_id v first slot snapshot_idx snapshot_term sm =
     ''my server id: '' @ to_string own_id @ eol @
     ''leader id: '' @ to_string (raft_leader v) @ eol @
     ''Raft log range: '' @ log_range_text first slot @ eol @
     ''last committed index: '' @ digits_of (unat (raft_committed v)) @ eol @
     ''current term: '' @ digits_of (unat (raft_term v)) @ eol @
     ''last snapshot log index: '' @
       (case last_snapshot sm of None \<Rightarrow> ''0'' | Some s \<Rightarrow> digits_of (unat (snapshot_idx s))) @ eol @
     ''last snapshot log term: '' @
       (case last_snapshot sm of None \<Rightarrow> ''0'' | Some s \<Rightarrow> digits_of (unat (snapshot_term s))) @ eol @
     floppy @ '' state machine value = '' @ get_current_value sm @ eol"

text \<open>The rows of \<^verbatim>\<open>server_list\<close>; the table itself is printed by a library.\<close>

definition star_text :: string where "star_text = map char_of [226 :: nat, 173, 144]"

definition server_rows :: "raft_view \<Rightarrow> (int \<times> string \<times> string) list" where
  "server_rows v =
     map (\<lambda>(i, endpoint). (i, endpoint, if i = raft_leader v then ''leader '' @ star_text @ '' '' else ''follower''))
       (raft_servers v)"

definition server_list :: "((int \<times> string \<times> string) list \<Rightarrow> string) \<Rightarrow> raft_view \<Rightarrow> string" where
  "server_list table v = eol @ '' Cluster list:'' @ eol @ table (server_rows v) @ eol"

text \<open>
  What \<^verbatim>\<open>append_log\<close> and \<^verbatim>\<open>handle_result\<close> print: \<open>code\<close> is the result code (0 is \<^verbatim>\<open>OK\<close>),
  \<open>ret_value\<close> the number in the buffer that \<^verbatim>\<open>commit\<close> returned.
\<close>

definition handle_result :: "fixed \<Rightarrow> nat \<Rightarrow> int \<Rightarrow> u64 \<Rightarrow> 's sm_state \<Rightarrow> string" where
  "handle_result F us code ret_value sm =
     (if code \<noteq> 0 then ''failed: '' @ to_string code @ '', '' @ usToString F us @ eol
      else ''succeeded'' @ '', '' @ usToString F us @ '', return value: '' @ digits_of (unat ret_value) @
           '', state machine value: '' @ get_current_value sm @ eol)"

definition append_report :: "fixed \<Rightarrow> nat \<Rightarrow> int \<Rightarrow> raft_outcome \<Rightarrow> 's sm_state \<Rightarrow> string" where
  "append_report F us code outcome sm =
     (case outcome of
        Rejected \<Rightarrow> ''failed'' @ '' to replicate: '' @ to_string code @ '', '' @ usToString F us @ eol
      | Not_committed \<Rightarrow> handle_result F us code 0 sm
      | Committed idx \<Rightarrow> handle_result F us 0 idx sm
      | Pending \<Rightarrow> [])"

section \<open>The server\<close>

definition consensus_text :: "config_options \<Rightarrow> process \<Rightarrow> string" where
  "consensus_text c p =
     (if flag_debug c
      then ''    Server ID:    '' @ to_string (stuff_id (proc_stuff p)) @ eol @
           ''    Endpoint:     '' @ stuff_endpoint (proc_stuff p) @ eol @
           (if fst (app_flags p) = async_handler then ''    async handler is enabled'' @ eol else []) @
           (if snd (app_flags p) then ''    snapshots are created asynchronously'' @ eol else [])
      else [])"

text \<open>\<open>report\<close> is what \<^verbatim>\<open>print_status\<close> and \<^verbatim>\<open>server_list\<close> print at that moment.\<close>

definition init_consensus :: "proc_env \<Rightarrow> config_options \<Rightarrow> string \<Rightarrow> process \<Rightarrow> boot" where
  "init_consensus E c report p =
     and_then (init_raft E (snd (app_flags p)) ''./tmp/'' (say (consensus_text c p) p))
       (\<lambda>p1. Up (if flag_debug c then say report p1 else p1))"

text \<open>The node of this process joins the members if it is not among them.\<close>

definition init_server_info_proc :: "config_options \<Rightarrow> process \<Rightarrow> process" where
  "init_server_info_proc c p =
     (let self = toString (getAddress c);
          p1 = (case om_find (proc_members p) self of
                  None \<Rightarrow> p\<lparr>proc_current := Some self, proc_members := om_insert self self (proc_members p)\<rparr>
                | Some endpoint \<Rightarrow> p\<lparr>proc_current := Some endpoint\<rparr>)
      in if flag_leader c
         then (if flag_debug c then say (''We are leader'' @ eol) p1 else p1)\<lparr>proc_master := Some self\<rparr>
         else p1\<lparr>proc_master := Some []\<rparr>)"

text \<open>\<^verbatim>\<open>m_app\<close> of \<^verbatim>\<open>main\<close> up to the running server.\<close>

definition run_app :: "proc_env \<Rightarrow> config_options \<Rightarrow> string \<Rightarrow> process \<Rightarrow> boot" where
  "run_app E c report p =
     and_then (static_instance E c (say (''mode = APP'' @ eol) p))
       (\<lambda>p1. and_then (init_consensus E c report p1)
          (\<lambda>p2. Up (say (bolt @ '' lock service: '' @ toString (getAddress c) @ eol) (init_server_info_proc c p2))))"

text \<open>An address on a stream.\<close>

definition address_text :: "Address \<Rightarrow> string" where
  "address_text n = ''address: '' @ address n @ '', port: '' @ digits_of (unat (port n))"

text \<open>\<^verbatim>\<open>stuff.reset()\<close> after the server has exited, and the address \<^verbatim>\<open>run_gRPC_server\<close> listens on.\<close>

definition reset_stuff :: "process \<Rightarrow> process" where
  "reset_stuff p = p\<lparr>has_logger := False, sm_async := None, launched := None\<rparr>"

definition listening_address :: "Address \<Rightarrow> string" where
  "listening_address a = address a @ '':'' @ digits_of (unat (port a))"

text \<open>
  \<^verbatim>\<open>run_gRPC_server\<close>: \<open>build\<close> says whether \<^verbatim>\<open>BuildAndStart\<close> gives a server for an address, which
  it does not when the port is taken; the null pointer is then dereferenced. A clock text is
  the result of \<^verbatim>\<open>getClockTime\<close>.
\<close>

definition say_time :: "string result \<Rightarrow> string \<Rightarrow> process \<Rightarrow> boot" where
  "say_time clock rest p = (case clock of Inl e \<Rightarrow> Threw e p | Inr t \<Rightarrow> Up (say (t @ rest) p))"

definition run_gRPC_server ::
    "(string \<Rightarrow> bool) \<Rightarrow> string result \<Rightarrow> string result \<Rightarrow> Address \<Rightarrow> process \<Rightarrow> boot" where
  "run_gRPC_server build started exited a p =
     and_then (say_time started (''Server started'' @ eol) p)
       (\<lambda>p1. if \<not> build (listening_address a) then Threw UndefinedBehaviour p1
             else say_time exited (''Server exited'' @ eol) p1)"

text \<open>
  \<^verbatim>\<open>main\<close>: options, the server, and the way down when it has exited; every mode runs the
  server. \<open>clock i\<close> is the \<open>i\<close>-th clock text; the help texts are not part of what is printed.
\<close>

definition server_main ::
    "po_api \<Rightarrow> proc_env \<Rightarrow> string \<Rightarrow> string list \<Rightarrow> config_options \<Rightarrow> (nat \<Rightarrow> string result) \<Rightarrow> string \<Rightarrow>
     (string \<Rightarrow> bool) \<Rightarrow> log_world \<Rightarrow> boot" where
  "server_main P E executablePath argv fresh clock report build lw =
     and_then (say_time (clock 0) eol (new_process lw))
       (\<lambda>p0. case main_options P (env_cwd E) executablePath argv fresh of
          None \<Rightarrow> Exited 1 p0
        | Some (Inl e) \<Rightarrow> Threw e p0
        | Some (Inr (help, c, _, _)) \<Rightarrow>
            if help then Exited 0 p0
            else and_then (run_app E c report p0)
                   (\<lambda>p1. and_then (run_gRPC_server build (clock 1) (clock 2) (getAddress c) p1)
                      (\<lambda>p2. and_then (say_time (clock 3) (''Node exited'' @ eol) (reset_stuff p2)) (Exited 0))))"

section \<open>Lemmas\<close>

lemma and_then_simps [simp]:
  "and_then (Up p) f = f p" "and_then (Exited rc p) f = Exited rc p"
  "and_then (Threw e p) f = Threw e p" "and_then Stuck f = Stuck"
  by (simp_all add: and_then_def)

lemma say_frame [simp]:
  "proc_members (say s p) = proc_members p" "proc_current (say s p) = proc_current p"
  "proc_stuff (say s p) = proc_stuff p" "app_flags (say s p) = app_flags p"
  "own_call_type (say s p) = own_call_type p" "sm_async (say s p) = sm_async p"
  "launched (say s p) = launched p" "proc_logs (say s p) = proc_logs p" "proc_master (say s p) = proc_master p"
  by (simp_all add: say_def)

text \<open>Registering after parsing everything gives the members that the combined loop gives.\<close>

lemma member_list_parse:
  "member_list split lexical_cast l m =
    map_sum id (\<lambda>as. foldl (\<lambda>m a. om_insert (toString a) (toString a) m) m as)
      (parse_addresses split lexical_cast l)"
proof (induction l arbitrary: m)
  case (Cons a l)
  show ?case
  proof (cases "make_address split lexical_cast a")
    case (Inr addr)
    show ?thesis
      by (cases "parse_addresses split lexical_cast l")
        (use Cons.IH [of "om_insert (toString addr) (toString addr) m"] Inr in simp_all)
  qed simp
qed simp

lemma parse_addresses_members:
  assumes "boost_split_law split" and "boost_cast_law lexical_cast"
    and "\<forall>a \<in> set as. CHR '':'' \<notin> set (address a)"
  obtains bs where "parse_addresses split lexical_cast (map toString as) = Inr bs"
    and "om_wf (foldl (\<lambda>m a. om_insert (toString a) (toString a) m) [] bs)"
    and "\<forall>e \<in> set (foldl (\<lambda>m a. om_insert (toString a) (toString a) m) [] bs). fst e = snd e"
    and "fst ` set (foldl (\<lambda>m a. om_insert (toString a) (toString a) m) [] bs) = toString ` set as"
proof -
  obtain m where m: "member_list split lexical_cast (map toString as) [] = Inr m" "om_wf m"
    "\<forall>e \<in> set m. fst e = snd e" "fst ` set m = toString ` set as"
    using member_list_addresses [OF assms, of "[]"] by auto
  show thesis
  proof (cases "parse_addresses split lexical_cast (map toString as)")
    case (Inl e)
    with m(1) show thesis by (simp add: member_list_parse)
  next
    case (Inr bs)
    with m show thesis by (intro that [of bs]) (simp_all add: member_list_parse)
  qed
qed

lemma init_raft_outcome:
  assumes "mkdirs E (fs_absolute (env_cwd E) log_path)"
    and "logger_wrapper (env_os E) (env_readdir E) (env_stamp E) (env_tz E) 0 (log_file_of E log_path p) 4
      (proc_logs p) = Some lw"
  shows "case init_raft E async_snapshots log_path p of
      Up p' \<Rightarrow> launcher_init E (stuff_port (proc_stuff p)) (init_raft_params (own_call_type p))
        \<and> (\<exists>i < 100. is_initialized E i)
        \<and> launched p' = Some (init_raft_params (own_call_type p)) \<and> sm_async p' = Some async_snapshots
        \<and> proc_members p' = proc_members p \<and> proc_stuff p' = proc_stuff p \<and> proc_logs p' = lw
    | Exited rc p' \<Rightarrow> rc = - 1 \<and>
        \<not> (launcher_init E (stuff_port (proc_stuff p)) (init_raft_params (own_call_type p))
           \<and> (\<exists>i < 100. is_initialized E i))
    | _ \<Rightarrow> False"
proof -
  have f: "log_file_of E log_path (p\<lparr>proc_dirs := ds\<rparr>) = log_file_of E log_path p" for ds
    by (simp add: log_file_of_def)
  show ?thesis
  proof (cases "\<exists>i < 100. is_initialized E i")
    case True
    define i where "i = (LEAST i. is_initialized E i)"
    have "is_initialized E i" using True LeastI_ex unfolding i_def by blast
    moreover have "i < 100" using True Least_le [of "is_initialized E"] unfolding i_def by fastforce
    moreover have "\<not> is_initialized E j" if "j < i" for j using that not_less_Least unfolding i_def by blast
    ultimately have "wait_initialized MAX_TRY (is_initialized E) 0 = (True, 0 + 250 * i)"
      by (intro wait_initialized_first) (simp_all add: MAX_TRY_def)
    then show ?thesis
      using assms True by (simp add: init_raft_def make_dirs_of_def f await_raft_def Let_def)
  next
    case False
    then have "wait_initialized MAX_TRY (is_initialized E) 0 = (False, 0 + 250 * MAX_TRY)"
      by (intro wait_initialized_never) (simp add: MAX_TRY_def)
    then show ?thesis
      using assms False by (simp add: init_raft_def make_dirs_of_def f await_raft_def Let_def)
  qed
qed

end
