(* ===== verification/ProcessProperties.thy ===== *)
theory ProcessProperties
  imports ServerProcess StartupProperties LoggerMgrProperties
begin

text \<open>
  The property of a server's start-up as a whole, from the options to the running service.
\<close>

section \<open>Starting the logger\<close>

text \<open>A new logger's slots are all free, so \<^verbatim>\<open>logger_wrapper\<close> returns, opened file or not.\<close>

lemma log_macro_outcome:
  assumes "logger_at ring_ok w l"
  obtains w' where "log_macro os stamp level l f n s w = Some w'" and "logger_at ring_ok w' l"
proof (cases "om_find (heap w) l")
  case None
  with assms that show thesis by (simp add: log_macro_def)
next
  case (Some lg)
  obtain w' where "put_at os stamp l level (Some (source_name os, f)) n s w = Some w'" "logger_at ring_ok w' l"
    using put_at_outcome [OF assms] by metis
  with Some assms that show thesis by (cases "int level \<le> curLogLevel lg") (simp_all add: log_macro_def)
qed

lemma logger_wrapper_returns: "\<exists>w'. logger_wrapper os readdir stamp tz l log_file level w = Some w'"
proof -
  obtain lo hi where rev: "findMinMaxRevNum readdir (replace_all ''//'' ''/'' log_file) = (lo, hi)" by fastforce
  have "replaceString log_file ''//'' ''/'' = Some (replace_all ''//'' ''/'' log_file)"
    using replace_loop_reference [of "''//''" 0 log_file "''/''" "[]"] by (simp add: replaceString_def)
  then obtain lg where lg: "new_logger readdir tz log_file 1024 (32 * 1024 * 1024) 10 = Some lg" "ring_ok lg"
    by (simp add: new_logger_def rev ring_ok_def available_def new_elem_def)
  let ?lg = "setDispLevel (- 1) (setLogLevel level lg)"
  let ?w1 = "w\<lparr>heap := om_assign l ?lg (heap w)\<rparr>"
  let ?w2 = "logger_setCrashDumpPath ''./'' True ?w1"
  have ring: "ring_ok ?lg" using lg(2) by (simp add: setDispLevel_def setLogLevel_def ring_ok_def)
  have at: "om_find (heap ?w2) l = Some ?lg"
    by (simp add: logger_setCrashDumpPath_def mgr_get_def find_assign split: option.split)
  have "\<exists>r. logger_start os stamp l ?w2 = Some r"
  proof (cases "filePath ?lg = []")
    case True
    then show ?thesis using at by (simp add: logger_start_def)
  next
    case False
    obtain lg1 fs1 where o: "fs_open (can_open os) (getLogFilePath (filePath ?lg) (curRevnum ?lg)) ?lg (disk ?w2) = (lg1, fs1)"
      by fastforce
    then have ring1: "ring_ok lg1" using ring by (auto simp: fs_open_def ring_ok_def split: if_splits)
    let ?w3 = "?w2\<lparr>heap := om_assign l lg1 (heap ?w2), disk := fs1\<rparr>"
    obtain m w4 where m: "mgr_get ?w3 = (m, w4)" by fastforce
    then have "heap w4 = heap ?w3" by (auto simp: mgr_get_def split: option.splits)
    then have "logger_at ring_ok (upd_mgr (addLogger l) w4) l" using ring1 by (simp add: logger_at_def find_assign)
    then obtain w5 where w5: "log_macro os stamp 0 l ''start'' 737 (start_message lg1) (upd_mgr (addLogger l) w4) = Some w5"
      "logger_at ring_ok w5 l"
      by (rule log_macro_outcome)
    obtain w6 where w6: "log_macro os stamp 4 l ''start'' 741 (globalCriticalInfo m) w5 = Some w6"
      using log_macro_outcome [OF w5(2)] by blast
    show ?thesis
    proof (cases "fs_good lg1")
      case True
      then show ?thesis
        unfolding logger_start_def at option.case o prod.case Let_def m
        by (simp add: False w5(1) w6)
    next
      case fb: False
      then show ?thesis
        unfolding logger_start_def at option.case o prod.case Let_def m by (simp add: False)
    qed
  qed
  then show ?thesis unfolding logger_wrapper_def lg(1) option.case Let_def by auto
qed

section \<open>Starting a server\<close>

lemma static_instance_outcome:
  assumes "boost_split_law (env_split E)" and "boost_cast_law (env_cast E)"
    and "\<forall>a \<in> set as. CHR '':'' \<notin> set (address a)" and "opt_cluster c = map toString as"
    and "mkdirs E (fs_absolute (env_cwd E) (opt_directory c))"
  obtains p' where "static_instance E c p = Up p'" and "om_wf (proc_members p')"
    and "\<forall>e \<in> set (proc_members p'). fst e = snd e"
    and "fst ` set (proc_members p') = toString ` set as" and "proc_stuff p' = init_stuff (consensus_of c)"
    and "own_call_type p' = own_call_type p" and "proc_logs p' = proc_logs p"
    and "app_flags p' = init_flags (flags_of c)"
proof -
  obtain bs where bs: "parse_addresses (env_split E) (env_cast E) (map toString as) = Inr bs"
    "om_wf (foldl (\<lambda>m a. om_insert (toString a) (toString a) m) [] bs)"
    "\<forall>e \<in> set (foldl (\<lambda>m a. om_insert (toString a) (toString a) m) [] bs). fst e = snd e"
    "fst ` set (foldl (\<lambda>m a. om_insert (toString a) (toString a) m) [] bs) = toString ` set as"
    by (rule parse_addresses_members [OF assms(1-3)])
  let ?m = "foldl (\<lambda>m a. om_insert (toString a) (toString a) m) [] bs"
  let ?p = "(say (registered_text ?m c bs)
      (p\<lparr>proc_dirs := proc_dirs p @ [fs_absolute (env_cwd E) (opt_directory c)]\<rparr>))
        \<lparr>proc_members := ?m, proc_stuff := init_stuff (consensus_of c), app_flags := init_flags (flags_of c)\<rparr>"
  have "static_instance E c p = Up ?p"
    by (simp only: static_instance_def make_dirs_of_def assms(4,5) bs(1) and_then_simps if_True sum.case Let_def)
  then show thesis
  proof (rule that)
    show "om_wf (proc_members ?p)" using bs(2) by simp
    show "\<forall>e \<in> set (proc_members ?p). fst e = snd e" using bs(3) by simp
    show "fst ` set (proc_members ?p) = toString ` set as" using bs(4) by simp
  qed simp_all
qed

lemma joined_members:
  assumes "om_wf (proc_members p)" and "\<forall>e \<in> set (proc_members p). fst e = snd e"
  shows "proc_current (init_server_info_proc c p) = Some (toString (getAddress c))"
    and "om_find (proc_members (init_server_info_proc c p)) (toString (getAddress c)) = Some (toString (getAddress c))"
    and "fst ` set (proc_members (init_server_info_proc c p)) =
      insert (toString (getAddress c)) (fst ` set (proc_members p))"
    and "launched (init_server_info_proc c p) = launched p" and "sm_async (init_server_info_proc c p) = sm_async p"
    and "proc_stuff (init_server_info_proc c p) = proc_stuff p"
proof -
  let ?self = "toString (getAddress c)"
  have same: "om_find (proc_members p) ?self = Some x \<Longrightarrow> x = ?self" for x
    using assms(2) by (force dest: map_of_SomeD)
  show "proc_current (init_server_info_proc c p) = Some ?self"
    "launched (init_server_info_proc c p) = launched p" "sm_async (init_server_info_proc c p) = sm_async p"
    "proc_stuff (init_server_info_proc c p) = proc_stuff p"
    using same by (auto simp: init_server_info_proc_def Let_def split: option.splits)
  have m: "proc_members (init_server_info_proc c p) =
      (case om_find (proc_members p) ?self of None \<Rightarrow> om_insert ?self ?self (proc_members p) | Some _ \<Rightarrow> proc_members p)"
    by (auto simp: init_server_info_proc_def Let_def split: option.splits)
  show "om_find (proc_members (init_server_info_proc c p)) ?self = Some ?self"
    using same by (auto simp: m find_insert split: option.splits)
  show "fst ` set (proc_members (init_server_info_proc c p)) = insert ?self (fst ` set (proc_members p))"
  proof (cases "om_find (proc_members p) ?self")
    case None
    then show ?thesis by (auto simp: m om_insert_def set_assign)
  next
    case (Some a)
    then have "?self \<in> fst ` set (proc_members p)" by (metis fst_conv image_eqI map_of_SomeD)
    then show ?thesis by (auto simp: m Some)
  qed
qed

text \<open>C22: A server whose directories can be made comes up exactly when
  Raft's launcher gives an instance and one of the first hundred polls finds it initialised,
  and otherwise ends with \<^verbatim>\<open>exit(-1)\<close>. A server that is up has itself among its members, next
  to the configured ones, under its address; and Raft was started with the blocking return
  method whatever the option for the asynchronous handler says, as each translation unit has
  its own copy of the flag.\<close>

theorem server_starts:
  assumes "boost_split_law (env_split E)" and "boost_cast_law (env_cast E)"
    and "\<forall>a \<in> set as. CHR '':'' \<notin> set (address a)" and "opt_cluster c = map toString as"
    and "\<forall>d \<in> {fs_absolute (env_cwd E) (opt_directory c), fs_absolute (env_cwd E) ''./tmp/''}. mkdirs E d"
  shows "case run_app E c report (new_process lw) of
      Up p \<Rightarrow> launcher_init E (opt_consensus_port c) (init_raft_params blocking) \<and> (\<exists>i < 100. is_initialized E i)
        \<and> launched p = Some (init_raft_params blocking)
        \<and> proc_current p = Some (toString (getAddress c))
        \<and> om_find (proc_members p) (toString (getAddress c)) = Some (toString (getAddress c))
        \<and> fst ` set (proc_members p) = insert (toString (getAddress c)) (toString ` set as)
        \<and> sm_async p = Some (\<not> opt_asyncSnapshotCreation c \<and> opt_asyncHandler c)
    | Exited rc p \<Rightarrow> rc = - 1 \<and>
        \<not> (launcher_init E (opt_consensus_port c) (init_raft_params blocking) \<and> (\<exists>i < 100. is_initialized E i))
    | _ \<Rightarrow> False"
proof -
  let ?p0 = "say (''mode = APP'' @ eol) (new_process lw)"
  have dirs: "mkdirs E (fs_absolute (env_cwd E) (opt_directory c))" "mkdirs E (fs_absolute (env_cwd E) ''./tmp/'')"
    using assms(5) by simp_all
  obtain p1 where p1: "static_instance E c ?p0 = Up p1" "om_wf (proc_members p1)"
    "\<forall>e \<in> set (proc_members p1). fst e = snd e" "fst ` set (proc_members p1) = toString ` set as"
    "proc_stuff p1 = init_stuff (consensus_of c)" "own_call_type p1 = blocking" "proc_logs p1 = lw"
    "app_flags p1 = init_flags (flags_of c)"
    by (rule static_instance_outcome [OF assms(1-4) dirs(1), of ?p0]) (simp add: new_process_def)
  let ?q = "say (consensus_text c p1) p1"
  have s: "stuff_id (proc_stuff p1) = opt_serverId c" "stuff_port (proc_stuff p1) = opt_consensus_port c"
    by (simp_all add: p1(5) init_stuff_def consensus_of_def)
  obtain lw' where start: "logger_wrapper (env_os E) (env_readdir E) (env_stamp E) (env_tz E) 0
      (log_file_of E ''./tmp/'' ?q) 4 (proc_logs ?q) = Some lw'"
    using logger_wrapper_returns by blast
  have fl: "snd (init_flags (flags_of c)) = (\<not> opt_asyncSnapshotCreation c \<and> opt_asyncHandler c)"
    by (simp add: init_flags_def flags_of_def)
  note raft = init_raft_outcome [OF dirs(2) start, of "snd (app_flags p1)", unfolded say_frame s(2) p1(6)]
  show ?thesis
  proof (cases "init_raft E (snd (app_flags p1)) ''./tmp/'' ?q")
    case (Up p2)
    let ?p3 = "if flag_debug c then say report p2 else p2"
    have p3: "proc_members ?p3 = proc_members p1" "launched ?p3 = Some (init_raft_params blocking)"
      "sm_async ?p3 = Some (snd (app_flags p1))"
      using raft Up by simp_all
    have run: "run_app E c report (new_process lw) =
        Up (say (bolt @ '' lock service: '' @ toString (getAddress c) @ eol) (init_server_info_proc c ?p3))"
      by (simp only: run_app_def p1(1) init_consensus_def Up and_then_simps)
    have "om_wf (proc_members ?p3)" "\<forall>e \<in> set (proc_members ?p3). fst e = snd e" using p1(2,3) p3(1) by simp_all
    note join = joined_members [OF this, of c]
    show ?thesis
      unfolding run using raft Up join p3 p1(4,8) fl by (simp only: boot.case say_frame)
  next
    case (Exited rc p2)
    then have "run_app E c report (new_process lw) = Exited rc p2"
      by (simp only: run_app_def p1(1) init_consensus_def and_then_simps)
    then show ?thesis using raft Exited by (simp only: boot.case) simp
  qed (use raft in simp_all)
qed

text \<open>A server with the asynchronous handler asked for; Raft is initialised at the third poll.\<close>

definition demo_env :: proc_env where
  "demo_env =
     \<lparr>env_cwd = ''/'', env_split = demo_split, env_cast = demo_cast, mkdirs = (\<lambda>d. True),
      launcher_init = (\<lambda>p ps. True), is_initialized = (\<lambda>i. i = 2),
      env_os = \<lparr>can_open = (\<lambda>f. True), shell = (\<lambda>c fs. fs), getenv = (\<lambda>v. None), source_name = ''debugger.cc''\<rparr>,
      env_readdir = (\<lambda>d. []),
      env_stamp = \<lparr>stamp_time = \<lparr>year = 2023, month = 5, day = 1, hour = 10, minute = 0, sec = 0, msec = 0, usec = 0\<rparr>,
        stamp_width = 1, stamp_tid = 7, stack_buf = []\<rparr>,
      env_tz = 0\<rparr>"

definition demo_options :: config_options where
  "demo_options =
     \<lparr>opt_config = [], opt_ip = ''h1'', opt_port = 1, opt_directory = ''data'',
      opt_cluster = map toString demo_addresses, opt_mode = APP, flag_debug = False, flag_leader = False,
      flag_local_ubuntu = False, flag_latency = False, flag_election = True, flag_timeout = 0, flag_failrate = 0,
      opt_serverId = 1, opt_endpoint = ''h1:9000'', opt_consensus_port = 9000, opt_consensus_address = ''h1'',
      opt_asyncSnapshotCreation = True, opt_asyncHandler = False\<rparr>"

definition empty_logs :: log_world where
  "empty_logs = \<lparr>mgr = None, heap = [], disk = [], console = []\<rparr>"

theorem server_starts_witness:
  "case run_app demo_env demo_options [] (new_process empty_logs) of
     Up p \<Rightarrow> launched p = Some (init_raft_params blocking) \<and> proc_current p = Some ''h1:1''
   | _ \<Rightarrow> False"
proof -
  have e: "boost_split_law (env_split demo_env)" "boost_cast_law (env_cast demo_env)"
    using demo_boost_laws by (simp_all add: demo_env_def)
  have as: "\<forall>a \<in> set demo_addresses. CHR '':'' \<notin> set (address a)" by (simp add: demo_addresses_def)
  have c: "opt_cluster demo_options = map toString demo_addresses" by (simp add: demo_options_def)
  have d: "\<forall>d \<in> {fs_absolute (env_cwd demo_env) (opt_directory demo_options), fs_absolute (env_cwd demo_env) ''./tmp/''}.
      mkdirs demo_env d"
    by (simp add: demo_env_def)
  have i: "launcher_init demo_env p ps" "\<exists>i < 100. is_initialized demo_env i" for p ps
    by (auto simp: demo_env_def intro: exI [of _ 2])
  have s: "toString (getAddress demo_options) = ''h1:1''" by code_simp
  from server_starts [OF e as c d, of "[]" empty_logs] show ?thesis
    by (cases "run_app demo_env demo_options [] (new_process empty_logs)") (simp_all only: boot.case i s simp_thms)
qed

end
