(* ===== verification/TestTools.thy ===== *)
theory TestTools
  imports TestSuite LoggerCrash
begin

text \<open>
  The tools for writing tests in \<^verbatim>\<open>include/utility.h\<close>: the assertion macros, timed messages,
  the message stream, the printout of RPC counts, scoped restorations and held threads. A
  macro's text is that of its site; its value types are arguments: \<open>cast\<close> is the conversion to
  the type of the first operand, which every comparison applies to the second, and \<open>shown\<close> the
  insertion into a stream.
\<close>

section \<open>Colours\<close>

datatype colour = D_GRAY | GREEN | B_GREEN | RED | B_RED | BROWN | B_BROWN | BLUE | B_BLUE | MAGENTA
  | B_MAGENTA | CYAN | B_GREY | WHITE_FG_RED_BG

fun CLM :: "colour \<Rightarrow> string" where
  "CLM D_GRAY = ESC @ ''[1;30m''"
| "CLM GREEN = ESC @ ''[32m''"
| "CLM B_GREEN = ESC @ ''[1;32m''"
| "CLM RED = ESC @ ''[31m''"
| "CLM B_RED = ESC @ ''[1;31m''"
| "CLM BROWN = ESC @ ''[33m''"
| "CLM B_BROWN = ESC @ ''[1;33m''"
| "CLM BLUE = ESC @ ''[34m''"
| "CLM B_BLUE = ESC @ ''[1;34m''"
| "CLM MAGENTA = ESC @ ''[35m''"
| "CLM B_MAGENTA = ESC @ ''[1;35m''"
| "CLM CYAN = ESC @ ''[36m''"
| "CLM B_GREY = ESC @ ''[1;37m''"
| "CLM WHITE_FG_RED_BG = ESC @ ''[37;41m''"

definition CL :: "colour \<Rightarrow> string \<Rightarrow> string" where
  "CL c s = CLM c @ s @ CLM_END"

section \<open>Assertions\<close>

record check_site =
  at_time :: string
  at_thread :: nat
  at_func :: string
  at_file :: string
  at_line :: nat

definition stack_info :: "check_site \<Rightarrow> string" where
  "stack_info site =
     eol @ ''        time: '' @ CL D_GRAY (at_time site) @ eol @
     ''      thread: '' @ CL BROWN (hex4 (at_thread site mod 65536)) @ eol @
     ''          in: '' @ CL CYAN (at_func site @ ''()'') @ eol @
     ''          at: '' @ CL GREEN (at_file site) @ '':'' @ CL B_MAGENTA (digits_of (at_line site)) @ eol"

text \<open>A macro goes on (\<open>True\<close>) or prints and makes the test return -1 (\<open>False\<close>).\<close>

definition check :: "bool \<Rightarrow> check_site \<Rightarrow> string \<Rightarrow> 'w suite \<Rightarrow> bool \<times> 'w suite" where
  "check ok site text t = (if ok then (True, t) else (False, failHandler (put_text (stack_info site @ text) t)))"

definition value_lines :: "string \<Rightarrow> string \<Rightarrow> string \<Rightarrow> string" where
  "value_lines name expected actual =
     ''    value of: '' @ CL B_BLUE name @ eol @ ''    expected: '' @ expected @ eol @
     ''      actual: '' @ CL B_RED actual @ eol"

definition CHK_EQ ::
    "('b \<Rightarrow> 'a) \<Rightarrow> ('a \<Rightarrow> string) \<Rightarrow> check_site \<Rightarrow> string \<Rightarrow> 'a \<Rightarrow> 'b \<Rightarrow> 'w suite \<Rightarrow> bool \<times> 'w suite" where
  "CHK_EQ cast shown site name exp_value val t =
     (let ev = exp_value; v = cast val
      in check (\<not> ev \<noteq> v) site (value_lines name (CL B_GREEN (shown ev)) (shown v)) t)"

definition CHK_NEQ ::
    "('b \<Rightarrow> 'a) \<Rightarrow> ('a \<Rightarrow> string) \<Rightarrow> check_site \<Rightarrow> string \<Rightarrow> 'a \<Rightarrow> 'b \<Rightarrow> 'w suite \<Rightarrow> bool \<times> 'w suite" where
  "CHK_NEQ cast shown site name exp_value val t =
     (let ev = exp_value; v = cast val
      in check (\<not> ev = v) site (value_lines name (''not '' @ CL B_GREEN (shown ev)) (shown v)) t)"

definition CHK_OK :: "check_site \<Rightarrow> string \<Rightarrow> bool \<Rightarrow> 'w suite \<Rightarrow> bool \<times> 'w suite" where
  "CHK_OK site name val t = check val site (value_lines name (CL B_GREEN ''true'') ''false'') t"

definition CHK_NOT :: "check_site \<Rightarrow> string \<Rightarrow> bool \<Rightarrow> 'w suite \<Rightarrow> bool \<times> 'w suite" where
  "CHK_NOT site name val t = check (\<not> val) site (value_lines name (CL B_GREEN ''false'') ''true'') t"

text \<open>Pointers are addresses, 0 the null pointer.\<close>

definition CHK_NULL :: "check_site \<Rightarrow> string \<Rightarrow> nat \<Rightarrow> 'w suite \<Rightarrow> bool \<times> 'w suite" where
  "CHK_NULL site name p t = check (p = 0) site (value_lines name (CL B_GREEN ''NULL'') (''0x'' @ hex_of p)) t"

definition CHK_NONNULL :: "check_site \<Rightarrow> string \<Rightarrow> nat \<Rightarrow> 'w suite \<Rightarrow> bool \<times> 'w suite" where
  "CHK_NONNULL site name p t = check (p \<noteq> 0) site (value_lines name (CL B_GREEN ''non-NULL'') ''NULL'') t"

definition CHK_Z :: "('a::zero \<Rightarrow> string) \<Rightarrow> check_site \<Rightarrow> string \<Rightarrow> 'a \<Rightarrow> 'w suite \<Rightarrow> bool \<times> 'w suite" where
  "CHK_Z shown site name val t = check (\<not> 0 \<noteq> val) site (value_lines name (CL B_GREEN ''0'') (shown val)) t"

text \<open>The ordering macros: the other operand's value is converted to the smaller one's type.\<close>

definition order_lines :: "string \<Rightarrow> string \<times> string \<Rightarrow> string \<times> string \<Rightarrow> string" where
  "order_lines rel a b =
     ''    expected: '' @ CL B_BLUE (fst a @ rel @ fst b) @ eol @
     ''    value of '' @ CL B_GREEN (fst a) @ '': '' @ CL B_RED (snd a) @ eol @
     ''    value of '' @ CL B_GREEN (fst b) @ '': '' @ CL B_RED (snd b) @ eol"

definition CHK_SM ::
    "('b \<Rightarrow> 'a::linorder) \<Rightarrow> ('a \<Rightarrow> string) \<Rightarrow> check_site \<Rightarrow> string \<Rightarrow> string \<Rightarrow> 'a \<Rightarrow> 'b \<Rightarrow> 'w suite \<Rightarrow> bool \<times> 'w suite" where
  "CHK_SM cast shown site sname gname sv gv t =
     (let sm = sv; gt = cast gv
      in check (sm < gt) site (order_lines '' < '' (sname, shown sm) (gname, shown gt)) t)"

definition CHK_SMEQ ::
    "('b \<Rightarrow> 'a::linorder) \<Rightarrow> ('a \<Rightarrow> string) \<Rightarrow> check_site \<Rightarrow> string \<Rightarrow> string \<Rightarrow> 'a \<Rightarrow> 'b \<Rightarrow> 'w suite \<Rightarrow> bool \<times> 'w suite" where
  "CHK_SMEQ cast shown site sname gname sv gv t =
     (let sm = sv; gt = cast gv
      in check (sm \<le> gt) site (order_lines '' <= '' (sname, shown sm) (gname, shown gt)) t)"

definition CHK_GT ::
    "('b \<Rightarrow> 'a::linorder) \<Rightarrow> ('a \<Rightarrow> string) \<Rightarrow> check_site \<Rightarrow> string \<Rightarrow> string \<Rightarrow> 'b \<Rightarrow> 'a \<Rightarrow> 'w suite \<Rightarrow> bool \<times> 'w suite" where
  "CHK_GT cast shown site gname sname gv sv t =
     (let sm = sv; gt = cast gv
      in check (gt > sm) site (order_lines '' > '' (gname, shown gt) (sname, shown sm)) t)"

definition CHK_GTEQ ::
    "('b \<Rightarrow> 'a::linorder) \<Rightarrow> ('a \<Rightarrow> string) \<Rightarrow> check_site \<Rightarrow> string \<Rightarrow> string \<Rightarrow> 'b \<Rightarrow> 'a \<Rightarrow> 'w suite \<Rightarrow> bool \<times> 'w suite" where
  "CHK_GTEQ cast shown site gname sname gv sv t =
     (let sm = sv; gt = cast gv
      in check (gt \<ge> sm) site (order_lines '' >= '' (gname, shown gt) (sname, shown sm)) t)"

text \<open>The body of a test that is a sequence of these macros and returns 0 at its end.\<close>

fun run_checks :: "('w suite \<Rightarrow> bool \<times> 'w suite) list \<Rightarrow> 'w suite \<Rightarrow> int \<times> 'w suite" where
  "run_checks [] t = (0, t)"
| "run_checks (c # cs) t = (case c t of (True, t') \<Rightarrow> run_checks cs t' | (False, t') \<Rightarrow> (- 1, t'))"

section \<open>Messages\<close>

text \<open>\<^verbatim>\<open>_msgt\<close> prints the time, which its result does not count.\<close>

definition msgt :: "TimeInfo \<Rightarrow> string \<Rightarrow> 'w suite \<Rightarrow> nat \<times> 'w suite" where
  "msgt now s t =
     (if isMsgAllowed t
      then (length s, put_text s (put_text (CL D_GRAY (getTimeStringShort now) @ ''] '') t))
      else (0, t))"

text \<open>\<^verbatim>\<open>Msg::operator<<\<close> on the text of a value, or of a manipulator.\<close>

definition msg_stream :: "string \<Rightarrow> 'w suite \<Rightarrow> 'w suite" where
  "msg_stream data t = (if isMsgAllowed t then put_text data t else t)"

datatype sleep_unit = us_unit | ms_unit | s_unit

fun unit_text :: "sleep_unit \<Rightarrow> string" where
  "unit_text us_unit = ''us''"
| "unit_text ms_unit = ''ms''"
| "unit_text s_unit = ''s''"

text \<open>\<^verbatim>\<open>sleep_us\<close>, \<^verbatim>\<open>sleep_ms\<close> and \<^verbatim>\<open>sleep_sec\<close>: the suite after the message, and the time slept.\<close>

definition sleep_for :: "sleep_unit \<Rightarrow> nat \<Rightarrow> string \<Rightarrow> 'w suite \<Rightarrow> (sleep_unit \<times> nat) \<times> 'w suite" where
  "sleep_for u n msg t =
     ((u, n), if msg \<noteq> [] then snd (msg_out (msg @ '' ('' @ digits_of n @ '' '' @ unit_text u @ '')'' @ eol) t) else t)"

definition counts_text :: "rpc_type \<Rightarrow> Statistics \<Rightarrow> string" where
  "counts_text ty s =
     (let l = (case ty of incoming \<Rightarrow> incount s | outgoing \<Rightarrow> outcount s)
      in ''registered rpc call counts: ['' @ concat (map (\<lambda>(k, v). '', '' @ k) l) @ '']'' @ eol)"

section \<open>Scopes and threads\<close>

text \<open>\<^verbatim>\<open>GcVar\<close>: the scope's body runs, then the variable is set whatever it was; \<^verbatim>\<open>GcFunc\<close> runs a function.\<close>

definition gc_var :: "('s \<Rightarrow> 's) \<Rightarrow> ('s \<Rightarrow> 's) \<Rightarrow> 's \<Rightarrow> 's" where
  "gc_var set_back body s = set_back (body s)"

definition gc_func :: "('s \<Rightarrow> 's) \<Rightarrow> ('s \<Rightarrow> 's) \<Rightarrow> 's \<Rightarrow> 's" where
  "gc_func func body s = func (body s)"

text \<open>
  A held thread: whether its function has run is part of the state, and joining waits for it.
  \<open>handled\<close> counts the calls of the exit handler; \<open>'a\<close> are the user's arguments.
\<close>

datatype thread_state = Running | Finished

record 'a thread_holder =
  tid :: "thread_state option"
  user_args :: "'a option"
  thread_rc :: int
  handled :: nat

definition new_holder :: "'a thread_holder" where
  "new_holder = \<lparr>tid = None, user_args = None, thread_rc = 0, handled = 0\<rparr>"

definition spawn :: "'a \<Rightarrow> 'a thread_holder \<Rightarrow> 'a thread_holder" where
  "spawn u_args h = (if tid h \<noteq> None then h else h\<lparr>user_args := Some u_args, tid := Some Running\<rparr>)"

text \<open>The thread runs: \<^verbatim>\<open>spawnThread\<close> stores what the function returns.\<close>

definition spawnThread :: "('a \<Rightarrow> int) \<Rightarrow> 'a thread_holder \<Rightarrow> 'a thread_holder" where
  "spawnThread func h =
     (case (tid h, user_args h) of
        (Some Running, Some a) \<Rightarrow> h\<lparr>thread_rc := func a, tid := Some Finished\<rparr>
      | _ \<Rightarrow> h)"

definition join_thread :: "('a \<Rightarrow> int) \<Rightarrow> bool \<Rightarrow> 'a thread_holder \<Rightarrow> 'a thread_holder" where
  "join_thread func force h =
     (if tid h = None then h
      else (let h1 = (if force then h\<lparr>handled := handled h + 1\<rparr> else h)
            in (spawnThread func h1)\<lparr>tid := None\<rparr>))"

definition destroy_holder :: "('a \<Rightarrow> int) \<Rightarrow> 'a thread_holder \<Rightarrow> 'a thread_holder" where
  "destroy_holder func h = join_thread func True h"

section \<open>Lemmas\<close>

text \<open>The steps a holder can take; the function is that of the first \<^verbatim>\<open>spawn\<close>.\<close>

datatype 'a holder_event = Spawn 'a | ThreadRuns | Join bool

fun holder_step :: "('a \<Rightarrow> int) \<Rightarrow> 'a thread_holder \<Rightarrow> 'a holder_event \<Rightarrow> 'a thread_holder" where
  "holder_step func h (Spawn a) = spawn a h"
| "holder_step func h ThreadRuns = spawnThread func h"
| "holder_step func h (Join force) = join_thread func force h"

definition holder_inv :: "('a \<Rightarrow> int) \<Rightarrow> 'a thread_holder \<Rightarrow> bool" where
  "holder_inv func h \<longleftrightarrow>
     (tid h \<noteq> None \<longrightarrow> user_args h \<noteq> None) \<and>
     (tid h \<noteq> Some Running \<longrightarrow> (case user_args h of None \<Rightarrow> thread_rc h = 0 | Some a \<Rightarrow> thread_rc h = func a))"

lemma holder_step_inv: "holder_inv func h \<Longrightarrow> holder_inv func (holder_step func h e)"
  by (cases e; cases "tid h"; cases "user_args h"; cases "the (tid h)")
    (auto simp: holder_inv_def spawn_def spawnThread_def join_thread_def Let_def)

lemma fst_check [simp]: "fst (check ok site text t) = ok"
  by (simp add: check_def)

lemma check_ok: "check True site text t = (True, t)"
  by (simp add: check_def)

lemma run_checks_result:
  "(\<And>c t. c \<in> set cs \<Longrightarrow> fst (c t) \<Longrightarrow> snd (c t) = t) \<Longrightarrow>
    fst (run_checks cs t) = (if \<forall>c \<in> set cs. fst (c t) then 0 else - 1)"
proof (induction cs)
  case (Cons c cs)
  obtain b t' where c: "c t = (b, t')" by fastforce
  have "b \<Longrightarrow> t' = t" using Cons.prems [of c t] c by simp
  then show ?case using Cons c by (cases b) auto
qed simp

text \<open>The macros are all of one form: a condition that does not depend on the suite, and a text.\<close>

definition is_check :: "('w suite \<Rightarrow> bool \<times> 'w suite) \<Rightarrow> bool" where
  "is_check c \<longleftrightarrow> (\<exists>ok site msg. c = check ok site msg)"

lemma is_check_intro: "(\<And>t. c t = check ok site msg t) \<Longrightarrow> is_check c"
  unfolding is_check_def by blast

lemma macros_are_checks [simp]:
  "is_check (CHK_EQ cast shown site name a b)" "is_check (CHK_NEQ cast shown site name a b)"
  "is_check (CHK_OK site name v)" "is_check (CHK_NOT site name v)"
  "is_check (CHK_NULL site name p)" "is_check (CHK_NONNULL site name p)" "is_check (CHK_Z shown site name z)"
  "is_check (CHK_SM ocast oshown site sname gname x y)" "is_check (CHK_SMEQ ocast oshown site sname gname x y)"
  "is_check (CHK_GT ocast oshown site gname sname y x)" "is_check (CHK_GTEQ ocast oshown site gname sname y x)"
  by (rule is_check_intro,
      simp only: CHK_EQ_def CHK_NEQ_def CHK_OK_def CHK_NOT_def CHK_NULL_def CHK_NONNULL_def CHK_Z_def
        CHK_SM_def CHK_SMEQ_def CHK_GT_def CHK_GTEQ_def Let_def)+

lemma failHandler_counts [simp]:
  "cntPass (failHandler t) = cntPass t" "cntFail (failHandler t) = cntFail t" "world (failHandler t) = world t"
  by (simp_all add: failHandler_def put_text_def)

lemma run_checks_frame:
  assumes "\<forall>c \<in> set cs. is_check c"
  shows "cntPass (snd (run_checks cs t)) = cntPass t \<and> cntFail (snd (run_checks cs t)) = cntFail t \<and>
    world (snd (run_checks cs t)) = world t"
  using assms
proof (induction cs arbitrary: t)
  case (Cons c cs)
  obtain ok site msg where c: "c = check ok site msg"
    using Cons.prems unfolding is_check_def by auto
  have "cntPass (snd (run_checks cs t)) = cntPass t \<and> cntFail (snd (run_checks cs t)) = cntFail t \<and>
      world (snd (run_checks cs t)) = world t"
    using Cons by simp
  then show ?case by (cases ok) (simp_all add: c check_def put_text_def)
qed simp

lemma run_checks_verdict:
  assumes "\<forall>c \<in> set cs. is_check c"
  shows "fst (run_checks cs t) = (if \<forall>c \<in> set cs. fst (c t) then 0 else - 1)"
proof (rule run_checks_result)
  fix c and t :: "'a suite"
  assume "c \<in> set cs" and ok: "fst (c t)"
  then obtain k site msg where "c = check k site msg" using assms unfolding is_check_def by blast
  with ok show "snd (c t) = t" by (simp add: check_def split: if_splits)
qed

text \<open>A test whose body is a sequence of the macros passes if and only if all of them hold; the macros
  change nothing but what is printed.\<close>

lemma test_verdict:
  assumes checks: "\<forall>c \<in> set cs. is_check c" and run: "run_test tm name (run_checks cs) t = Inr t'"
  shows "world t' = world t"
    and "\<forall>c \<in> set cs. fst (c t) \<Longrightarrow> cntPass t' = cntPass t + 1 \<and> cntFail t' = cntFail t"
    and "\<not> (\<forall>c \<in> set cs. fst (c t)) \<Longrightarrow> cntPass t' = cntPass t \<and> cntFail t' = cntFail t + 1"
proof -
  let ?t = "(readyTest name t)\<lparr>res_msg := [], info_msg := [], cur_test := True\<rparr>"
  have ready: "cntPass ?t = cntPass t" "cntFail ?t = cntFail t" "world ?t = world t"
    by (simp_all add: readyTest_def put_text_def Let_def)
  have same: "fst (c ?t) = fst (c t)" if c: "c \<in> set cs" for c
  proof -
    obtain ok site msg where "c = check ok site msg" using checks c unfolding is_check_def by blast
    then show ?thesis by simp
  qed
  obtain ret s where body: "run_checks cs ?t = (ret, s)" by (cases "run_checks cs ?t")
  have ret: "ret = (if \<forall>c \<in> set cs. fst (c t) then 0 else - 1)"
    using run_checks_verdict [OF checks, of ?t] body same by simp
  have s: "cntPass s = cntPass t" "cntFail s = cntFail t" "world s = world t"
    using run_checks_frame [OF checks, of ?t] body ready by simp_all
  have report: "reportTestResult tm name ret s = Inr t'"
    using run body by (simp add: run_test_def)
  then show "world t' = world t"
    using s by (simp add: reportTestResult_def Let_def put_text_def split: if_splits) (auto split: if_splits)
  show "cntPass t' = cntPass t + 1 \<and> cntFail t' = cntFail t" if "\<forall>c \<in> set cs. fst (c t)"
    using report s that by (auto simp: ret reportTestResult_def Let_def put_text_def split: if_splits)
  show "cntPass t' = cntPass t \<and> cntFail t' = cntFail t + 1" if "\<not> (\<forall>c \<in> set cs. fst (c t))"
  proof -
    have "ret = - 1" using ret that by simp
    then show ?thesis using report s by (auto simp: reportTestResult_def Let_def put_text_def split: if_splits)
  qed
qed

end
