(* ===== verification/TestTimers.thy ===== *)
theory TestTimers
  imports TestTools Complex_Main
begin

text \<open>
  The rest of the test suite of \<^verbatim>\<open>include/utility.h\<close>: timers, the workload generator, progress
  without an end, files, and the macros that declare parameters. A \<^verbatim>\<open>double\<close> is the rational
  number it stands for; the two products the code computes in floating point are arguments:
  \<open>scaled k ns\<close> is the value of \<^verbatim>\<open>elapsed.count() * k\<close> for \<open>ns\<close> nanoseconds, \<open>due r ns\<close> that of
  \<^verbatim>\<open>opsPerSec * elapsed.count()\<close>. Counters stay below \<open>2 ^ 53\<close>, where their conversion to \<^verbatim>\<open>double\<close>
  is exact.
\<close>

section \<open>Timers\<close>

record Timer =
  timer_start :: int
  duration_ms :: u64

text \<open>\<^verbatim>\<open>(uint64_t)x\<close> truncates; it is undefined outside the range.\<close>

definition to_u64 :: "rat \<Rightarrow> u64 result" where
  "to_u64 x = (if x \<le> - 1 \<or> x \<ge> 2 ^ 64 then Inl UndefinedBehaviour
               else Inr (word_of_int (if x < 0 then 0 else \<lfloor>x\<rfloor>)))"

definition timer_reset :: "int \<Rightarrow> Timer \<Rightarrow> Timer" where
  "timer_reset now t = t\<lparr>timer_start := now\<rparr>"

definition new_timer :: "int \<Rightarrow> u64 \<Rightarrow> Timer" where
  "new_timer now d = \<lparr>timer_start = now, duration_ms = d\<rparr>"

definition timeover :: "(nat \<Rightarrow> int \<Rightarrow> rat) \<Rightarrow> int \<Rightarrow> Timer \<Rightarrow> bool" where
  "timeover scaled now t \<longleftrightarrow> of_nat (unat (duration_ms t)) < scaled 1000 (now - timer_start t)"

text \<open>\<^verbatim>\<open>getTimeSec\<close>, \<^verbatim>\<open>getTimeMs\<close> and \<^verbatim>\<open>getTimeUs\<close>: \<open>k\<close> is 1, 1000 or 1000000.\<close>

definition get_time :: "(nat \<Rightarrow> int \<Rightarrow> rat) \<Rightarrow> nat \<Rightarrow> int \<Rightarrow> Timer \<Rightarrow> u64 result" where
  "get_time scaled k now t = to_u64 (scaled k (now - timer_start t))"

definition resetSec :: "int \<Rightarrow> u64 \<Rightarrow> Timer \<Rightarrow> Timer" where
  "resetSec now d t = timer_reset now (t\<lparr>duration_ms := d * 1000\<rparr>)"

definition resetMs :: "int \<Rightarrow> u64 \<Rightarrow> Timer \<Rightarrow> Timer" where
  "resetMs now d t = timer_reset now (t\<lparr>duration_ms := d\<rparr>)"

section \<open>The workload generator\<close>

record WorkloadGenerator =
  load_start :: int
  opsPerSec :: rat
  maxOpsPerBatch :: u64
  numOpsDone :: u64

definition load_reset :: "int \<Rightarrow> WorkloadGenerator \<Rightarrow> WorkloadGenerator" where
  "load_reset now g = g\<lparr>load_start := now, numOpsDone := 0\<rparr>"

definition new_load :: "int \<Rightarrow> rat \<Rightarrow> u64 \<Rightarrow> WorkloadGenerator" where
  "new_load now ops_per_sec max_ops =
     load_reset now \<lparr>load_start = 0, opsPerSec = ops_per_sec, maxOpsPerBatch = max_ops, numOpsDone = 0\<rparr>"

definition getNumOpsToDo :: "(rat \<Rightarrow> int \<Rightarrow> rat) \<Rightarrow> int \<Rightarrow> WorkloadGenerator \<Rightarrow> u64 result" where
  "getNumOpsToDo due now g =
     (if opsPerSec g \<le> 0 then Inr 0
      else (let ex = due (opsPerSec g) (now - load_start g)
            in if of_nat (unat (numOpsDone g)) < ex
               then map_sum id
                      (\<lambda>x. if maxOpsPerBatch g \<noteq> 0 then min (maxOpsPerBatch g) (x - numOpsDone g) else x - numOpsDone g)
                      (to_u64 ex)
               else Inr 0))"

definition addNumOpsDone :: "u64 \<Rightarrow> WorkloadGenerator \<Rightarrow> WorkloadGenerator" where
  "addNumOpsDone num g = g\<lparr>numOpsDone := numOpsDone g + num\<rparr>"

section \<open>Progress without an end\<close>

record UnknownProgress =
  uCurValue :: u64
  uLastPrintTimeUs :: u64
  uComment :: string
  uUnit :: string

definition unknown_update :: "u64 \<Rightarrow> u64 \<Rightarrow> UnknownProgress \<Rightarrow> 'w suite \<Rightarrow> UnknownProgress \<times> 'w suite" where
  "unknown_update now_us cur p t =
     (let p1 = p\<lparr>uCurValue := cur\<rparr>
      in if now_us - uLastPrintTimeUs p1 > 50000 \<or> cur = 0
         then (p1\<lparr>uLastPrintTimeUs := now_us\<rparr>,
               snd (msg_out ([char_of (13 :: nat)] @ labelled (uComment p) '': '' @ to_string (sint cur) @ '' '' @
                 labelled (uUnit p) '' '') t))
         else (p1, t))"

definition unknown_done :: "'w suite \<Rightarrow> 'w suite" where
  "unknown_done t = snd (msg_out eol t)"

section \<open>Files and times of tests\<close>

text \<open>\<^verbatim>\<open>stat\<close>, \<^verbatim>\<open>mkdir\<close> and \<^verbatim>\<open>remove\<close> of the system.\<close>

record 'f test_os =
  os_stat :: "string \<Rightarrow> 'f \<Rightarrow> int"
  os_mkdir :: "string \<Rightarrow> nat \<Rightarrow> 'f \<Rightarrow> int \<times> 'f"
  os_remove :: "string \<Rightarrow> 'f \<Rightarrow> int \<times> 'f"

definition test_mkdir :: "'f test_os \<Rightarrow> string \<Rightarrow> 'f \<Rightarrow> int \<times> 'f" where
  "test_mkdir os path fs = (if os_stat os path fs \<noteq> 0 then os_mkdir os path 493 fs else (0, fs))"

definition test_remove :: "'f test_os \<Rightarrow> string \<Rightarrow> 'f \<Rightarrow> int \<times> 'f" where
  "test_remove os path fs = os_remove os path fs"

definition test_exist :: "'f test_os \<Rightarrow> string \<Rightarrow> 'f \<Rightarrow> bool" where
  "test_exist os path fs \<longleftrightarrow> os_stat os path fs = 0"

text \<open>The suite's own \<^verbatim>\<open>TimeInfo\<close>, from a broken-down time and from a time in microseconds.\<close>

definition suite_time_of_tm :: "tm \<Rightarrow> TimeInfo" where
  "suite_time_of_tm src =
     \<lparr>year = tm_year src + 1900, month = tm_mon src + 1, day = tm_mday src, hour = tm_hour src,
      minute = tm_min src, sec = tm_sec src, msec = 0, usec = 0\<rparr>"

definition suite_time :: "(nat \<Rightarrow> tm) \<Rightarrow> nat \<Rightarrow> TimeInfo" where
  "suite_time localtime us_epoch =
     (let lt_tm = localtime (us_epoch div 1000000)
      in \<lparr>year = tm_year lt_tm + 1900, month = tm_mon lt_tm + 1, day = tm_mday lt_tm, hour = tm_hour lt_tm,
          minute = tm_min lt_tm, sec = tm_sec lt_tm, msec = int (us_epoch div 1000 mod 1000),
          usec = int (us_epoch mod 1000)\<rparr>)"

text \<open>The macros for a test's files: the name to use, after the shell has removed older ones.\<close>

definition TEST_SUITE_PREPARE_PATH ::
    "shell \<Rightarrow> TimeInfo \<Rightarrow> string \<Rightarrow> 'w suite \<Rightarrow> files \<Rightarrow> string \<times> files" where
  "TEST_SUITE_PREPARE_PATH sh now func_name t fs =
     (let fs1 = clearTestFile sh func_name MIDDLE_OF_TEST t fs in (getTestFileName now func_name, fs1))"

definition TEST_SUITE_CLEANUP_PATH :: "shell \<Rightarrow> string \<Rightarrow> 'w suite \<Rightarrow> files \<Rightarrow> files" where
  "TEST_SUITE_CLEANUP_PATH sh func_name t fs = clearTestFile sh func_name END_OF_TEST t fs"

section \<open>Help\<close>

definition usage :: "string \<Rightarrow> string" where
  "usage argv0 =
     concat (map (\<lambda>l. l @ eol)
       [[], ''Usage: '' @ argv0 @ '' [-f <keyword>] [-r <parameter>] [-p]'', [],
        ''    -f, --filter'', ''        Run specific tests matching the given keyword.'',
        ''    -r, --range'', ''        Run TestRange-based tests using given parameter value.'',
        ''    -p, --preserve'', ''        Do not clean up test files.'',
        ''    --abort-on-failure'', ''        Immediately abort the test if failure happens.'',
        ''    --suppress-msg'', ''        Suppress test messages.'',
        ''    --display-msg'', ''        Display test messages.'', []])"

section \<open>Declared parameters\<close>

text \<open>A test with arguments of its own, and the classes that the macros declare: ranges and text.\<close>

definition doTest_one ::
    "('w suite \<Rightarrow> string) \<Rightarrow> string \<Rightarrow> ('a \<Rightarrow> 'w suite \<Rightarrow> int \<times> 'w suite) \<Rightarrow> 'a \<Rightarrow> 'w suite \<Rightarrow> 'w suite result" where
  "doTest_one tm name func arg t = (if \<not> matchFilter name t then Inr t else run_test tm name (func arg) t)"

definition DEFINE_PARAMS_2 :: "TestRange \<Rightarrow> TestRange \<Rightarrow> TestRange list \<times> (int list \<Rightarrow> string)" where
  "DEFINE_PARAMS_2 range1 range2 =
     ([range1, range2], \<lambda>args. to_string (args ! 0) @ '', '' @ to_string (args ! 1))"

definition DEFINE_PARAMS_3 :: "TestRange \<Rightarrow> TestRange \<Rightarrow> TestRange \<Rightarrow> TestRange list \<times> (int list \<Rightarrow> string)" where
  "DEFINE_PARAMS_3 range1 range2 range3 =
     ([range1, range2, range3],
      \<lambda>args. to_string (args ! 0) @ '', '' @ to_string (args ! 1) @ '', '' @ to_string (args ! 2))"

section \<open>Lemmas\<close>

lemma params_text:
  "length args = 2 \<Longrightarrow> snd (DEFINE_PARAMS_2 r1 r2) args = args_text args"
  "length args = 3 \<Longrightarrow> snd (DEFINE_PARAMS_3 r1 r2 r3) args = args_text args"
  by (auto simp: DEFINE_PARAMS_2_def DEFINE_PARAMS_3_def numeral_2_eq_2 numeral_3_eq_3 length_Suc_conv)

lemma suite_time_same: "suite_time localtime us = TimeInfo_of_time localtime us"
  by (simp add: suite_time_def TimeInfo_of_time_def TimeInfo_of_tm_def Let_def)

text \<open>A generator never asks for more than is due, nor for more than a batch.\<close>

lemma to_u64_value: "0 \<le> x \<Longrightarrow> to_u64 x = Inr v \<Longrightarrow> uint v = \<lfloor>x\<rfloor>"
proof -
  assume x: "0 \<le> x" and "to_u64 x = Inr v"
  then have v: "v = word_of_int \<lfloor>x\<rfloor>" and b: "x < 2 ^ 64" by (auto simp: to_u64_def split: if_splits)
  have "\<lfloor>x\<rfloor> < 2 ^ 64" using b by (simp add: floor_less_iff)
  with x show ?thesis by (simp add: v uint_word_of_int)
qed

lemma ops_to_do:
  assumes "getNumOpsToDo due now g = Inr k" and "k \<noteq> 0"
  shows "of_nat (unat (numOpsDone g) + unat k) \<le> due (opsPerSec g) (now - load_start g)"
    and "maxOpsPerBatch g \<noteq> 0 \<Longrightarrow> k \<le> maxOpsPerBatch g" and "opsPerSec g > 0"
proof -
  let ?ex = "due (opsPerSec g) (now - load_start g)"
  show pos: "opsPerSec g > 0" using assms by (auto simp: getNumOpsToDo_def split: if_splits)
  have less: "of_nat (unat (numOpsDone g)) < ?ex"
    using assms by (auto simp: getNumOpsToDo_def Let_def split: if_splits)
  then have ex: "0 \<le> ?ex" by (meson le_less_trans less_imp_le of_nat_0_le_iff)
  obtain v where v: "to_u64 ?ex = Inr v"
    "k = (if maxOpsPerBatch g \<noteq> 0 then min (maxOpsPerBatch g) (v - numOpsDone g) else v - numOpsDone g)"
    using assms(1) pos less by (cases "to_u64 ?ex") (auto simp: getNumOpsToDo_def Let_def)
  have floor: "int (unat v) = \<lfloor>?ex\<rfloor>" using to_u64_value [OF ex v(1)] by simp
  have "int (unat (numOpsDone g)) \<le> \<lfloor>?ex\<rfloor>" using less by (simp add: le_floor_iff)
  then have le: "numOpsDone g \<le> v" using floor by (simp add: word_le_def)
  have "k \<le> v - numOpsDone g" using v(2) by (simp split: if_splits)
  then have "unat k \<le> unat (v - numOpsDone g)" by (simp add: word_le_nat_alt)
  also have "\<dots> = unat v - unat (numOpsDone g)" by (rule unat_sub [OF le])
  finally have "unat (numOpsDone g) + unat k \<le> unat v" using le by (simp add: word_le_nat_alt)
  then have "of_nat (unat (numOpsDone g) + unat k) \<le> (of_nat (unat v) :: rat)" by (rule of_nat_mono)
  also have "\<dots> \<le> ?ex" using floor by (metis of_int_floor_le of_int_of_nat_eq)
  finally show "of_nat (unat (numOpsDone g) + unat k) \<le> ?ex" .
  show "k \<le> maxOpsPerBatch g" if "maxOpsPerBatch g \<noteq> 0" using v(2) that by simp
qed

text \<open>A driver that does at each time what the generator asks for stays within what is due.\<close>

fun drive :: "(rat \<Rightarrow> int \<Rightarrow> rat) \<Rightarrow> int list \<Rightarrow> WorkloadGenerator \<Rightarrow> WorkloadGenerator" where
  "drive due [] g = g"
| "drive due (now # nows) g =
     (case getNumOpsToDo due now g of
        Inl _ \<Rightarrow> g
      | Inr k \<Rightarrow> drive due nows (addNumOpsDone k g))"

definition paced :: "(rat \<Rightarrow> int \<Rightarrow> rat) \<Rightarrow> int \<Rightarrow> WorkloadGenerator \<Rightarrow> bool" where
  "paced due now g \<longleftrightarrow> numOpsDone g = 0 \<or> of_nat (unat (numOpsDone g)) \<le> due (opsPerSec g) (now - load_start g)"

lemma paced_mono:
  "paced due now g \<Longrightarrow> now \<le> now' \<Longrightarrow> (\<And>r a b. a \<le> b \<Longrightarrow> due r a \<le> due r b) \<Longrightarrow> paced due now' g"
  unfolding paced_def by (meson diff_right_mono order_trans)

lemma drive_paced:
  assumes "\<And>r a b. a \<le> b \<Longrightarrow> due r a \<le> due r b" and "sorted (t0 # nows)" and "paced due t0 g"
  shows "paced due (last (t0 # nows)) (drive due nows g)"
  using assms(2,3)
proof (induction nows arbitrary: t0 g)
  case (Cons now nows)
  have g: "paced due now g" using paced_mono [OF Cons.prems(2) _ assms(1)] Cons.prems(1) by simp
  show ?case
  proof (cases "getNumOpsToDo due now g")
    case (Inl e)
    have "now \<le> last (now # nows)" using Cons.prems(1) by auto
    then show ?thesis using Inl paced_mono [OF g _ assms(1)] by simp
  next
    case (Inr k)
    have "paced due now (addNumOpsDone k g)"
    proof (cases "k = 0")
      case True
      then show ?thesis using g by (simp add: addNumOpsDone_def)
    next
      case False
      have "unat (numOpsDone g + k) \<le> unat (numOpsDone g) + unat k" by (simp add: unat_word_ariths(1))
      then have "of_nat (unat (numOpsDone g + k)) \<le> (of_nat (unat (numOpsDone g) + unat k) :: rat)"
        by (rule of_nat_mono)
      with ops_to_do(1) [OF Inr False] show ?thesis by (simp add: paced_def addNumOpsDone_def)
    qed
    then show ?thesis using Cons.IH [of now] Cons.prems(1) Inr by simp
  qed
qed simp

end
