(* ===== verification/LoggerWorkers.thy ===== *)
theory LoggerWorkers
  imports LoggerMgr
begin

text \<open>
  The life of the manager of the loggers in \<^verbatim>\<open>src/consensus/debugger.cc\<close>: its constructor starts a
  thread that flushes and one that compresses, \<^verbatim>\<open>destroy\<close> flushes, asks both to end and joins
  them. Each thread is a program counter; a step of any of the three is one transition, so their
  order is arbitrary. A thread may wake before its 500 ms are over, as \<^verbatim>\<open>wait_for\<close> allows.
\<close>

section \<open>State\<close>

datatype worker_pc = Checking | Sleeping | Working | Ended

datatype destroyer_pc = Not_called | Flushed | Stopping | Joined_flusher | Joined_both | Destroyed

record mgr_life =
  flusher_pc :: worker_pc
  compressor_pc :: worker_pc
  sleep_next_time :: bool
  terminating :: bool
  own_handlers :: bool
  destroyer_pc :: destroyer_pc
  force_aborted :: bool
  life_world :: log_world

text \<open>After the constructor.\<close>

definition new_life :: "log_os \<Rightarrow> log_world \<Rightarrow> mgr_life" where
  "new_life os w =
     \<lparr>flusher_pc = Checking, compressor_pc = Checking, sleep_next_time = True, terminating = False,
      own_handlers = handles_signals os, destroyer_pc = Not_called, force_aborted = False,
      life_world = w\<lparr>mgr := Some new_mgr\<rparr>\<rparr>"

section \<open>Threads\<close>

text \<open>\<open>None\<close>: the thread cannot move, because it has ended or waits for another.\<close>

definition flushWorker :: "log_os \<Rightarrow> log_stamp \<Rightarrow> mgr_life \<Rightarrow> mgr_life option" where
  "flushWorker os stamp s =
     (case flusher_pc s of
        Checking \<Rightarrow> Some (s\<lparr>flusher_pc := if terminating s then Ended else Sleeping\<rparr>)
      | Sleeping \<Rightarrow> Some (s\<lparr>flusher_pc := Working\<rparr>)
      | Working \<Rightarrow>
          (case flushWorker_step os stamp (life_world s) of
             None \<Rightarrow> None
           | Some FlusherExits \<Rightarrow> Some (s\<lparr>force_aborted := True\<rparr>)
           | Some (FlusherContinues w) \<Rightarrow> Some (s\<lparr>flusher_pc := Checking, life_world := w\<rparr>))
      | Ended \<Rightarrow> None)"

definition compressWorker :: "log_os \<Rightarrow> mgr_life \<Rightarrow> mgr_life option" where
  "compressWorker os s =
     (case compressor_pc s of
        Checking \<Rightarrow>
          Some (s\<lparr>compressor_pc := if terminating s then Ended else if sleep_next_time s then Sleeping else Working\<rparr>)
      | Sleeping \<Rightarrow> Some (s\<lparr>compressor_pc := Working\<rparr>)
      | Working \<Rightarrow>
          (case compressWorker_step os (life_world s) of
             (sleep, w) \<Rightarrow> Some (s\<lparr>compressor_pc := Checking, sleep_next_time := sleep, life_world := w\<rparr>))
      | Ended \<Rightarrow> None)"

text \<open>\<^verbatim>\<open>destroy\<close> with the destructor: both joins wait.\<close>

definition destroy_step :: "log_os \<Rightarrow> log_stamp \<Rightarrow> mgr_life \<Rightarrow> mgr_life option" where
  "destroy_step os stamp s =
     (case destroyer_pc s of
        Not_called \<Rightarrow>
          map_option (\<lambda>w. s\<lparr>destroyer_pc := Flushed, life_world := w\<rparr>) (flushAllLoggers os stamp 0 [] (life_world s))
      | Flushed \<Rightarrow> Some (s\<lparr>destroyer_pc := Stopping, terminating := True, own_handlers := False\<rparr>)
      | Stopping \<Rightarrow> if flusher_pc s = Ended then Some (s\<lparr>destroyer_pc := Joined_flusher\<rparr>) else None
      | Joined_flusher \<Rightarrow> if compressor_pc s = Ended then Some (s\<lparr>destroyer_pc := Joined_both\<rparr>) else None
      | Joined_both \<Rightarrow>
          Some (s\<lparr>destroyer_pc := Destroyed, life_world := (life_world s)\<lparr>mgr := None\<rparr>\<rparr>)
      | Destroyed \<Rightarrow> None)"

datatype life_event = Flusher | Compressor | Destroyer

fun life_step :: "log_os \<Rightarrow> log_stamp \<Rightarrow> mgr_life \<Rightarrow> life_event \<Rightarrow> mgr_life option" where
  "life_step os stamp s e =
     (if force_aborted s then None
      else case e of
             Flusher \<Rightarrow> flushWorker os stamp s
           | Compressor \<Rightarrow> compressWorker os s
           | Destroyer \<Rightarrow> destroy_step os stamp s)"

text \<open>A run: every event moves its thread.\<close>

fun life_run :: "log_os \<Rightarrow> log_stamp \<Rightarrow> life_event list \<Rightarrow> mgr_life \<Rightarrow> mgr_life option" where
  "life_run os stamp [] s = Some s"
| "life_run os stamp (e # es) s = Option.bind (life_step os stamp s e) (life_run os stamp es)"

text \<open>Iterations of the flusher alone; \<open>None\<close> in the result: the process was ended.\<close>

fun flusher_iterations :: "log_os \<Rightarrow> log_stamp \<Rightarrow> nat \<Rightarrow> log_world \<Rightarrow> log_world option option" where
  "flusher_iterations os stamp 0 w = Some (Some w)"
| "flusher_iterations os stamp (Suc n) w =
     (case flushWorker_step os stamp w of
        None \<Rightarrow> None
      | Some FlusherExits \<Rightarrow> Some None
      | Some (FlusherContinues w') \<Rightarrow> flusher_iterations os stamp n w')"

end
