(* ===== verification/WorkerProperties.thy ===== *)
theory WorkerProperties
  imports LoggerWorkers LoggerMgrProperties
begin

text \<open>
  The properties of the manager's threads: destroying the manager ends, and the timer of a crash
  dump ends the process in time.
\<close>

section \<open>What iterations keep\<close>

text \<open>A step on a logger leaves everything of the manager but the queue of the compressor.\<close>

definition same_mgr :: "log_world \<Rightarrow> log_world \<Rightarrow> bool" where
  "same_mgr w w' \<longleftrightarrow>
     map_option (\<lambda>m. m\<lparr>pendingCompElems := []\<rparr>) (mgr w') = map_option (\<lambda>m. m\<lparr>pendingCompElems := []\<rparr>) (mgr w)"

lemma same_mgr_refl [simp]: "same_mgr w w"
  by (simp add: same_mgr_def)

lemma same_mgr_trans: "same_mgr w w1 \<Longrightarrow> same_mgr w1 w2 \<Longrightarrow> same_mgr w w2"
  by (simp add: same_mgr_def)

lemma store_logger_same: "same_mgr w (store_logger l res w)"
  by (cases res; cases "mgr w")
    (simp_all add: same_mgr_def store_logger_def Let_def upd_mgr_def addCompElem_def split: option.split)

lemma flush_at_same: "same_mgr w (flush_at os l w)"
  by (simp add: flush_at_def store_logger_same split: option.split)

lemma same_mgr_console: "same_mgr w (w'\<lparr>console := c\<rparr>) = same_mgr w w'"
  by (simp add: same_mgr_def)

lemma put_at_same: "put_at os stamp l level site n s w = Some w' \<Longrightarrow> same_mgr w w'"
  by (auto simp: put_at_def same_mgr_console store_logger_same split: option.splits)

lemma flush_loggers_same: "flush_loggers os stamp level msg ls w = Some w' \<Longrightarrow> same_mgr w w'"
proof (induction ls arbitrary: w)
  case (Cons l ls)
  then obtain w1 where w1: "(if msg \<noteq> [] then put_at os stamp l level (Some (source_name os, ''flushAllLoggers'')) 470 msg w
      else Some w) = Some w1" "flush_loggers os stamp level msg ls (flush_at os l w1) = Some w'"
    by (auto simp: bind_eq_Some_conv)
  have "same_mgr w w1" using w1(1) put_at_same by (auto split: if_splits)
  then show ?case
    using Cons.IH [OF w1(2)] flush_at_same [of w1 os l] same_mgr_trans by blast
qed simp

lemma flushAllLoggers_same: "flushAllLoggers os stamp level msg w = Some w' \<Longrightarrow> same_mgr w w'"
  by (auto simp: flushAllLoggers_def dest: flush_loggers_same split: option.splits)

lemma same_mgr_timer: "same_mgr w w' \<Longrightarrow> mgr w = Some m \<Longrightarrow> \<exists>m'. mgr w' = Some m' \<and> abortTimer m' = abortTimer m"
  by (auto simp: same_mgr_def dest: arg_cong [where f = abortTimer])

lemma rings_ok_mgr:
  assumes "mgr w = Some m" and "loggers m' = loggers m"
  shows "rings_ok (w\<lparr>mgr := Some m'\<rparr>) = rings_ok w"
  by (rule rings_ok_cong) (use assms in \<open>simp_all add: registered_def\<close>)

text \<open>An iteration of the flusher returns; without a timer it goes on.\<close>

lemma flusher_iteration:
  assumes "rings_ok w"
  obtains w1 where "flushAllLoggers os stamp 0 [] w = Some w1" and "rings_ok w1" and "same_mgr w w1"
  using flushAllLoggers_outcome [OF assms, of os stamp 0 "[]"] flushAllLoggers_same
  unfolding settled_def by blast

lemma flusher_step_returns:
  assumes "rings_ok w"
  shows "\<exists>r. flushWorker_step os stamp w = Some r \<and> (case r of FlusherExits \<Rightarrow> True | FlusherContinues w' \<Rightarrow> rings_ok w')"
proof -
  obtain w1 where w1: "flushAllLoggers os stamp 0 [] w = Some w1" "rings_ok w1"
    by (rule flusher_iteration [OF assms])
  then show ?thesis
    by (auto simp: flushWorker_step_def rings_ok_mgr split: option.split)
qed

lemma compress_ring: "elems (fst (foldl (remove_revision sh) st is)) = elems (fst st)
    \<and> cursor (fst (foldl (remove_revision sh) st is)) = cursor (fst st)"
proof (induction "is" arbitrary: st)
  case (Cons i "is")
  have "elems (fst (remove_revision sh st i)) = elems (fst st) \<and> cursor (fst (remove_revision sh st i)) = cursor (fst st)"
    by (cases st) (simp add: remove_revision_def Let_def)
  then show ?case using Cons [of "remove_revision sh st i"] by simp
qed simp

lemma doCompression_ring:
  assumes "doCompression sh n lg fs = (lg', fs')"
  shows "ring_ok lg' = ring_ok lg"
proof -
  let ?f = "getLogFilePath (filePath lg) n" and ?P = "maxLogFiles lg \<noteq> 0 \<and> n \<ge> maxLogFiles lg"
  let ?fs = "execCmd sh (''rm -f '' @ ?f) (execCmd sh (''tar zcvf '' @ ?f @ ''.tar.gz '' @ ?f) fs)"
  let ?st = "if ?P then foldl (remove_revision sh) (lg, ?fs) [minRevnum lg..<Suc (n - maxLogFiles lg)] else (lg, ?fs)"
  have st: "elems (fst ?st) = elems lg \<and> cursor (fst ?st) = cursor lg"
    using compress_ring [of sh "(lg, ?fs)" "[minRevnum lg..<Suc (n - maxLogFiles lg)]"]
    by (cases ?P) (simp_all only: if_True if_False fst_conv simp_thms)
  have "lg' = (fst ?st)\<lparr>numCompJobs := numCompJobs (fst ?st) - 1\<rparr>"
    using arg_cong [OF assms, of fst] by (simp only: doCompression_def Let_def split_beta fst_conv)
  with st obtain l0 where "elems l0 = elems lg" "cursor l0 = cursor lg" "lg' = l0\<lparr>numCompJobs := numCompJobs l0 - 1\<rparr>"
    by blast
  then show ?thesis by (simp add: ring_ok_def)
qed

lemma compressor_step_rings:
  assumes "rings_ok w" and "compressWorker_step os w = (sleep, w')"
  shows "rings_ok w'"
proof (cases "mgr w")
  case None
  with assms show ?thesis by (simp add: compressWorker_step_def)
next
  case (Some m)
  show ?thesis
  proof (cases "pendingCompElems m")
    case Nil
    with assms Some show ?thesis by (simp add: compressWorker_step_def)
  next
    case (Cons e rest)
    obtain n l where e: "e = (n, l)" by fastforce
    let ?w1 = "w\<lparr>mgr := Some (m\<lparr>pendingCompElems := rest\<rparr>)\<rparr>"
    have r1: "rings_ok ?w1" using assms(1) Some by (simp add: rings_ok_mgr)
    show ?thesis
    proof (cases "om_find (heap w) l")
      case None
      with assms(2) Some Cons e r1 show ?thesis by (simp add: compressWorker_step_def)
    next
      case lg: (Some lg)
      obtain lg' fs' where c: "doCompression (shell os) n lg (disk w) = (lg', fs')" by fastforce
      have w': "w' = ?w1\<lparr>heap := om_assign l lg' (heap w), disk := fs'\<rparr>"
        using assms(2) Some Cons e lg c by (simp add: compressWorker_step_def)
      have "logger_at ring_ok w' k = logger_at ring_ok ?w1 k" for k
        using lg doCompression_ring [OF c] by (simp add: w' logger_at_def find_assign)
      moreover have "registered w' = registered ?w1" by (simp add: w' registered_def)
      ultimately show ?thesis using r1 by (simp add: rings_ok_def list_all_iff)
    qed
  qed
qed

section \<open>Destroying the manager\<close>

fun pc_weight :: "worker_pc \<Rightarrow> nat" where
  "pc_weight Checking = 1"
| "pc_weight Sleeping = 3"
| "pc_weight Working = 2"
| "pc_weight Ended = 0"

fun destroyer_weight :: "destroyer_pc \<Rightarrow> nat" where
  "destroyer_weight Stopping = 3"
| "destroyer_weight Joined_flusher = 2"
| "destroyer_weight Joined_both = 1"
| "destroyer_weight _ = 0"

definition life_weight :: "mgr_life \<Rightarrow> nat" where
  "life_weight s =
     pc_weight (flusher_pc s) + pc_weight (compressor_pc s) + destroyer_weight (destroyer_pc s)
     + (if force_aborted s then 0 else 1)"

definition stopping :: "mgr_life \<Rightarrow> bool" where
  "stopping s \<longleftrightarrow> terminating s \<and> \<not> own_handlers s \<and> destroyer_pc s \<notin> {Not_called, Flushed} \<and>
     (destroyer_pc s \<noteq> Stopping \<longrightarrow> flusher_pc s = Ended) \<and>
     (destroyer_pc s \<in> {Joined_both, Destroyed} \<longrightarrow> compressor_pc s = Ended) \<and>
     (if destroyer_pc s = Destroyed then mgr (life_world s) = None else rings_ok (life_world s))"

lemma pc_weight_le: "pc_weight p \<le> 3"
  by (cases p) simp_all

lemmas life_defs = flushWorker_def compressWorker_def destroy_step_def

lemma life_step_decreases:
  assumes "stopping s" and "life_step os stamp s e = Some s'"
  shows "stopping s' \<and> life_weight s' < life_weight s"
proof (cases e)
  case Flusher
  note step = assms(2) [unfolded Flusher]
  show ?thesis
  proof (cases "flusher_pc s")
    case Working
    then have ok: "rings_ok (life_world s)" "destroyer_pc s = Stopping"
      using assms(1) by (auto simp: stopping_def)
    obtain r where "flushWorker_step os stamp (life_world s) = Some r"
      "case r of FlusherExits \<Rightarrow> True | FlusherContinues w' \<Rightarrow> rings_ok w'"
      using flusher_step_returns [OF ok(1)] by blast
    with step assms(1) Working ok show ?thesis
      by (cases r) (auto simp: stopping_def life_weight_def life_defs split: if_splits)
  qed (use step assms(1) in \<open>auto simp: stopping_def life_weight_def life_defs split: if_splits\<close>)
next
  case Compressor
  note step = assms(2) [unfolded Compressor]
  show ?thesis
  proof (cases "compressor_pc s")
    case Working
    obtain sleep w where w: "compressWorker_step os (life_world s) = (sleep, w)" by fastforce
    have "rings_ok (life_world s)" using assms(1) Working by (auto simp: stopping_def)
    then have "rings_ok w" by (rule compressor_step_rings [OF _ w])
    with step assms(1) Working w show ?thesis
      by (auto simp: stopping_def life_weight_def life_defs split: if_splits)
  qed (use step assms(1) in \<open>auto simp: stopping_def life_weight_def life_defs split: if_splits\<close>)
next
  case Destroyer
  with assms show ?thesis
    by (cases "destroyer_pc s") (auto simp: stopping_def life_weight_def life_defs split: if_splits)
qed

lemma life_progress:
  assumes "stopping s" and "destroyer_pc s \<noteq> Destroyed" and "\<not> force_aborted s"
  shows "\<exists>e s'. life_step os stamp s e = Some s'"
proof (cases "flusher_pc s = Ended")
  case True
  show ?thesis
  proof (cases "compressor_pc s = Ended")
    case c: True
    then have "life_step os stamp s Destroyer \<noteq> None"
      using True assms by (cases "destroyer_pc s") (auto simp: stopping_def life_defs)
    then show ?thesis by blast
  next
    case False
    then have "life_step os stamp s Compressor \<noteq> None"
      using assms(3) by (cases "compressor_pc s") (auto simp: life_defs split: prod.split)
    then show ?thesis by blast
  qed
next
  case False
  have "rings_ok (life_world s)" using assms(1,2) by (simp add: stopping_def)
  from flusher_step_returns [OF this] obtain r where r: "flushWorker_step os stamp (life_world s) = Some r" by blast
  have "life_step os stamp s Flusher \<noteq> None"
    using False assms(3) r by (cases "flusher_pc s"; cases r) (simp_all add: life_defs)
  then show ?thesis by blast
qed

lemma stopping_run:
  "stopping s \<Longrightarrow> life_run os stamp es s = Some s' \<Longrightarrow> stopping s' \<and> length es + life_weight s' \<le> life_weight s"
proof (induction es arbitrary: s)
  case (Cons e es)
  then obtain s1 where s1: "life_step os stamp s e = Some s1" "life_run os stamp es s1 = Some s'"
    by (auto simp: bind_eq_Some_conv simp del: life_step.simps)
  from life_step_decreases [OF Cons.prems(1) s1(1)] Cons.IH [OF _ s1(2)] show ?case by auto
qed simp

text \<open>C34: Destroying the manager ends: from the moment the destructor asks its threads to end, when
  no other thread works on a ring, the three threads together make at most ten steps whatever
  their order, and if none of them can move any more, the manager is destroyed, unless the timer
  of a crash dump has ended the process.\<close>

theorem destroy_ends:
  assumes "destroyer_pc s = Flushed" and "rings_ok (life_world s)" and "\<not> force_aborted s"
    and "life_run os stamp (Destroyer # es) s = Some s'"
  shows "length es \<le> 10 \<and>
    ((\<exists>e s2. life_step os stamp s' e = Some s2) \<or> force_aborted s' \<or>
     (destroyer_pc s' = Destroyed \<and> flusher_pc s' = Ended \<and> compressor_pc s' = Ended \<and>
      \<not> own_handlers s' \<and> mgr (life_world s') = None))"
proof -
  obtain s1 where s1: "destroy_step os stamp s = Some s1" "life_run os stamp es s1 = Some s'"
    using assms(3,4) by (auto simp: bind_eq_Some_conv)
  then have s1_eq: "s1 = s\<lparr>destroyer_pc := Stopping, terminating := True, own_handlers := False\<rparr>"
    using assms(1) by (simp add: destroy_step_def)
  then have st: "stopping s1" using assms(2) by (simp add: stopping_def)
  have le: "life_weight s1 \<le> 10"
    using pc_weight_le [of "flusher_pc s"] pc_weight_le [of "compressor_pc s"] assms(3)
    by (simp add: s1_eq life_weight_def)
  have run: "stopping s'" "length es + life_weight s' \<le> life_weight s1"
    using stopping_run [OF st s1(2)] by simp_all
  show ?thesis
  proof (cases "destroyer_pc s' = Destroyed")
    case True
    with run le show ?thesis by (simp add: stopping_def)
  next
    case False
    have "(\<exists>e s2. life_step os stamp s' e = Some s2) \<or> force_aborted s'"
      using life_progress [OF run(1) False] by blast
    moreover have "length es \<le> 10" using run(2) le by simp
    ultimately show ?thesis by blast
  qed
qed

text \<open>A manager with one logger whose file \<open>0\<close> waits to be compressed; the shell removes everything.\<close>

definition busy_os :: log_os where
  "busy_os = demo_os\<lparr>shell := (\<lambda>_ _. [])\<rparr>"

definition busy_life :: mgr_life where
  "busy_life =
     (new_life busy_os demo_world)
       \<lparr>life_world := demo_world\<lparr>mgr := Some (new_mgr\<lparr>loggers := [1], pendingCompElems := [(0, 1)]\<rparr>)\<rparr>\<rparr>"

theorem destroy_ends_witness:
  "\<not> (\<exists>es s'. length es = 11 \<and>
      life_run busy_os crash_stamp (Destroyer # es) (busy_life\<lparr>destroyer_pc := Flushed, flusher_pc := Sleeping\<rparr>) = Some s')"
proof -
  let ?s = "busy_life\<lparr>destroyer_pc := Flushed, flusher_pc := Sleeping\<rparr>"
  have "rings_ok (life_world ?s)"
    using demo_world_rings rings_ok_mgr [of demo_world _ "new_mgr\<lparr>loggers := [1], pendingCompElems := [(0, 1)]\<rparr>"]
    by (simp add: busy_life_def demo_world_def)
  moreover have "destroyer_pc ?s = Flushed" "\<not> force_aborted ?s" by (simp_all add: busy_life_def new_life_def)
  ultimately show ?thesis
    using destroy_ends [of ?s busy_os crash_stamp] by fastforce
qed

text \<open>But the compressor ends without looking at its queue: what waited there is never compressed.
  Here a run in which it is compressed, and one that destroys the manager and leaves the file.\<close>

theorem destroy_drops_compression:
  "map_option (\<lambda>s. disk (life_world s)) (life_run busy_os crash_stamp [Compressor, Compressor, Compressor] busy_life) = Some []
   \<and> map_option (\<lambda>s. (destroyer_pc s, map fst (disk (life_world s))))
       (life_run busy_os crash_stamp
         [Destroyer, Destroyer, Flusher, Compressor, Destroyer, Destroyer, Destroyer] busy_life) =
     Some (Destroyed, [''l''])"
  by code_simp

section \<open>The timer of a crash dump\<close>

text \<open>Once a crash dump has set the timer to \<open>t\<close> milliseconds, the flusher ends the process in its
  first iteration that is at least the \<open>t / 500\<close>-th, whatever the loggers' files do, and not before.\<close>

theorem stack_dump_times_out:
  assumes "rings_ok w" and "mgr w = Some m" and "abortTimer m > 0"
  shows "case flusher_iterations os stamp n w of
      None \<Rightarrow> False
    | Some None \<Rightarrow> abortTimer m \<le> n * 500
    | Some (Some w') \<Rightarrow> n * 500 < abortTimer m"
  using assms
proof (induction n arbitrary: w m)
  case (Suc n)
  obtain w1 where w1: "flushAllLoggers os stamp 0 [] w = Some w1" "rings_ok w1" "same_mgr w w1"
    by (rule flusher_iteration [OF Suc.prems(1)])
  obtain m1 where m1: "mgr w1 = Some m1" "abortTimer m1 = abortTimer m"
    using same_mgr_timer [OF w1(3) Suc.prems(2)] by blast
  show ?case
  proof (cases "abortTimer m > 500")
    case True
    let ?m = "m1\<lparr>abortTimer := abortTimer m1 - 500\<rparr>"
    have "rings_ok (w1\<lparr>mgr := Some ?m\<rparr>)" using w1(2) m1(1) by (simp add: rings_ok_mgr)
    from Suc.IH [OF this, of ?m] True m1 w1(1) show ?thesis
      by (auto simp: flushWorker_step_def split: option.splits)
  next
    case False
    with m1 w1(1) Suc.prems(3) show ?thesis by (simp add: flushWorker_step_def)
  qed
qed simp

theorem stack_dump_times_out_witness:
  "flusher_iterations demo_os crash_stamp 3 (demo_world\<lparr>mgr := Some (new_mgr\<lparr>loggers := [1], abortTimer := 1200\<rparr>)\<rparr>) = Some None"
proof -
  let ?m = "new_mgr\<lparr>loggers := [1], abortTimer := 1200\<rparr>"
  have "rings_ok (demo_world\<lparr>mgr := Some ?m\<rparr>)"
    using demo_world_rings rings_ok_mgr [of demo_world _ ?m] by (simp add: demo_world_def)
  from stack_dump_times_out [OF this, of ?m 3 demo_os crash_stamp] show ?thesis
    by (simp split: option.splits)
qed

end
