(* ===== verification/Interactive.thy ===== *)
theory Interactive
  imports Client Options TestSuite
begin

text \<open>
  The interactive client, \<^verbatim>\<open>test/interactive.cc\<close>: the commands of its prompt, on top of the client
  library, and the mode of \<^verbatim>\<open>test/entrypoint.cc\<close> that runs it. Before the first \<^verbatim>\<open>start_session\<close> the
  static variables of the client are null (\<open>None\<close>), and a call through them is undefined.
\<close>

record 'w prompt_env =
  p_net :: "'w net"
  p_self :: string
  p_now :: int
  p_members :: "string list"
  p_wait :: "client \<Rightarrow> client"

record 'w prompt_state =
  p_client :: "client option"
  p_world :: 'w
  p_out :: string
  p_fault :: "exn option"

definition tell :: "string \<Rightarrow> 'w prompt_state \<Rightarrow> 'w prompt_state" where
  "tell t s = s\<lparr>p_out := p_out s @ t @ eol\<rparr>"

definition fault :: "exn \<Rightarrow> 'w prompt_state \<Rightarrow> bool \<times> 'w prompt_state" where
  "fault e s = (False, s\<lparr>p_fault := Some e\<rparr>)"

text \<open>\<^verbatim>\<open>tokens[i]\<close> does not check its index.\<close>

definition with_token ::
    "string list \<Rightarrow> nat \<Rightarrow> (string \<Rightarrow> 'w prompt_state \<Rightarrow> bool \<times> 'w prompt_state) \<Rightarrow> 'w prompt_state \<Rightarrow> bool \<times> 'w prompt_state" where
  "with_token tokens i f s = (if i < length tokens then f (tokens ! i) s else fault UndefinedBehaviour s)"

text \<open>A call of the library, and the message for its result.\<close>

definition library_call ::
    "'w prompt_env \<Rightarrow> (client \<Rightarrow> client \<Rightarrow> 'w \<Rightarrow> 'r result \<times> client \<times> 'w) \<Rightarrow> ('r \<Rightarrow> string) \<Rightarrow>
     'w prompt_state \<Rightarrow> bool \<times> 'w prompt_state" where
  "library_call E f message s =
     (case p_client s of
        None \<Rightarrow> fault UndefinedBehaviour s
      | Some c \<Rightarrow>
          (case f (p_wait E c) c (p_world s) of
             (Inl e, c', w) \<Rightarrow> fault e (s\<lparr>p_client := Some c', p_world := w\<rparr>)
           | (Inr r, c', w) \<Rightarrow> (True, tell (message r) (s\<lparr>p_client := Some c', p_world := w\<rparr>))))"

definition help_text :: string where
  "help_text =
     ''use only relative paths for the files'' @ concat (map (\<lambda>l. eol @ l @ eol)
       [''start_session'', ''open_lock <path>'', ''acquire_lock <exclusive/shared> <path>'', ''delete <path>'',
        ''write <path> <content>'', ''read <path>'', ''release_lock <path>'', ''close_session'',
        ''get current server status: st (or stat)'', ''get the list of members: ls (or list)'',
        ''show help (or h)'']) @ eol"

definition cmd_start_session :: "'w prompt_env \<Rightarrow> 'w prompt_state \<Rightarrow> bool \<times> 'w prompt_state" where
  "cmd_start_session E s =
     (case start_session (p_net E) (p_self E) (p_now E) (p_members E) (p_world s) of
        (r, c, w) \<Rightarrow>
          (True, (if ok r then id else tell (''UNABLE TO START SESSION: '' @ snd r)) (s\<lparr>p_client := Some c, p_world := w\<rparr>)))"

definition cmd_acquire_lock :: "'w prompt_env \<Rightarrow> string list \<Rightarrow> 'w prompt_state \<Rightarrow> bool \<times> 'w prompt_state" where
  "cmd_acquire_lock E tokens =
     with_token tokens 1 (\<lambda>m.
       if m = ''exclusive'' \<or> m = ''shared''
       then with_token tokens 2 (\<lambda>path.
              library_call E (\<lambda>later. client_acquire_lock (p_net E) later path (if m = ''exclusive'' then EXCLUSIVE else SHARED))
                (\<lambda>st. if ok st then ''Correctly acquired lock'' else ''unable to acquire lock''))
       else Pair False)"

definition cmd_close_session :: "'w prompt_env \<Rightarrow> 'w prompt_state \<Rightarrow> bool \<times> 'w prompt_state" where
  "cmd_close_session E s =
     (case (case p_client s of
              None \<Rightarrow> (Inr (), p_world s)
            | Some c \<Rightarrow> client_close_session (p_net E) c (p_world s)) of
        (Inl e, w) \<Rightarrow> fault e (s\<lparr>p_world := w\<rparr>)
      | (Inr _, w) \<Rightarrow> (True, tell ''There should be no errors on this close since we had a session.'' (s\<lparr>p_world := w\<rparr>)))"

definition do_cmd :: "'w prompt_env \<Rightarrow> string list \<Rightarrow> 'w prompt_state \<Rightarrow> bool \<times> 'w prompt_state" where
  "do_cmd E tokens s =
     (case tokens of
        [] \<Rightarrow> (True, s)
      | cmd # _ \<Rightarrow>
          if cmd = ''q'' \<or> cmd = ''exit'' then (False, s)
          else if cmd = ''start_session'' then cmd_start_session E s
          else if cmd = ''open_lock'' then
            with_token tokens 1 (\<lambda>path. library_call E (\<lambda>later. client_open_lock (p_net E) later path)
              (\<lambda>r. if r then ''Lock created'' else ''Failed to open lock, ending test for server'')) s
          else if cmd = ''acquire_lock'' then cmd_acquire_lock E tokens s
          else if cmd = ''delete'' then
            with_token tokens 1 (\<lambda>path. library_call E (\<lambda>later. client_delete_lock (p_net E) later path)
              (\<lambda>r. if \<not> r then ''Correctly failed lock, this was expected to fail.''
                   else ''Destroyed lock even though we don't own it'')) s
          else if cmd = ''write'' then
            with_token tokens 1 (\<lambda>path. with_token tokens 2 (\<lambda>contents.
              library_call E (\<lambda>later. client_write (p_net E) later path contents)
                (\<lambda>st. if ok st then ''Correctly wrote 'hello' to the server''
                      else ''Was not able to write even though exclusive lock.''))) s
          else if cmd = ''read'' then
            with_token tokens 1 (\<lambda>path. library_call E (\<lambda>later. client_read (p_net E) later path)
              (\<lambda>(st, contents). if ok st then ''Correctly read: '' @ [CHR 0x27] @ contents @ [CHR 0x27] @ '' from server.''
                                else ''Was not able to read from server.'')) s
          else if cmd = ''release_lock'' then
            with_token tokens 1 (\<lambda>path. library_call E (\<lambda>later. client_release_lock (p_net E) later path)
              (\<lambda>st. if ok st then ''Correctly released lock'' else ''Was not able to release lock'')) s
          else if cmd = ''close_session'' then cmd_close_session E s
          else if cmd = ''h'' \<or> cmd = ''help'' then (True, s\<lparr>p_out := p_out s @ help_text\<rparr>)
          else (True, s))"

text \<open>The prompt of client 1, on the lines typed.\<close>

definition interactive :: "'w prompt_env \<Rightarrow> string list \<Rightarrow> 'w \<Rightarrow> nat \<times> 'w prompt_state" where
  "interactive E lines w =
     prompt_loop (prompt_text ''Lock Service'' 1) (do_cmd E) lines
       \<lparr>p_client = None, p_world = w,
        p_out = ''    -- Distributed Lock Service --'' @ eol @
                ''                         Version 0.1.0'' @ eol,
        p_fault = None\<rparr>"

end
