(* ===== verification/InteractiveProperties.thy ===== *)
theory InteractiveProperties
  imports Interactive ClientProperties
begin

text \<open>The interactive client: what a user types and sees.\<close>

text \<open>A state of the prompt whose client is \<open>c\<close> and whose server is the node \<open>n\<close>; the client's
  thread does not interfere.\<close>

definition at_prompt :: "client \<Rightarrow> ('ch, 's) node \<Rightarrow> string \<Rightarrow> ('ch, 's) node prompt_state" where
  "at_prompt c n out = \<lparr>p_client = Some c, p_world = n, p_out = out, p_fault = None\<rparr>"

text \<open>What a user writes with one command is what the next command shows, when Raft commits the
  write and the user's client holds the lock.\<close>

theorem typed_write_read:
  assumes "serves S C env a (p_net E)" and "master c = Some a" and "\<not> jeopardy c" and "om_find (c_locks c) p \<noteq> None"
    and "ser_law S room written pending" and "is_absolute (cwd (n_conf n))"
    and "dir_ready (n_conf n) (n_fs n)" and "lock_name p" and "length p + length t \<le> 60"
    and "holds (session_id c) p n" and "is_exists p n" and "call_outcome env = Committed i"
  shows "case do_cmd E [''write'', p, t] (at_prompt c n out) of (goes_on, s) \<Rightarrow>
    goes_on \<and> p_fault s = None \<and>
    (case do_cmd E [''read'', p] s of (goes_on', s') \<Rightarrow>
       goes_on' \<and> p_fault s' = None \<and>
       p_out s' = p_out s @ ''Correctly read: '' @ [CHR 0x27] @ t @ [CHR 0x27] @ '' from server.'' @ eol)"
proof -
  obtain n' where w: "client_write (p_net E) (p_wait E c) p t c n = (Inr status_OK, c, n')"
    and r: "fst (client_read (p_net E) (p_wait E c) p c n') = Inr (status_OK, t)"
    using write_read_through_client [OF assms, of "p_wait E c"] by (auto split: prod.splits)
  obtain c2 n2 where r: "client_read (p_net E) (p_wait E c) p c n' = (Inr (status_OK, t), c2, n2)"
    using r by (metis prod.collapse)
  show ?thesis
    by (simp add: do_cmd_def with_token_def library_call_def at_prompt_def w r tell_def status_OK_def)
qed

definition demo_prompt :: "(int list, u64) node prompt_env" where
  "demo_prompt =
     \<lparr>p_net = demo_net, p_self = ''me'', p_now = 0, p_members = [''s0'', ''s1''], p_wait = id\<rparr>"

theorem typed_write_read_witness:
  "p_fault (snd (do_cmd demo_prompt [''write'', ''f'', ''hello''] (at_prompt demo_client demo_node []))) = None"
proof -
  have sv: "serves item_ser list_chan demo_env ''s1'' (p_net demo_prompt)"
    unfolding demo_prompt_def by (simp add: demo_net_def one_server_serves)
  have c: "master demo_client = Some ''s1''" "\<not> jeopardy demo_client" "om_find (c_locks demo_client) ''f'' \<noteq> None"
    "session_id demo_client = ''c''" "call_outcome demo_env = Committed 5"
    by (simp_all add: demo_client_def demo_env_def)
  show ?thesis
    using typed_write_read [OF sv c(1-3) item_ser_law demo_files(3) demo_ready demo_held(3) _ _ demo_held(2) c(5),
        of "''hello''" "[]"] demo_held(1) c(4)
    by (simp add: split_beta)
qed

text \<open>A whole session typed at the prompt, from its first line to the disk of the server: the lines
  shown at the end, and the holder the server is left with.\<close>

theorem typed_session:
  "let s = snd (interactive demo_prompt
       [''start_session'', ''open_lock f'', ''acquire_lock exclusive f'', ''write f hello'', ''read f'',
        ''release_lock f'', ''exit'', ''close_session''] demo_init)
   in p_fault s = None \<and> holds_exclusively ''me'' ''f'' (p_world s) \<and>
      p_out s = ''    -- Distributed Lock Service --'' @ eol @ ''                         Version 0.1.0'' @ eol @
        ''Lock created'' @ eol @ ''Correctly acquired lock'' @ eol @
        ''Correctly wrote 'hello' to the server'' @ eol @
        ''Correctly read: '' @ [CHR 0x27] @ ''hello'' @ [CHR 0x27] @ '' from server.'' @ eol @
        ''Was not able to release lock'' @ eol"
  by code_simp

text \<open>A command without its argument reads beyond the tokens, whatever the state.\<close>

theorem missing_argument:
  "list_all (\<lambda>cmd. p_fault (snd (do_cmd E [cmd] s)) = Some UndefinedBehaviour)
     [''open_lock'', ''acquire_lock'', ''delete'', ''write'', ''read'', ''release_lock'']"
  by (simp add: do_cmd_def with_token_def fault_def cmd_acquire_lock_def)

end
