(* ===== verification/RelativePaths.thy ===== *)
theory RelativePaths
  imports Paths
begin

text \<open>
  \<^verbatim>\<open>constructRelativePath\<close> of \<^verbatim>\<open>src/utility.cc\<close>. \<^verbatim>\<open>canonical\<close> and \<^verbatim>\<open>weakly_canonical\<close> of
  \<^verbatim>\<open>std::filesystem\<close> resolve symbolic links and are arguments; \<^verbatim>\<open>relative\<close> is the lexical
  comparison of what the second gives, absolute paths without dots.
\<close>

section \<open>Elements of a path\<close>

fun split_at_seps :: "string \<Rightarrow> string \<Rightarrow> string list" where
  "split_at_seps cur [] = (if cur = [] then [] else [cur])"
| "split_at_seps cur (c # cs) =
     (if c = sep then (if cur = [] then [] else [cur]) @ split_at_seps [] cs else split_at_seps (cur @ [c]) cs)"

definition path_elements :: "string \<Rightarrow> string list" where
  "path_elements p = split_at_seps [] p"

fun join_elements :: "string list \<Rightarrow> string" where
  "join_elements [] = []"
| "join_elements [e] = e"
| "join_elements (e # es) = e @ [sep] @ join_elements es"

fun strip_common :: "'a list \<Rightarrow> 'a list \<Rightarrow> 'a list \<times> 'a list" where
  "strip_common (x # xs) (y # ys) = (if x = y then strip_common xs ys else (x # xs, y # ys))"
| "strip_common xs ys = (xs, ys)"

text \<open>\<^verbatim>\<open>lexically_relative\<close> on absolute paths: up to the common directory, then down; a dot for equal ones.\<close>

definition relative_elements :: "string list \<Rightarrow> string list \<Rightarrow> string list" where
  "relative_elements p base =
     (case strip_common p base of
        (down, up) \<Rightarrow> if down = [] \<and> up = [] then [''.''] else replicate (length up) ''..'' @ down)"

definition lexically_relative :: "string \<Rightarrow> string \<Rightarrow> string" where
  "lexically_relative p base = join_elements (relative_elements (path_elements p) (path_elements base))"

definition constructRelativePath ::
    "(string \<Rightarrow> string result) \<Rightarrow> (string \<Rightarrow> string) \<Rightarrow> string \<Rightarrow> string \<Rightarrow> string result" where
  "constructRelativePath canonical weakly_canonical path rootPath =
     (case (if \<not> is_absolute path then canonical path else Inr path) of
        Inl e \<Rightarrow> Inl e
      | Inr p \<Rightarrow> Inr (generic_string (lexically_relative (weakly_canonical p) (weakly_canonical rootPath))))"

section \<open>Following the result\<close>

text \<open>Going up an element for each pair of dots, and down for any other.\<close>

fun follow :: "string list \<Rightarrow> string list \<Rightarrow> string list" where
  "follow base [] = base"
| "follow base (e # es) = follow (if e = ''..'' then butlast base else if e = ''.'' then base else base @ [e]) es"

lemma strip_common_prefix:
  "strip_common p base = (down, up) \<Longrightarrow> \<exists>c. p = c @ down \<and> base = c @ up"
proof (induction p base arbitrary: down up rule: strip_common.induct)
  case (1 x xs y ys)
  show ?case
  proof (cases "x = y")
    case True
    with "1.prems" "1.IH" obtain c where "xs = c @ down" "ys = c @ up" by auto
    then show ?thesis using True by (intro exI [of _ "x # c"]) simp
  qed (use "1.prems" in simp)
qed simp_all

lemma follow_append: "follow base (es @ es') = follow (follow base es) es'"
  by (induction es arbitrary: base) simp_all

lemma follow_up: "follow (c @ up) (replicate (length up) ''..'') = c"
proof (induction up rule: rev_induct)
  case (snoc x xs)
  then show ?case by (simp add: butlast_append flip: append_assoc)
qed simp

lemma follow_down: "\<forall>e \<in> set down. e \<noteq> ''..'' \<and> e \<noteq> ''.'' \<Longrightarrow> follow c down = c @ down"
  by (induction down arbitrary: c) simp_all

text \<open>From the base, the relative path leads to the path, when neither has dots.\<close>

lemma relative_leads_back:
  assumes "\<forall>e \<in> set p. e \<noteq> ''..'' \<and> e \<noteq> ''.''"
  shows "follow base (relative_elements p base) = p"
proof -
  obtain down up where s: "strip_common p base = (down, up)" by fastforce
  then obtain c where c: "p = c @ down" "base = c @ up" using strip_common_prefix by blast
  show ?thesis
  proof (cases "down = [] \<and> up = []")
    case True
    then show ?thesis using s c by (simp add: relative_elements_def)
  next
    case False
    have "follow c down = c @ down" using assms c by (intro follow_down) simp
    then show ?thesis using False s c by (simp add: relative_elements_def follow_append follow_up)
  qed
qed

end
