(* ===== verification/Spec2Isabelle.thy ===== *)
theory Spec2Isabelle
  imports LockProperties SessionProperties FileProperties LeaseProperties ReplicationProperties
    ClientProperties LogProperties StartupProperties OptionsProperties LoggerProperties
    LoggerMgrProperties TestSuiteProperties ClusterProperties TraceProperties ProcessProperties TestTimers
    WorkerProperties InteractiveProperties RelativePaths
begin

text \<open>
  A model of the distributed lock service (a Chubby-like service over NuRaft and gRPC) with the
  theorems that make it correct. This theory only puts the parts together.

  \<^bold>\<open>The program.\<close> Clients open sessions with the master, keep them alive, and acquire, release,
  read and write locks, which are files. The master's handlers (\<^verbatim>\<open>src/app.cc\<close>) keep the session
  and lock tables in memory and pass every change of a file to Raft (\<^verbatim>\<open>src/consensus\<close>); the
  state machine (\<^verbatim>\<open>include/state_machine.hxx\<close>) of every server applies it to the disk. The
  services of \<^verbatim>\<open>src/rpc.cc\<close> call the handlers, after checking that this server is the master
  where a session is opened or kept alive and without a check elsewhere; the library of
  \<^verbatim>\<open>src/client.cc\<close> calls the endpoints and keeps a table of its own. NuRaft is given a log
  store, a state manager and a logger, which are the program's.

  \<^bold>\<open>Theories and sources.\<close>
  \<^item> \<open>Prelude\<close>, \<open>StdMap\<close>: machine integers, results, decimal printing, \<^verbatim>\<open>std::map\<close>.
  \<^item> \<open>Paths\<close>, \<open>RelativePaths\<close>, \<open>Utility\<close>, \<open>Options\<close>, \<open>OptionsProperties\<close>: \<^verbatim>\<open>src/utility.cc\<close>, the
    configuration of \<^verbatim>\<open>include/utility.h\<close> and the first part of \<^verbatim>\<open>main\<close>. \<open>TestSuite\<close>, \<open>TestSuiteProperties\<close>, \<open>TestTools\<close>,
    \<open>TestTimers\<close>: the test suite class, its macros, timers, held threads and displays, and the RPC
    counters of \<^verbatim>\<open>include/utility.h\<close>.
  \<^item> \<open>FileSystem\<close>, \<open>Serializer\<close>: what the program uses of \<^verbatim>\<open>std::filesystem\<close>, of streams and of
    NuRaft's buffers; the last is an interface, instantiated by an item list.
  \<^item> \<open>StateMachine\<close>, \<open>Consensus\<close>: \<^verbatim>\<open>include/state_machine.hxx\<close>, \<^verbatim>\<open>src/consensus/consensus.cc\<close>.
    \<open>Replication\<close>, \<open>ReplicationProperties\<close>: payloads, the files a log leaves, snapshots.
  \<^item> \<open>LockServer\<close>, \<open>Sessions\<close>: the handlers of \<^verbatim>\<open>src/app.cc\<close> and the structures of
    \<^verbatim>\<open>include/struct.h\<close>; \<^verbatim>\<open>std::shared_ptr\<close> to a lock is an address in \<open>lock_heap\<close>, since the tables
    share locks. \<open>LockInvariant\<close>, \<open>LockOps\<close>, \<open>NodeRuns\<close>, \<open>NodeInvariant\<close>: what holds of the tables in
    every state a node reaches. \<open>LockTable\<close>, \<open>SessionEnd\<close>: the abstract lock table and the
    refinements. \<open>DeadSession\<close>: terminated sessions. \<open>FileOps\<close>: reads and writes
    by outcome. \<open>LockProperties\<close>, \<open>SessionProperties\<close>, \<open>FileProperties\<close>, \<open>LeaseProperties\<close>: the
    properties; \<open>Examples\<close>: a concrete node.
  \<^item> \<open>Cluster\<close>, \<open>ClusterProperties\<close>: all servers together, each a node with the handlers above, and the
    log that Raft replicates: a call on any member, an entry a member applies later, an entry whose
    caller no longer waits. Raft's agreement on one log is the model's step, not proved.
  \<^item> \<open>Rpc\<close>, \<open>Client\<close>, \<open>ClientProperties\<close>: \<^verbatim>\<open>src/rpc.cc\<close>, \<^verbatim>\<open>src/client.cc\<close>; the network is an
    argument that delivers a call to a server or fails. \<open>Interactive\<close>, \<open>InteractiveProperties\<close>: the
    prompt of \<^verbatim>\<open>test/interactive.cc\<close> on top of them.
  \<^item> \<open>LogStore\<close>, \<open>LogContract\<close>, \<open>LogStoreSpec\<close>, \<open>LogPack\<close>, \<open>LogProperties\<close>:
    \<^verbatim>\<open>src/consensus/log_store.cc\<close>, the contract \<open>raft_log\<close> and its interpretation.
  \<^item> \<open>Startup\<close>, \<open>StartupProperties\<close>: \<^verbatim>\<open>initializeStaticInstance\<close>, \<^verbatim>\<open>include/state_manager.hxx\<close>.
    \<open>ServerProcess\<close>, \<open>ProcessProperties\<close>: \<^verbatim>\<open>main\<close> from the options to the exit, with \<^verbatim>\<open>init_raft\<close>, the
    gRPC server and what the process prints.
  \<^item> \<open>LoggerText\<close>, \<open>LoggerCore\<close>, \<open>LoggerMgr\<close>, \<open>LoggerCrash\<close>: \<^verbatim>\<open>src/consensus/debugger.cc\<close> and
    \<^verbatim>\<open>include/debugger.hxx\<close> as one thread sees them. \<open>LoggerRing\<close>: the contract \<open>text_sink\<close>, which the
    ring, the files and their rotation keep. \<open>LoggerFiles\<close>: compression and restart.
    \<open>LoggerRace\<close>: threads in \<^verbatim>\<open>put\<close> and \<^verbatim>\<open>flush\<close> step by step. \<open>LogStream\<close>: the log, stream and
    timed macros. \<open>LoggerWorkers\<close>, \<open>WorkerProperties\<close>: the manager's threads from start to
    join. \<open>Backtrace\<close>: the interpretation of stack frames. \<open>LoggerProperties\<close>,
    \<open>LoggerMgrProperties\<close>, \<open>TraceProperties\<close>: the properties.

  \<^bold>\<open>What the lemmas show.\<close> The properties stand in the theories named \<open>*Properties\<close>, each behind
  a numbered comment that states it. Mutual exclusion and the agreement of a lock's
  mode with its owners hold in every state reached by guarded operations (the guard excludes
  \<open>delete_lock\<close>, which breaks exclusion, as \<open>LockProperties\<close> shows). Acquiring and releasing refine the abstract
  lock table; ending a session refines dropping its owner; every reachable node is well typed.
  Replicas that commit the same log hold the same files; snapshots carry the state over. In a cluster a holder reads the last committed write
  its member has applied, and an acknowledged write survives a change of master; a deposed master
  still answers. What a client, or a user at the prompt, writes is what it reads through all layers;
  the client's session thread only ends expired. A server comes up exactly when Raft does. The log store refines a list with a first index.
  The logger refines one growing text; with several threads no two share a slot, and every message
  is accounted for, dropped ones included; a crash flushes
  every ring, and its timer ends the process in time; destroying the manager ends.

  \<^bold>\<open>Integers, loops, fuel.\<close> Log indices and terms are \<open>64 word\<close>, leases in replies \<open>32 word\<close>; session
  times are integers, far from the ends of 64 bits; sizes of logs and files in the logger are natural
  numbers. \<^verbatim>\<open>compact\<close> and \<^verbatim>\<open>replaceString\<close> may not end and are partial functions, with the
  cases in which they do and do not end proved. The jeopardy loop of the client
  has fuel, the number of passes; fuel beyond the first pass that is later than the period is
  enough, whatever the servers answer. Waiting for Raft makes at most \<open>MAX_TRY\<close> polls.
  A \<^verbatim>\<open>double\<close> is the rational it stands for, and the products the code rounds are arguments.
  \<open>end_loop\<close> ends because every release shortens the session's table. A call blocked on a channel or a slot of the logger is the value \<open>None\<close>.

  \<^bold>\<open>Arguments and hypotheses.\<close> NuRaft's buffers, entries, snapshots and configuration, gRPC, boost's
  option parser, splitter and casts, the channel between threads, the clock, random numbers, the shell, the
  directory listing and the stack unwinder are arguments. The laws assumed of them (\<open>ser_law\<close>,
  \<open>chan_law\<close>, \<open>shell_law\<close> and others) are their documented behaviour, each with an instance.

  \<^bold>\<open>Not modelled.\<close> Handlers run one after the other, as the code takes no locks that the model could
  show and its races are undefined behaviour; the interleavings of session threads and handlers
  are those of whole iterations. Raft's elections and replication, gRPC's transport, and debugging
  messages of the handlers; the help texts of the options; tests and benchmarks; in the logger the
  delivery of signals;
  \<^verbatim>\<open>include/library.h\<close> and the other headers that only declare.
\<close>

end
